theory Spec2Isabelle
  imports Main "HOL-Library.Word" "HOL-Library.Log_Nat"
begin

section \<open>Machine numbers\<close>

text \<open>
  Go's \<^verbatim>\<open>int32\<close> is a 32-bit word: \<open>+\<close> and \<open>-\<close> wrap around, \<open>sint\<close> reads the
  signed value.  Go's \<^verbatim>\<open>int\<close> (64 bit) only holds lengths, indices and small counts
  in the code below and is modelled as \<open>int\<close>.
\<close>

type_synonym int32 = "32 word"

subsection \<open>IEEE-754 binary64\<close>

text \<open>
  A \<^verbatim>\<open>float64\<close> is a finite rational, negative zero, an infinity or NaN (\<open>Fin 0\<close> is
  \<open>+0\<close>).  Arithmetic computes the exact rational result and rounds it to the nearest
  double, ties to even (53 bit significand, exponents \<open>-1022 .. 1023\<close>, gradual
  underflow, overflow to infinity), which is what the Go operators do.
\<close>

datatype float64 = Fin rat | NegZero | PInf | NInf | NaN

fun fval :: "float64 \<Rightarrow> rat" where
  "fval (Fin r) = r"
| "fval _ = 0"

fun isFinite :: "float64 \<Rightarrow> bool" where
  "isFinite (Fin r) = True"
| "isFinite NegZero = True"
| "isFinite _ = False"

fun isInf :: "float64 \<Rightarrow> bool" where
  "isInf PInf = True"
| "isInf NInf = True"
| "isInf _ = False"

fun isZero :: "float64 \<Rightarrow> bool" where
  "isZero (Fin r) = (r = 0)"
| "isZero NegZero = True"
| "isZero _ = False"

text \<open>The sign bit (\<open>True\<close> is negative); NaN counts as positive, its sign is never read.\<close>

fun fsign :: "float64 \<Rightarrow> bool" where
  "fsign (Fin r) = (r < 0)"
| "fsign NegZero = True"
| "fsign NInf = True"
| "fsign _ = False"

definition pow2 :: "int \<Rightarrow> rat" where
  "pow2 e = (if 0 \<le> e then 2 ^ nat e else 1 / 2 ^ nat (- e))"

text \<open>\<open>ilog2 a\<close> is \<open>\<lfloor>log\<^sub>2 a\<rfloor>\<close> for a positive rational \<open>a\<close>.\<close>

definition ilog2 :: "rat \<Rightarrow> int" where
  "ilog2 a = (if 1 \<le> a then bitlen \<lfloor>a\<rfloor> - 1 else - bitlen (\<lceil>1 / a\<rceil> - 1))"

text \<open>Round a non-negative rational to the nearest integer, ties to even.\<close>

definition rne :: "rat \<Rightarrow> int" where
  "rne q = (let f = \<lfloor>q\<rfloor>; r = q - of_int f
            in if r < 1 / 2 then f else if 1 / 2 < r then f + 1
               else if even f then f else f + 1)"

definition signedZero :: "bool \<Rightarrow> float64" where
  "signedZero neg = (if neg then NegZero else Fin 0)"

definition signedInf :: "bool \<Rightarrow> float64" where
  "signedInf neg = (if neg then NInf else PInf)"

definition round64 :: "rat \<Rightarrow> float64" where
  "round64 x =
     (if x = 0 then Fin 0
      else let a = \<bar>x\<bar>;
               q = max (ilog2 a) (- 1022) - 52;
               m = rne (a / pow2 q);
               v = of_int m * pow2 q
           in if pow2 1024 \<le> v then signedInf (x < 0)
              else if m = 0 then signedZero (x < 0)
              else Fin (if x < 0 then - v else v))"

fun fneg :: "float64 \<Rightarrow> float64" where
  "fneg (Fin r) = (if r = 0 then NegZero else Fin (- r))"
| "fneg NegZero = Fin 0"
| "fneg PInf = NInf"
| "fneg NInf = PInf"
| "fneg NaN = NaN"

fun fabs :: "float64 \<Rightarrow> float64" where
  "fabs (Fin r) = Fin \<bar>r\<bar>"
| "fabs NegZero = Fin 0"
| "fabs NInf = PInf"
| "fabs PInf = PInf"
| "fabs NaN = NaN"

definition fadd :: "float64 \<Rightarrow> float64 \<Rightarrow> float64" where
  "fadd x y =
     (if x = NaN \<or> y = NaN then NaN
      else if isInf x \<and> isInf y then (if x = y then x else NaN)
      else if isInf x then x
      else if isInf y then y
      else if x = NegZero \<and> y = NegZero then NegZero
      else round64 (fval x + fval y))"

definition fsub :: "float64 \<Rightarrow> float64 \<Rightarrow> float64" where
  "fsub x y = fadd x (fneg y)"

definition fmul :: "float64 \<Rightarrow> float64 \<Rightarrow> float64" where
  "fmul x y =
     (if x = NaN \<or> y = NaN then NaN
      else if (isInf x \<and> isZero y) \<or> (isZero x \<and> isInf y) then NaN
      else if isInf x \<or> isInf y then signedInf (fsign x \<noteq> fsign y)
      else if isZero x \<or> isZero y then signedZero (fsign x \<noteq> fsign y)
      else round64 (fval x * fval y))"

definition fdiv :: "float64 \<Rightarrow> float64 \<Rightarrow> float64" where
  "fdiv x y =
     (if x = NaN \<or> y = NaN then NaN
      else if (isInf x \<and> isInf y) \<or> (isZero x \<and> isZero y) then NaN
      else if isInf x \<or> isZero y then signedInf (fsign x \<noteq> fsign y)
      else if isInf y \<or> isZero x then signedZero (fsign x \<noteq> fsign y)
      else round64 (fval x / fval y))"

text \<open>Comparisons: every comparison with NaN is false, \<open>-0 == +0\<close>.\<close>

definition flt :: "float64 \<Rightarrow> float64 \<Rightarrow> bool" where
  "flt x y =
     (if x = NaN \<or> y = NaN then False
      else if x = PInf \<or> y = NInf then False
      else if x = NInf \<or> y = PInf then True
      else fval x < fval y)"

definition feq :: "float64 \<Rightarrow> float64 \<Rightarrow> bool" where
  "feq x y =
     (if x = NaN \<or> y = NaN then False
      else if isInf x \<or> isInf y then x = y
      else fval x = fval y)"

definition fle :: "float64 \<Rightarrow> float64 \<Rightarrow> bool" where
  "fle x y = (flt x y \<or> feq x y)"

definition fgt :: "float64 \<Rightarrow> float64 \<Rightarrow> bool" where
  "fgt x y = flt y x"

definition fge :: "float64 \<Rightarrow> float64 \<Rightarrow> bool" where
  "fge x y = fle y x"

text \<open>\<^verbatim>\<open>math.IsNaN(f)\<close> is \<^verbatim>\<open>f != f\<close>.\<close>

definition isNaN :: "float64 \<Rightarrow> bool" where
  "isNaN x = (\<not> feq x x)"

text \<open>The conversion \<^verbatim>\<open>float64(n)\<close> of an \<^verbatim>\<open>int\<close>.\<close>

definition float64_of_int :: "int \<Rightarrow> float64" where
  "float64_of_int n = round64 (of_int n)"

text \<open>
  The conversion \<^verbatim>\<open>int(f)\<close> truncates towards zero.  Out of the range of \<^verbatim>\<open>int\<close>
  (and for NaN) the language leaves the result to the implementation; amd64 gives the
  smallest \<^verbatim>\<open>int64\<close>.
\<close>

definition int_of_float64 :: "float64 \<Rightarrow> int" where
  "int_of_float64 x =
     (if isFinite x
      then let t = (if fval x < 0 then \<lceil>fval x\<rceil> else \<lfloor>fval x\<rfloor>)
           in if - (2 ^ 63) \<le> t \<and> t < 2 ^ 63 then t else - (2 ^ 63)
      else - (2 ^ 63))"

section \<open>Expressions and the planner\<close>

datatype exprType = etName | etFunc | etConst | etString

datatype expr = Expr (target: string) (etype: exprType) (val: float64) (valStr: string)
  (args: "expr list") (argString: string)

record metricRequest =
  metric :: string
  from' :: int32
  until' :: int32

datatype error = ErrBadType | ErrMissingArgument | ErrMissingTimeseries

text \<open>
  \<^verbatim>\<open>intervalString\<close> is called by \<^verbatim>\<open>getIntervalArg\<close> but is not defined in
  \<^verbatim>\<open>expr.go\<close>; it is a parameter \<open>iS\<close> of everything that parses an interval.  It
  takes the literal and the default sign and returns the signed seconds or an error.
  The argument index \<open>n\<close> is an \<^verbatim>\<open>int\<close> in the source; every call site passes a
  non-negative literal.
\<close>

definition getIntervalArg ::
  "(string \<Rightarrow> int \<Rightarrow> 'e + int32) \<Rightarrow> expr \<Rightarrow> nat \<Rightarrow> int \<Rightarrow> error + int32" where
  "getIntervalArg iS e n defaultSign =
     (if length (args e) \<le> n then Inl ErrMissingArgument
      else if etype (args e ! n) \<noteq> etString then Inl ErrBadType
      else case iS (valStr (args e ! n)) defaultSign of
             Inl err \<Rightarrow> Inl ErrBadType
           | Inr seconds \<Rightarrow> Inr seconds)"

definition shiftRequest :: "int32 \<Rightarrow> metricRequest \<Rightarrow> metricRequest" where
  "shiftRequest offs q = q\<lparr>from' := from' q + offs, until' := until' q + offs\<rparr>"

definition warmupRequest :: "metricRequest \<Rightarrow> metricRequest" where
  "warmupRequest q = q\<lparr>from' := from' q - 7 * 86400\<rparr>"

fun metrics :: "(string \<Rightarrow> int \<Rightarrow> 'e + int32) \<Rightarrow> expr \<Rightarrow> metricRequest list" where
  "metrics iS (Expr tg ty v vs as astr) =
     (case ty of
        etName \<Rightarrow> [\<lparr>metric = tg, from' = 0, until' = 0\<rparr>]
      | etConst \<Rightarrow> []
      | etString \<Rightarrow> []
      | etFunc \<Rightarrow>
          (let r = foldl (\<lambda>r a. r @ metrics iS a) [] as
           in if tg = ''timeShift'' then
                (case getIntervalArg iS (Expr tg ty v vs as astr) 1 (- 1) of
                   Inl err \<Rightarrow> []
                 | Inr offs \<Rightarrow> map (shiftRequest offs) r)
              else if tg = ''holtWintersForecast'' then map warmupRequest r
              else r))"

text \<open>A stand-in for \<^verbatim>\<open>intervalString\<close> that reads \<open>1h\<close> only; used for concrete runs.\<close>

definition hourInterval :: "string \<Rightarrow> int \<Rightarrow> unit + int32" where
  "hourInterval s defaultSign = (if s = ''1h'' then Inr (word_of_int (defaultSign * 3600)) else Inl ())"

section \<open>Series\<close>

text \<open>
  Modelled from the spec: the declaration of \<^verbatim>\<open>metricData\<close> is not in \<^verbatim>\<open>expr.go\<close>.
  It embeds the fetch response (optional name, start, stop and step time, the values and
  the parallel absence flags) and carries the presentation attributes.  The optional
  scalar fields are pointers in the source: \<open>None\<close> is the nil pointer, and the
  getters read nil as the zero value.
\<close>

record metricData =
  Name :: "string option"
  StartTime :: "int32 option"
  StopTime :: "int32 option"
  StepTime :: "int32 option"
  Values :: "float64 list"
  IsAbsent :: "bool list"
  color :: string
  dashed :: bool
  drawAsInfinite :: bool
  secondYAxis :: bool

definition GetName :: "metricData \<Rightarrow> string" where
  "GetName m = (case Name m of None \<Rightarrow> [] | Some s \<Rightarrow> s)"

definition GetStepTime :: "metricData \<Rightarrow> int32" where
  "GetStepTime m = (case StepTime m of None \<Rightarrow> 0 | Some t \<Rightarrow> t)"

text \<open>A \<^verbatim>\<open>*metricData\<close>: \<open>None\<close> is nil.  A slice is a list, the nil slice is \<open>[]\<close>.\<close>

type_synonym series = "metricData option"

type_synonym valuesMap = "metricRequest \<Rightarrow> series list option"

subsection \<open>Run-time panics\<close>

text \<open>
  Nothing in \<^verbatim>\<open>expr.go\<close> recovers from a panic, so an index out of range, a nil
  dereference, a negative \<^verbatim>\<open>make\<close> or an integer division by zero aborts the whole
  evaluation: \<open>Panic\<close>.
\<close>

datatype 'a outcome = Panic | Return 'a

fun obind :: "'a outcome \<Rightarrow> ('a \<Rightarrow> 'b outcome) \<Rightarrow> 'b outcome" where
  "obind Panic f = Panic"
| "obind (Return x) f = f x"

text \<open>\<^verbatim>\<open>xs[i]\<close> read, \<^verbatim>\<open>xs[i] = v\<close> written and \<^verbatim>\<open>*p\<close>.\<close>

definition elemAt :: "'a list \<Rightarrow> nat \<Rightarrow> 'a outcome" where
  "elemAt xs i = (if i < length xs then Return (xs ! i) else Panic)"

definition upd :: "'a list \<Rightarrow> nat \<Rightarrow> 'a \<Rightarrow> 'a list outcome" where
  "upd xs i v = (if i < length xs then Return (xs[i := v]) else Panic)"

definition deref :: "'a option \<Rightarrow> 'a outcome" where
  "deref p = (case p of None \<Rightarrow> Panic | Some x \<Rightarrow> Return x)"

text \<open>
  \<^verbatim>\<open>make([]T, n)\<close> panics for a negative length and for a length whose size in bytes
  is over the runtime's \<^verbatim>\<open>maxAlloc\<close>.  Every slice made in the code below has elements of
  eight bytes (\<^verbatim>\<open>float64\<close>, a pointer) and \<^verbatim>\<open>maxAlloc\<close> is \<open>2\<^sup>4\<^sup>8\<close> bytes on
  linux/amd64, so a length over \<open>2\<^sup>4\<^sup>5\<close> panics.  Up to that length the allocation is
  taken to succeed: memory is assumed to suffice.
\<close>

definition maxSliceLen :: int where
  "maxSliceLen = 2 ^ 45"

definition makeSlice :: "'a \<Rightarrow> int \<Rightarrow> 'a list outcome" where
  "makeSlice z n = (if n < 0 \<or> maxSliceLen < n then Panic else Return (replicate (nat n) z))"

text \<open>\<^verbatim>\<open>for i, x := range xs { body }\<close> over a state \<open>s\<close>, started as \<open>forRange 0 xs body s\<close>.\<close>

fun forRange :: "nat \<Rightarrow> 'a list \<Rightarrow> (nat \<Rightarrow> 'a \<Rightarrow> 's \<Rightarrow> 's outcome) \<Rightarrow> 's \<Rightarrow> 's outcome" where
  "forRange i [] body s = Return s"
| "forRange i (x # xs) body s = obind (body i x s) (forRange (Suc i) xs body)"

subsection \<open>Reducers of one series\<close>

definition maxValue :: "float64 list \<Rightarrow> bool list \<Rightarrow> float64 outcome" where
  "maxValue f64s absent =
     forRange 0 f64s
       (\<lambda>i v m. obind (elemAt absent i) (\<lambda>ab.
          if ab then Return m
          else if fgt v m then Return v else Return m))
       NInf"

definition minValue :: "float64 list \<Rightarrow> bool list \<Rightarrow> float64 outcome" where
  "minValue f64s absent =
     forRange 0 f64s
       (\<lambda>i v m. obind (elemAt absent i) (\<lambda>ab.
          if ab then Return m
          else if flt v m then Return v else Return m))
       PInf"

definition avgValue :: "float64 list \<Rightarrow> bool list \<Rightarrow> float64 outcome" where
  "avgValue f64s absent =
     obind (forRange 0 f64s
              (\<lambda>i v (t, elts). obind (elemAt absent i) (\<lambda>ab.
                 if ab then Return (t, elts)
                 else Return (fadd t v, elts + 1)))
              (Fin 0, 0 :: int))
       (\<lambda>(t, elts). Return (fdiv t (float64_of_int elts)))"

text \<open>The loop \<^verbatim>\<open>for i := len(f64s) - 1; i >= 0; i--\<close>; the counter is \<open>i + 1\<close>.\<close>

fun currentValue_loop :: "float64 list \<Rightarrow> bool list \<Rightarrow> nat \<Rightarrow> float64 outcome" where
  "currentValue_loop f64s absent 0 = Return NaN"
| "currentValue_loop f64s absent (Suc i) =
     obind (elemAt absent i) (\<lambda>ab.
       if \<not> ab then Return (f64s ! i) else currentValue_loop f64s absent i)"

definition currentValue :: "float64 list \<Rightarrow> bool list \<Rightarrow> float64 outcome" where
  "currentValue f64s absent = currentValue_loop f64s absent (length f64s)"

subsection \<open>The sliding window\<close>

record Windowed =
  data :: "float64 list"
  head :: nat
  length' :: int
  sum' :: float64
  sumsq :: float64
  nans :: int

definition Push :: "Windowed \<Rightarrow> float64 \<Rightarrow> Windowed outcome" where
  "Push w n =
     obind (elemAt (data w) (head w)) (\<lambda>old.
       let w = w\<lparr>length' := length' w + 1\<rparr>;
           w = w\<lparr>data := (data w)[head w := n]\<rparr>;
           w = w\<lparr>head := head w + 1\<rparr>;
           w = (if head w \<ge> length (data w) then w\<lparr>head := 0\<rparr> else w);
           w = (if \<not> isNaN old
                then w\<lparr>sum' := fsub (sum' w) old, sumsq := fsub (sumsq w) (fmul old old)\<rparr>
                else w\<lparr>nans := nans w - 1\<rparr>);
           w = (if \<not> isNaN n
                then w\<lparr>sum' := fadd (sum' w) n, sumsq := fadd (sumsq w) (fmul n n)\<rparr>
                else w\<lparr>nans := nans w + 1\<rparr>)
       in Return w)"

definition Len :: "Windowed \<Rightarrow> int" where
  "Len w = (if length' w < int (length (data w)) then length' w - nans w
            else int (length (data w)) - nans w)"

definition Mean :: "Windowed \<Rightarrow> float64" where
  "Mean w = fdiv (sum' w) (float64_of_int (Len w))"

subsection \<open>The heap of ranked series\<close>

record metricHeapElement =
  idx :: nat
  hval :: float64

type_synonym metricHeap = "metricHeapElement list"

definition Less :: "metricHeap \<Rightarrow> nat \<Rightarrow> nat \<Rightarrow> bool" where
  "Less m i j = flt (hval (m ! i)) (hval (m ! j))"

definition Swap :: "metricHeap \<Rightarrow> nat \<Rightarrow> nat \<Rightarrow> metricHeap" where
  "Swap m i j = m[i := m ! j, j := m ! i]"

text \<open>
  \<^verbatim>\<open>heap.Push\<close>, \<^verbatim>\<open>heap.Pop\<close> and \<^verbatim>\<open>heap.Fix\<close> of Go's \<^verbatim>\<open>container/heap\<close>, with its
  \<^verbatim>\<open>up\<close> and \<^verbatim>\<open>down\<close>, over the \<^verbatim>\<open>Less\<close>, \<^verbatim>\<open>Swap\<close>, \<^verbatim>\<open>Push\<close> and \<^verbatim>\<open>Pop\<close> of \<^verbatim>\<open>metricHeap\<close>.
\<close>

function up :: "metricHeap \<Rightarrow> nat \<Rightarrow> metricHeap" where
  "up h j = (let i = (j - 1) div 2
             in if i = j \<or> \<not> Less h j i then h else up (Swap h i j) i)"
  by pat_completeness auto
termination
  by (relation "measure (\<lambda>(h, j). j)") auto

declare up.simps [simp del]

function down_loop :: "metricHeap \<Rightarrow> nat \<Rightarrow> nat \<Rightarrow> metricHeap \<times> nat" where
  "down_loop h i n =
     (let j1 = 2 * i + 1
      in if j1 \<ge> n then (h, i)
         else let j = (if j1 + 1 < n \<and> Less h (j1 + 1) j1 then j1 + 1 else j1)
              in if \<not> Less h j i then (h, i) else down_loop (Swap h i j) j n)"
  by pat_completeness auto
termination
  by (relation "measure (\<lambda>(h, i, n). n - i)") (auto split: if_splits)

declare down_loop.simps [simp del]

definition down :: "metricHeap \<Rightarrow> nat \<Rightarrow> nat \<Rightarrow> metricHeap \<times> bool" where
  "down h i0 n = (let (h', i) = down_loop h i0 n in (h', i > i0))"

definition heap_Push :: "metricHeap \<Rightarrow> metricHeapElement \<Rightarrow> metricHeap" where
  "heap_Push h x = (let h = h @ [x] in up h (length h - 1))"

text \<open>\<^verbatim>\<open>heap.Pop\<close> is only called on a non-empty heap.\<close>

definition heap_Pop :: "metricHeap \<Rightarrow> metricHeapElement \<times> metricHeap" where
  "heap_Pop h =
     (let n = length h - 1;
          h = Swap h 0 n;
          h = fst (down h 0 n)
      in (h ! (length h - 1), take (length h - 1) h))"

definition heap_Fix :: "metricHeap \<Rightarrow> nat \<Rightarrow> metricHeap" where
  "heap_Fix h i = (let (h', moved) = down h i (length h) in if \<not> moved then up h' i else h')"


section \<open>The evaluator\<close>

subsection \<open>Formatting\<close>

text \<open>The verb \<^verbatim>\<open>%d\<close> of \<^verbatim>\<open>fmt.Sprintf\<close>.\<close>

function showNat :: "nat \<Rightarrow> string" where
  "showNat n = (if n < 10 then [''0123456789'' ! n]
                else showNat (n div 10) @ [''0123456789'' ! (n mod 10)])"
  by pat_completeness auto
termination
  by (relation "measure id") auto

declare showNat.simps [simp del]

definition showInt :: "int \<Rightarrow> string" where
  "showInt n = (if n < 0 then CHR ''-'' # showNat (nat (- n)) else showNat (nat n))"

text \<open>\<^verbatim>\<open>strings.IndexAny(s, chars)\<close>: the index of the first byte of \<open>s\<close> in \<open>chars\<close>, or \<open>-1\<close>.\<close>

fun IndexAny :: "string \<Rightarrow> string \<Rightarrow> int" where
  "IndexAny [] chars = - 1"
| "IndexAny (c # s) chars =
     (if c \<in> set chars then 0
      else let k = IndexAny s chars in if k < 0 then - 1 else k + 1)"

text \<open>Integer division of Go truncates towards zero.\<close>

definition quo :: "int \<Rightarrow> int \<Rightarrow> int" where
  "quo a b = sgn a * sgn b * (\<bar>a\<bar> div \<bar>b\<bar>)"

subsection \<open>Argument helpers\<close>

definition getStringArg :: "expr \<Rightarrow> nat \<Rightarrow> error + string" where
  "getStringArg e n =
     (if length (args e) \<le> n then Inl ErrMissingArgument
      else if etype (args e ! n) \<noteq> etString then Inl ErrBadType
      else Inr (valStr (args e ! n)))"

definition getFloatArg :: "expr \<Rightarrow> nat \<Rightarrow> error + float64" where
  "getFloatArg e n =
     (if length (args e) \<le> n then Inl ErrMissingArgument
      else if etype (args e ! n) \<noteq> etConst then Inl ErrBadType
      else Inr (val (args e ! n)))"

definition getIntArg :: "expr \<Rightarrow> nat \<Rightarrow> error + int" where
  "getIntArg e n =
     (if length (args e) \<le> n then Inl ErrMissingArgument
      else if etype (args e ! n) \<noteq> etConst then Inl ErrBadType
      else Inr (int_of_float64 (val (args e ! n))))"

text \<open>
  The helpers that evaluate an argument take the evaluator \<open>ev\<close> of the enclosing call,
  \<^verbatim>\<open>evalExpr(_, from, until, values)\<close>.
\<close>

definition getSeriesArg ::
  "(expr \<Rightarrow> series list outcome) \<Rightarrow> expr \<Rightarrow> (error + series list) outcome" where
  "getSeriesArg ev arg =
     (if etype arg \<noteq> etName \<and> etype arg \<noteq> etFunc then Return (Inl ErrMissingTimeseries)
      else obind (ev arg) (\<lambda>a.
             if length a = 0 then Return (Inl ErrMissingTimeseries) else Return (Inr a)))"

fun getSeriesArgs_loop ::
  "(expr \<Rightarrow> series list outcome) \<Rightarrow> expr list \<Rightarrow> series list \<Rightarrow> (error + series list) outcome" where
  "getSeriesArgs_loop ev [] args' = Return (Inr args')"
| "getSeriesArgs_loop ev (arg # e) args' =
     obind (getSeriesArg ev arg) (\<lambda>r.
       case r of Inl err \<Rightarrow> Return (Inl err)
               | Inr a \<Rightarrow> getSeriesArgs_loop ev e (args' @ a))"

definition getSeriesArgs ::
  "(expr \<Rightarrow> series list outcome) \<Rightarrow> expr list \<Rightarrow> (error + series list) outcome" where
  "getSeriesArgs ev e =
     obind (getSeriesArgs_loop ev e []) (\<lambda>r.
       case r of Inl err \<Rightarrow> Return (Inl err)
               | Inr args' \<Rightarrow> if length args' = 0 then Return (Inl ErrMissingTimeseries)
                               else Return (Inr args'))"

text \<open>The idiom \<^verbatim>\<open>x, err := f(...); if err != nil { return nil }\<close>.\<close>

definition orNil :: "error + 'a \<Rightarrow> ('a \<Rightarrow> series list outcome) \<Rightarrow> series list outcome" where
  "orNil r k = (case r of Inl err \<Rightarrow> Return [] | Inr x \<Rightarrow> k x)"

subsection \<open>Per-series transforms\<close>

text \<open>
  \<^verbatim>\<open>forEachSeriesDo\<close> is only reached after the check that \<^verbatim>\<open>e.args\<close> is not empty.
  The copy \<open>r\<close> gets fresh zeroed \<^verbatim>\<open>Values\<close> and \<^verbatim>\<open>IsAbsent\<close> of the length of
  \<^verbatim>\<open>a.Values\<close>, so the writes \<^verbatim>\<open>r.Values[i]\<close> and \<^verbatim>\<open>r.IsAbsent[i]\<close> inside a loop over
  \<^verbatim>\<open>a.Values\<close> are in range; the reads \<^verbatim>\<open>a.IsAbsent[i]\<close> need not be.
\<close>

definition forEachSeriesDo ::
  "(expr \<Rightarrow> series list outcome) \<Rightarrow> expr \<Rightarrow> (metricData \<Rightarrow> metricData \<Rightarrow> metricData outcome)
   \<Rightarrow> series list outcome" where
  "forEachSeriesDo ev e function =
     obind (getSeriesArg ev (args e ! 0)) (\<lambda>res. orNil res (\<lambda>arg.
       forRange 0 arg
         (\<lambda>_ p results. obind (deref p) (\<lambda>a.
            let r = a\<lparr>Name := Some (target e @ ''('' @ GetName a @ '')''),
                      Values := replicate (length (Values a)) (Fin 0),
                      IsAbsent := replicate (length (Values a)) False\<rparr>
            in obind (function a r) (\<lambda>r'. Return (results @ [Some r']))))
         []))"

definition absolute_fn :: "metricData \<Rightarrow> metricData \<Rightarrow> metricData outcome" where
  "absolute_fn a r =
     forRange 0 (Values a)
       (\<lambda>i v r. obind (elemAt (IsAbsent a) i) (\<lambda>ab.
          if ab then Return (r\<lparr>Values := (Values r)[i := Fin 0], IsAbsent := (IsAbsent r)[i := True]\<rparr>)
          else Return (r\<lparr>Values := (Values r)[i := fabs v]\<rparr>)))
       r"

definition derivative_fn :: "metricData \<Rightarrow> metricData \<Rightarrow> metricData outcome" where
  "derivative_fn a r =
     obind (elemAt (Values a) 0) (\<lambda>prev.
       obind (forRange 0 (Values a)
                (\<lambda>i v (r, prev).
                   if i = 0 then Return (r\<lparr>IsAbsent := (IsAbsent r)[i := True]\<rparr>, prev)
                   else obind (elemAt (IsAbsent a) i) (\<lambda>ab.
                     if ab then Return (r\<lparr>IsAbsent := (IsAbsent r)[i := True]\<rparr>, prev)
                     else Return (r\<lparr>Values := (Values r)[i := fsub v prev]\<rparr>, v)))
                (r, prev))
         (\<lambda>(r, prev). Return r))"

definition integral_fn :: "metricData \<Rightarrow> metricData \<Rightarrow> metricData outcome" where
  "integral_fn a r =
     obind (forRange 0 (Values a)
              (\<lambda>i v (r, current). obind (elemAt (IsAbsent a) i) (\<lambda>ab.
                 if ab then Return (r\<lparr>Values := (Values r)[i := Fin 0],
                                      IsAbsent := (IsAbsent r)[i := True]\<rparr>, current)
                 else let current = fadd current v
                      in Return (r\<lparr>Values := (Values r)[i := current]\<rparr>, current)))
              (r, Fin 0))
       (\<lambda>(r, current). Return r)"

definition isNonNull_fn :: "metricData \<Rightarrow> metricData \<Rightarrow> metricData outcome" where
  "isNonNull_fn a r =
     forRange 0 (Values a)
       (\<lambda>i _ r.
          let r = r\<lparr>IsAbsent := (IsAbsent r)[i := False]\<rparr>
          in obind (elemAt (IsAbsent a) i) (\<lambda>ab.
               if ab then Return (r\<lparr>Values := (Values r)[i := Fin 0]\<rparr>)
               else Return (r\<lparr>Values := (Values r)[i := Fin 1]\<rparr>)))
       r"

subsection \<open>Reductions across series\<close>

definition aggregateSeries ::
  "expr \<Rightarrow> series list \<Rightarrow> (float64 list \<Rightarrow> float64) \<Rightarrow> series list outcome" where
  "aggregateSeries e args' function =
     obind (elemAt args' 0) (\<lambda>p0. obind (deref p0) (\<lambda>a0.
       let r = a0\<lparr>Name := Some (target e @ ''('' @ argString e @ '')''),
                  Values := replicate (length (Values a0)) (Fin 0),
                  IsAbsent := replicate (length (Values a0)) False\<rparr>
       in obind (forRange 0 (Values a0)
                   (\<lambda>i _ r.
                      obind (forRange 0 args'
                               (\<lambda>_ p values. obind (deref p) (\<lambda>arg.
                                  obind (elemAt (IsAbsent arg) i) (\<lambda>ab.
                                    if \<not> ab then obind (elemAt (Values arg) i) (\<lambda>x. Return (values @ [x]))
                                    else Return values)))
                               [])
                        (\<lambda>values.
                           let r = r\<lparr>Values := (Values r)[i := NaN]\<rparr>;
                               r = (if length values > 0
                                    then r\<lparr>Values := (Values r)[i := function values]\<rparr> else r);
                               r = r\<lparr>IsAbsent := (IsAbsent r)[i := isNaN (Values r ! i)]\<rparr>
                           in Return r))
                   r)
            (\<lambda>r. Return [Some r])))"

definition sumReducer :: "float64 list \<Rightarrow> float64" where
  "sumReducer values = foldl fadd (Fin 0) values"

definition avgReducer :: "float64 list \<Rightarrow> float64" where
  "avgReducer values = fdiv (foldl fadd (Fin 0) values) (float64_of_int (int (length values)))"

definition maxReducer :: "float64 list \<Rightarrow> float64" where
  "maxReducer values = foldl (\<lambda>max value. if fgt value max then value else max) NInf values"

definition minReducer :: "float64 list \<Rightarrow> float64" where
  "minReducer values = foldl (\<lambda>min value. if flt value min then value else min) PInf values"


subsection \<open>The bodies of the cases, after their arguments are evaluated\<close>

definition aliasSeries :: "string \<Rightarrow> series list \<Rightarrow> series list outcome" where
  "aliasSeries alias arg =
     obind (elemAt arg 0) (\<lambda>p. obind (deref p) (\<lambda>r.
       Return [Some (r\<lparr>Name := Some alias\<rparr>)]))"

text \<open>
  \<open>averageAbove\<close> ... \<open>minimumBelow\<close>.  \<^verbatim>\<open>compute\<close> stays the nil function when the
  prefix of the target is none of the four; calling it would panic.
\<close>

definition filterByValue :: "string \<Rightarrow> float64 \<Rightarrow> series list \<Rightarrow> series list outcome" where
  "filterByValue tg n args' =
     (let index = IndexAny tg ''AB'';
          isAbove = (drop (nat index) tg = ''Above'');
          prefix = take (nat index) tg;
          isInclusive = (prefix \<noteq> ''maximum'' \<and> prefix \<noteq> ''minimum'');
          compute = (if prefix = ''average'' then Some avgValue
                     else if prefix = ''current'' then Some currentValue
                     else if prefix = ''maximum'' then Some maxValue
                     else if prefix = ''minimum'' then Some minValue
                     else None)
      in forRange 0 args'
           (\<lambda>_ p results. obind (deref p) (\<lambda>a. obind (deref compute) (\<lambda>compute.
              obind (compute (Values a) (IsAbsent a)) (\<lambda>value.
                if isAbove then
                  (if isInclusive then
                     (if fge value n then Return (results @ [p]) else Return results)
                   else
                     (if fgt value n then Return (results @ [p]) else Return results))
                else
                  (if fle value n then Return (results @ [p]) else Return results)))))
           [])"

definition divideSeries :: "expr \<Rightarrow> series list \<Rightarrow> series list \<Rightarrow> series list outcome" where
  "divideSeries e numerator denominator =
     (if length numerator \<noteq> 1 \<or> length denominator \<noteq> 1 then Return []
      else obind (elemAt numerator 0) (\<lambda>pn. obind (deref pn) (\<lambda>num.
           obind (elemAt denominator 0) (\<lambda>pd. obind (deref pd) (\<lambda>den.
             if GetStepTime num \<noteq> GetStepTime den \<or> length (Values num) \<noteq> length (Values den)
             then Return []
             else
               let r = num\<lparr>Name := Some (''divideSeries('' @ argString e @ '')''),
                           Values := replicate (length (Values num)) (Fin 0),
                           IsAbsent := replicate (length (Values num)) False\<rparr>
               in obind (forRange 0 (Values num)
                           (\<lambda>i v r.
                              obind (elemAt (IsAbsent num) i) (\<lambda>nab.
                                if nab then Return (r\<lparr>IsAbsent := (IsAbsent r)[i := True]\<rparr>)
                                else obind (elemAt (IsAbsent den) i) (\<lambda>dab.
                                  if dab then Return (r\<lparr>IsAbsent := (IsAbsent r)[i := True]\<rparr>)
                                  else obind (elemAt (Values den) i) (\<lambda>dv.
                                    if feq dv (Fin 0)
                                    then Return (r\<lparr>IsAbsent := (IsAbsent r)[i := True]\<rparr>)
                                    else Return (r\<lparr>Values := (Values r)[i := fdiv v dv]\<rparr>)))))
                           r)
                    (\<lambda>r. Return [Some r]))))))"

lemma length_Swap: "length (Swap h i j) = length h"
  by (simp add: Swap_def)

lemma length_down_loop: "length (fst (down_loop h i n)) = length h"
proof (induction h i n rule: down_loop.induct)
  case (1 h i n)
  show ?case
    using "1.IH" by (subst down_loop.simps) (simp add: Let_def length_Swap)
qed

lemma length_heap_Pop: "length (snd (heap_Pop h)) = length h - 1"
  by (simp add: heap_Pop_def down_def Let_def case_prod_unfold length_down_loop length_Swap)

lemma obind_cong [fundef_cong]:
  "m = m' \<Longrightarrow> (\<And>x. m' = Return x \<Longrightarrow> f x = f' x) \<Longrightarrow> obind m f = obind m' f'"
  by (cases m') simp_all

text \<open>\<^verbatim>\<open>for len(mh) > 0 { v := heap.Pop(&mh); results[len(mh)] = arg[v.idx] }\<close>\<close>

function highest_drain :: "series list \<Rightarrow> metricHeap \<Rightarrow> series list \<Rightarrow> series list outcome" where
  "highest_drain arg mh results =
     (if length mh > 0 then
        (let (v, mh') = heap_Pop mh
         in obind (elemAt arg (idx v)) (\<lambda>p.
              obind (upd results (length mh') p) (\<lambda>results'.
                highest_drain arg mh' results')))
      else Return results)"
  by pat_completeness auto
termination
proof (relation "measure (\<lambda>(arg, mh, results). length mh)")
  show "wf (measure (\<lambda>(arg, mh, results). length mh))" by simp
next
  fix arg :: "series list" and mh :: metricHeap and results :: "series list"
    and x :: "metricHeapElement \<times> metricHeap" and xa xb xc xd
  assume "0 < length mh" and "x = heap_Pop mh" and "(xa, xb) = x"
  then have "length xb = length mh - 1"
    using length_heap_Pop [of mh] by (metis snd_conv)
  with \<open>0 < length mh\<close> show "((arg, xb, xd), arg, mh, results) \<in> measure (\<lambda>(arg, mh, results). length mh)"
    by simp
qed

declare highest_drain.simps [simp del]

definition highestN :: "string \<Rightarrow> int \<Rightarrow> series list \<Rightarrow> series list outcome" where
  "highestN tg n arg =
     (if int (length arg) < n then Return arg
      else
        let compute = (if tg = ''highestMax'' then Some maxValue
                       else if tg = ''highestAverage'' then Some avgValue
                       else if tg = ''highestCurrent'' then Some currentValue
                       else None)
        in obind (forRange 0 arg
                    (\<lambda>i p mh. obind (deref p) (\<lambda>a. obind (deref compute) (\<lambda>compute.
                       obind (compute (Values a) (IsAbsent a)) (\<lambda>m.
                         if isNaN m then Return mh
                         else if int (length mh) < n
                         then Return (heap_Push mh \<lparr>idx = i, hval = m\<rparr>)
                         else obind (elemAt mh 0) (\<lambda>top.
                           if flt (hval top) m
                           then Return (heap_Fix (mh[0 := \<lparr>idx = i, hval = m\<rparr>]) 0)
                           else Return mh)))))
                    [])
             (\<lambda>mh. obind (makeSlice None n) (\<lambda>results. highest_drain arg mh results)))"

definition movingAverageSeries :: "int32 \<Rightarrow> int32 \<Rightarrow> int \<Rightarrow> series \<Rightarrow> metricData outcome" where
  "movingAverageSeries from until windowSize p =
     obind (makeSlice (Fin 0) windowSize) (\<lambda>d. obind (deref p) (\<lambda>a.
       let w = \<lparr>data = d, head = 0, length' = 0, sum' = Fin 0, sumsq = Fin 0, nans = 0\<rparr>;
           r = a\<lparr>Name := Some (''movingAverage('' @ GetName a @ '','' @ showInt windowSize @ '')''),
                  Values := replicate (length (Values a)) (Fin 0),
                  IsAbsent := replicate (length (Values a)) False,
                  StartTime := Some from,
                  StopTime := Some until\<rparr>
       in obind (forRange 0 (Values a)
                   (\<lambda>i v (r, w). obind (elemAt (IsAbsent a) i) (\<lambda>ab.
                      let v = (if ab then NaN else v);
                          r = r\<lparr>Values := (Values r)[i := Mean w]\<rparr>
                      in obind (Push w v) (\<lambda>w.
                           if int i < windowSize \<or> isNaN (Values r ! i)
                           then Return (r\<lparr>Values := (Values r)[i := Fin 0],
                                          IsAbsent := (IsAbsent r)[i := True]\<rparr>, w)
                           else Return (r, w))))
                   (r, w))
            (\<lambda>(r, w). Return r)))"

definition movingAverage ::
  "int32 \<Rightarrow> int32 \<Rightarrow> int \<Rightarrow> bool \<Rightarrow> series list \<Rightarrow> series list outcome" where
  "movingAverage from until n scaleByStep arg =
     obind (if scaleByStep
            then obind (elemAt arg 0) (\<lambda>p. obind (deref p) (\<lambda>a0.
                   if sint (GetStepTime a0) = 0 then Panic
                   else Return (quo n (sint (GetStepTime a0)))))
            else Return n)
       (\<lambda>windowSize.
          forRange 0 arg
            (\<lambda>_ p result. obind (movingAverageSeries from until windowSize p) (\<lambda>r.
               Return (result @ [Some r])))
            [])"

text \<open>The window argument of \<open>movingAverage\<close>: the sample count and whether to scale it.\<close>

definition windowArg ::
  "(string \<Rightarrow> int \<Rightarrow> 'e + int32) \<Rightarrow> expr \<Rightarrow> (error + int \<times> bool) outcome" where
  "windowArg iS e =
     obind (elemAt (args e) 1) (\<lambda>a1.
       if etype a1 = etConst then
         Return (case getIntArg e 1 of Inl err \<Rightarrow> Inl err | Inr n \<Rightarrow> Inr (n, False))
       else if etype a1 = etString then
         Return (case getIntervalArg iS e 1 1 of Inl err \<Rightarrow> Inl err
                                              | Inr n32 \<Rightarrow> Inr (sint n32, True))
       else Return (Inl ErrBadType))"


subsection \<open>evalExpr\<close>

text \<open>
  The cases of the \<^verbatim>\<open>switch e.target\<close> of \<^verbatim>\<open>evalExpr\<close> that are not transcribed below.
  Their evaluation is the parameter \<open>ext\<close>.  Together with the transcribed cases these
  are all the case labels of the switch.
\<close>

definition otherFunctions :: "string list" where
  "otherFunctions =
     [''aliasByMetric'', ''aliasByNode'', ''aliasSub'', ''asPercent'',
      ''averageSeriesWithWildcards'', ''checkLess'', ''checkLessEqual'', ''checkGreater'',
      ''checkGreaterEqual'', ''checkEqual'', ''checkVariance'', ''severity'',
      ''failureThreshold'', ''diffSeries'', ''multiplySeries'', ''ensure'', ''exclude'',
      ''grep'', ''group'', ''groupByNode'', ''lowestAverage'', ''lowestCurrent'', ''hitcount'',
      ''invert'', ''keepLastValue'', ''changed'', ''kolmogorovSmirnovTest2'', ''ksTest2'',
      ''limit'', ''logarithm'', ''log'', ''mostDeviant'', ''movingMedian'',
      ''nonNegativeDerivative'', ''perSecond'', ''nPercentile'', ''pearson'',
      ''pearsonClosest'', ''offset'', ''offsetToZero'', ''scale'', ''scaleToSeconds'', ''pow'',
      ''sortByMaxima'', ''sortByMinima'', ''sortByTotal'', ''sortByName'', ''stdev'', ''stddev'',
      ''sumSeriesWithWildcards'', ''percentileOfSeries'', ''maxDataPoints'', ''summarize'',
      ''timeShift'', ''transformNull'', ''tukeyAbove'', ''color'', ''dashed'',
      ''drawAsInfinite'', ''secondYAxis'', ''constantLine'', ''holtWintersForecast'',
      ''squareRoot'', ''removeBelowValue'', ''removeAboveValue'']"

definition lookup :: "valuesMap \<Rightarrow> metricRequest \<Rightarrow> series list" where
  "lookup values k = (case values k of None \<Rightarrow> [] | Some l \<Rightarrow> l)"

lemma getSeriesArg_cong [fundef_cong]:
  "arg = arg' \<Longrightarrow> ev arg' = ev' arg' \<Longrightarrow> getSeriesArg ev arg = getSeriesArg ev' arg'"
  by (simp add: getSeriesArg_def)

lemma getSeriesArgs_loop_cong:
  "(\<And>a. a \<in> set e \<Longrightarrow> ev a = ev' a) \<Longrightarrow> getSeriesArgs_loop ev e acc = getSeriesArgs_loop ev' e acc"
proof (induction e arbitrary: acc)
  case Nil
  show ?case by simp
next
  case (Cons a e)
  have "getSeriesArg ev a = getSeriesArg ev' a"
    using Cons.prems by (simp add: getSeriesArg_def)
  moreover have "\<And>acc'. getSeriesArgs_loop ev e acc' = getSeriesArgs_loop ev' e acc'"
    using Cons by simp
  ultimately show ?case by simp
qed

lemma getSeriesArgs_cong [fundef_cong]:
  "e = e' \<Longrightarrow> (\<And>a. a \<in> set e' \<Longrightarrow> ev a = ev' a) \<Longrightarrow> getSeriesArgs ev e = getSeriesArgs ev' e'"
  using getSeriesArgs_loop_cong [of e' ev ev' "[]"] by (simp add: getSeriesArgs_def)

lemma forEachSeriesDo_cong [fundef_cong]:
  "e = e' \<Longrightarrow> ev (args e' ! 0) = ev' (args e' ! 0)
   \<Longrightarrow> forEachSeriesDo ev e function = forEachSeriesDo ev' e' function"
  by (simp add: forEachSeriesDo_def getSeriesArg_def)

lemma orNil_cong [fundef_cong]:
  "r = r' \<Longrightarrow> (\<And>x. r' = Inr x \<Longrightarrow> k x = k' x) \<Longrightarrow> orNil r k = orNil r' k'"
  by (cases r') (simp_all add: orNil_def)

lemma size_nth_args: "i < length as \<Longrightarrow> size (as ! i) < Suc (size_list size as)"
  by (metis less_Suc_eq_le nth_mem size_list_estimation' order_refl)

lemma size_mem_args: "a \<in> set as \<Longrightarrow> size a < Suc (size_list size as)"
  using size_list_estimation' [of a as "size a" size] by simp

function evalExpr ::
  "(expr \<Rightarrow> int32 \<Rightarrow> int32 \<Rightarrow> valuesMap \<Rightarrow> series list outcome)
   \<Rightarrow> (string \<Rightarrow> int \<Rightarrow> 'e + int32)
   \<Rightarrow> expr \<Rightarrow> int32 \<Rightarrow> int32 \<Rightarrow> valuesMap \<Rightarrow> series list outcome" where
  "evalExpr ext iS (Expr tg ty v vs as astr) from until values =
     (let e = Expr tg ty v vs as astr in
      if ty = etName then
        Return (lookup values \<lparr>metric = tg, from' = from, until' = until\<rparr>)
      else if ty = etConst then
        Return [Some \<lparr>Name = Some tg, StartTime = None, StopTime = None, StepTime = None,
                      Values = [v], IsAbsent = [], color = [], dashed = False,
                      drawAsInfinite = False, secondYAxis = False\<rparr>]
      else if length as = 0 then Return []
      else if tg = ''absolute'' then
        forEachSeriesDo (\<lambda>a. evalExpr ext iS a from until values) e absolute_fn
      else if tg = ''alias'' then
        obind (getSeriesArg (\<lambda>a. evalExpr ext iS a from until values) (as ! 0)) (\<lambda>res.
          orNil res (\<lambda>arg. orNil (getStringArg e 1) (\<lambda>alias. aliasSeries alias arg)))
      else if tg = ''avg'' \<or> tg = ''averageSeries'' then
        obind (getSeriesArgs (\<lambda>a. evalExpr ext iS a from until values) as) (\<lambda>res.
          orNil res (\<lambda>args'.
            aggregateSeries (Expr ''averageSeries'' ty v vs as astr) args' avgReducer))
      else if tg \<in> {''averageAbove'', ''averageBelow'', ''currentAbove'', ''currentBelow'',
                     ''maximumAbove'', ''maximumBelow'', ''minimumAbove'', ''minimumBelow''} then
        obind (getSeriesArg (\<lambda>a. evalExpr ext iS a from until values) (as ! 0)) (\<lambda>res.
          orNil res (\<lambda>args'. orNil (getFloatArg e 1) (\<lambda>n. filterByValue tg n args')))
      else if tg = ''derivative'' then
        forEachSeriesDo (\<lambda>a. evalExpr ext iS a from until values) e derivative_fn
      else if tg = ''divideSeries'' then
        (if length as \<noteq> 2 then Return []
         else
           obind (getSeriesArg (\<lambda>a. evalExpr ext iS a from until values) (as ! 0)) (\<lambda>res.
             orNil res (\<lambda>numerator.
               obind (getSeriesArg (\<lambda>a. evalExpr ext iS a from until values) (as ! 1)) (\<lambda>res.
                 orNil res (\<lambda>denominator. divideSeries e numerator denominator)))))
      else if tg = ''isNonNull'' \<or> tg = ''isNotNull'' then
        forEachSeriesDo (\<lambda>a. evalExpr ext iS a from until values)
          (Expr ''isNonNull'' ty v vs as astr) isNonNull_fn
      else if tg = ''highestAverage'' \<or> tg = ''highestCurrent'' \<or> tg = ''highestMax'' then
        obind (getSeriesArg (\<lambda>a. evalExpr ext iS a from until values) (as ! 0)) (\<lambda>res.
          orNil res (\<lambda>arg. orNil (getIntArg e 1) (\<lambda>n. highestN tg n arg)))
      else if tg = ''integral'' then
        forEachSeriesDo (\<lambda>a. evalExpr ext iS a from until values) e integral_fn
      else if tg = ''maxSeries'' then
        obind (getSeriesArgs (\<lambda>a. evalExpr ext iS a from until values) as) (\<lambda>res.
          orNil res (\<lambda>args'. aggregateSeries e args' maxReducer))
      else if tg = ''minSeries'' then
        obind (getSeriesArgs (\<lambda>a. evalExpr ext iS a from until values) as) (\<lambda>res.
          orNil res (\<lambda>args'. aggregateSeries e args' minReducer))
      else if tg = ''movingAverage'' then
        obind (windowArg iS e) (\<lambda>res. orNil res (\<lambda>(n, scaleByStep).
          obind (getSeriesArg (\<lambda>a. evalExpr ext iS a from until values) (as ! 0)) (\<lambda>res.
            orNil res (\<lambda>arg. movingAverage from until n scaleByStep arg))))
      else if tg = ''sum'' \<or> tg = ''sumSeries'' then
        obind (getSeriesArgs (\<lambda>a. evalExpr ext iS a from until values) as) (\<lambda>res.
          orNil res (\<lambda>args'.
            aggregateSeries (Expr ''sumSeries'' ty v vs as astr) args' sumReducer))
      else if tg \<in> set otherFunctions then ext e from until values
      else Return [])"
  by pat_completeness auto
termination
  by (relation "measure (\<lambda>(ext, iS, e, from, until, values). size e)")
     (simp_all add: size_nth_args size_mem_args)

declare evalExpr.simps [simp del]

text \<open>All case labels of the \<^verbatim>\<open>switch e.target\<close> of \<^verbatim>\<open>evalExpr\<close>.\<close>

definition knownFunctions :: "string list" where
  "knownFunctions =
     [''absolute'', ''alias'', ''avg'', ''averageSeries'', ''averageAbove'', ''averageBelow'',
      ''currentAbove'', ''currentBelow'', ''maximumAbove'', ''maximumBelow'', ''minimumAbove'',
      ''minimumBelow'', ''derivative'', ''divideSeries'', ''isNonNull'', ''isNotNull'',
      ''highestAverage'', ''highestCurrent'', ''highestMax'', ''integral'', ''maxSeries'',
      ''minSeries'', ''movingAverage'', ''sum'', ''sumSeries''] @ otherFunctions"

section \<open>Concrete inputs\<close>

text \<open>
  Building blocks of the concrete runs below: an \<open>ext\<close> that returns nothing, a series
  with a 60 second step, a values map that answers one metric name, and the three
  expression shapes the parser produces.
\<close>

definition noExt :: "expr \<Rightarrow> int32 \<Rightarrow> int32 \<Rightarrow> valuesMap \<Rightarrow> series list outcome" where
  "noExt e from until values = Return []"

definition mkSeries :: "string \<Rightarrow> float64 list \<Rightarrow> bool list \<Rightarrow> metricData" where
  "mkSeries nm vals ab = \<lparr>Name = Some nm, StartTime = Some 0, StopTime = Some 300, StepTime = Some 60,
      Values = vals, IsAbsent = ab, color = [], dashed = False, drawAsInfinite = False, secondYAxis = False\<rparr>"

definition oneMetric :: "string \<Rightarrow> series list \<Rightarrow> valuesMap" where
  "oneMetric nm l = (\<lambda>k. if metric k = nm then Some l else None)"

definition nameE :: "string \<Rightarrow> expr" where "nameE s = Expr s etName (Fin 0) [] [] []"
definition constE :: "float64 \<Rightarrow> expr" where "constE v = Expr [] etConst v [] [] []"
definition funcE :: "string \<Rightarrow> expr list \<Rightarrow> string \<Rightarrow> expr" where "funcE f as s = Expr f etFunc (Fin 0) [] as s"

definition namedMetrics :: "(string \<times> series list) list \<Rightarrow> valuesMap" where
  "namedMetrics l = (\<lambda>k. map_of l (metric k))"

definition exampleValues :: valuesMap where
  "exampleValues = namedMetrics
     [(''A'', [Some (mkSeries ''A'' [Fin 4, Fin 6, Fin 1, Fin 5] [False, False, False, True])]),
      (''B'', [Some (mkSeries ''B'' [Fin 2, Fin 0, Fin 3, Fin 1] [False, False, True, False])]),
      (''C'', [Some (mkSeries ''C1'' [Fin 1] [False]), Some (mkSeries ''C2'' [Fin 2] [False])]),
      (''D'', [Some (mkSeries ''D'' [Fin 1, Fin 2] [False, False])])]"

definition infValues :: valuesMap where
  "infValues = namedMetrics
     [(''P'', [Some (mkSeries ''P'' [PInf] [False])]),
      (''Q'', [Some (mkSeries ''Q'' [NInf] [False])])]"

definition filterValues :: valuesMap where
  "filterValues = namedMetrics
     [(''Z'', [Some (mkSeries ''Z1'' [Fin 2] [False]),
               Some (mkSeries ''Z2'' [Fin 1] [True]),
               Some (mkSeries ''Z3'' [Fin 3] [False])])]"

definition gapValues :: valuesMap where
  "gapValues = namedMetrics [(''G'', [Some (mkSeries ''G'' [Fin 5, Fin (- 1)] [True, False])])]"

definition stringE :: "string \<Rightarrow> expr" where
  "stringE s = Expr [] etString (Fin 0) s [] []"

definition bigValues :: valuesMap where
  "bigValues = namedMetrics
     [(''W'', [Some (mkSeries ''W'' [Fin 10000000000000000, Fin 1] [False, False])])]"

section \<open>Properties of the planner\<close>

lemma foldl_append_concat: "foldl (\<lambda>r a. r @ f a) acc xs = acc @ concat (map f xs)"
  by (induction xs arbitrary: acc) simp_all

text \<open>The requests collected from the arguments of a call, in argument order.\<close>

definition collected :: "(string \<Rightarrow> int \<Rightarrow> 'e + int32) \<Rightarrow> expr list \<Rightarrow> metricRequest list" where
  "collected iS as = concat (map (metrics iS) as)"

text \<open>
  C1.  The planner yields the single request \<open>{metric: target, from: 0, until: 0}\<close> for
  a Name and nothing for a Const or a String.  For a Func it collects the requests of
  all arguments; under \<open>timeShift\<close>, when the interval of argument 1 parses (default
  sign \<open>-1\<close>) to \<open>offs\<close>, every collected request has \<open>offs\<close> added to its from and its
  until; under \<open>holtWintersForecast\<close> every collected request has \<open>7 * 86400\<close>
  subtracted from its from and its until untouched; every other target returns the
  collected requests unchanged.
\<close>

theorem C1_metrics_planner:
  "metrics iS (Expr tg etName v vs as astr) = [\<lparr>metric = tg, from' = 0, until' = 0\<rparr>]
   \<and> metrics iS (Expr tg etConst v vs as astr) = []
   \<and> metrics iS (Expr tg etString v vs as astr) = []
   \<and> (getIntervalArg iS (Expr ''timeShift'' etFunc v vs as astr) 1 (- 1) = Inr offs \<longrightarrow>
        metrics iS (Expr ''timeShift'' etFunc v vs as astr) =
          map (\<lambda>q. \<lparr>metric = metric q, from' = from' q + offs, until' = until' q + offs\<rparr>)
              (collected iS as))
   \<and> metrics iS (Expr ''holtWintersForecast'' etFunc v vs as astr) =
          map (\<lambda>q. \<lparr>metric = metric q, from' = from' q - 604800, until' = until' q\<rparr>)
              (collected iS as)
   \<and> (tg \<noteq> ''timeShift'' \<and> tg \<noteq> ''holtWintersForecast'' \<longrightarrow>
        metrics iS (Expr tg etFunc v vs as astr) = collected iS as)"
  by (simp add: foldl_append_concat collected_def shiftRequest_def warmupRequest_def)

theorem C1_metrics_planner_witness:
  "getIntervalArg hourInterval
      (Expr ''timeShift'' etFunc (Fin 0) []
         [Expr ''foo'' etName (Fin 0) [] [] [], Expr [] etString (Fin 0) ''1h'' [] []] []) 1 (- 1)
     = Inr (- 3600)
   \<and> metrics hourInterval
      (Expr ''timeShift'' etFunc (Fin 0) []
         [Expr ''foo'' etName (Fin 0) [] [] [], Expr [] etString (Fin 0) ''1h'' [] []] [])
     = [\<lparr>metric = ''foo'', from' = - 3600, until' = - 3600\<rparr>]
   \<and> ''sumSeries'' \<noteq> ''timeShift'' \<and> ''sumSeries'' \<noteq> ''holtWintersForecast''
   \<and> metrics hourInterval
      (Expr ''sumSeries'' etFunc (Fin 0) []
         [Expr ''foo'' etName (Fin 0) [] [] [], Expr [] etString (Fin 0) ''1h'' [] []] [])
     = [\<lparr>metric = ''foo'', from' = 0, until' = 0\<rparr>]"
  using C1_metrics_planner [of hourInterval "''sumSeries''" "Fin 0" "[]"
      "[Expr ''foo'' etName (Fin 0) [] [] [], Expr [] etString (Fin 0) ''1h'' [] []]" "[]" "- 3600"]
  by (simp add: getIntervalArg_def hourInterval_def collected_def)

text \<open>
  C10.  Under \<open>timeShift\<close>, when argument 1 is missing, is not a string literal, or
  its literal is rejected by the interval parser, the planner returns the empty list:
  the requests collected from the arguments are dropped, not emitted unshifted.
\<close>

theorem C10_timeShift_bad_interval:
  "(length as \<le> 1 \<or> etype (as ! 1) \<noteq> etString \<or> (\<exists>err. iS (valStr (as ! 1)) (- 1) = Inl err))
   \<longrightarrow> metrics iS (Expr ''timeShift'' etFunc v vs as astr) = []"
  by (auto simp: getIntervalArg_def)

theorem C10_timeShift_bad_interval_witness:
  "hourInterval (valStr ([Expr ''foo'' etName (Fin 0) [] [] [], Expr [] etString (Fin 0) ''abc'' [] []] ! 1)) (- 1)
     = Inl ()
   \<and> collected hourInterval [Expr ''foo'' etName (Fin 0) [] [] [], Expr [] etString (Fin 0) ''abc'' [] []]
     = [\<lparr>metric = ''foo'', from' = 0, until' = 0\<rparr>]
   \<and> metrics hourInterval
      (Expr ''timeShift'' etFunc (Fin 0) []
         [Expr ''foo'' etName (Fin 0) [] [] [], Expr [] etString (Fin 0) ''abc'' [] []] [])
     = []"
  using C10_timeShift_bad_interval [of
      "[Expr ''foo'' etName (Fin 0) [] [] [], Expr [] etString (Fin 0) ''abc'' [] []]" hourInterval
      "Fin 0" "[]" "[]"]
  by (simp add: hourInterval_def collected_def)

section \<open>Facts about the float model and loops\<close>

lemma rne_of_int: "rne (of_int k) = k"
  by (simp add: rne_def Let_def)

lemma bitlen_le_53:
  assumes "0 < n" "n < 2 ^ 53"
  shows "bitlen n \<le> 53" and "1 \<le> bitlen n"
proof -
  have b: "2 ^ nat (bitlen n - 1) \<le> n" using bitlen_bounds [OF assms(1)] by simp
  show "1 \<le> bitlen n" using assms(1) by (simp add: bitlen_def floorlog_def)
  have "(2::int) ^ nat (bitlen n - 1) < 2 ^ 53" using b assms(2) by linarith
  then have "nat (bitlen n - 1) < 53"
    using power_strict_increasing_iff [of "2::int" "nat (bitlen n - 1)" 53] by fastforce
  then show "bitlen n \<le> 53" by linarith
qed

lemma round64_abs_int:
  assumes "0 < n" "n < 2 ^ 53" "\<bar>x\<bar> = of_int n"
  shows "round64 x = Fin x"
proof -
  define e where "e = bitlen n - 1"
  have e: "0 \<le> e" "e \<le> 52" using bitlen_le_53 [OF assms(1,2)] by (simp_all add: e_def)
  have il: "ilog2 (of_int n) = e" using assms(1) by (simp add: ilog2_def e_def)
  define k where "k = nat (52 - e)"
  have q: "max e (- 1022) - 52 = - int k" using e by (simp add: k_def)
  have p: "pow2 (- int k) = 1 / 2 ^ k" by (cases k) (simp_all add: pow2_def nat_add_distrib)
  have d: "(of_int n :: rat) / pow2 (- int k) = of_int (n * 2 ^ k)" by (simp add: p)
  have big: "(of_int n :: rat) < pow2 1024"
  proof -
    have "n < 2 ^ 1024" using assms(2) by (rule less_trans) simp
    then have "(of_int n :: rat) < of_int (2 ^ 1024)" by (simp only: of_int_less_iff)
    then show ?thesis by (simp add: pow2_def)
  qed
  have v: "(of_int (n * 2 ^ k) :: rat) * pow2 (- int k) = of_int n" by (simp add: p)
  have nz: "n * 2 ^ k \<noteq> 0" using assms(1) by simp
  have x0: "x \<noteq> 0" using assms(1,3) by auto
  have xs: "(if x < 0 then - (of_int n :: rat) else of_int n) = x" using assms(3) by auto
  show ?thesis
    unfolding round64_def assms(3) il q Let_def d rne_of_int v
    using x0 big nz xs by (simp add: not_le)
qed

lemma round64_Ints: "r \<in> \<int> \<Longrightarrow> \<bar>r\<bar> < 2 ^ 53 \<Longrightarrow> round64 r = Fin r"
proof -
  assume r: "r \<in> \<int>" and b: "\<bar>r\<bar> < 2 ^ 53"
  from r obtain z where z: "r = of_int z" by (auto elim: Ints_cases)
  show ?thesis
  proof (cases "z = 0")
    case True
    then show ?thesis by (simp add: z round64_def)
  next
    case False
    have "(of_int \<bar>z\<bar> :: rat) < of_int (2 ^ 53)" using b by (simp add: z)
    then have lt: "\<bar>z\<bar> < 2 ^ 53" by (simp only: of_int_less_iff)
    have pos: "0 < \<bar>z\<bar>" using False by simp
    have "\<bar>r\<bar> = of_int \<bar>z\<bar>" by (simp add: z)
    with pos lt show ?thesis by (rule round64_abs_int)
  qed
qed

lemma isNaN_iff: "isNaN x \<longleftrightarrow> x = NaN"
  by (cases x) (simp_all add: isNaN_def feq_def)

lemma forRange_total:
  assumes "P 0 s"
    and "\<And>j s. j < length xs \<Longrightarrow> P j s \<Longrightarrow> \<exists>s'. body (i + j) (xs ! j) s = Return s' \<and> P (Suc j) s'"
  shows "\<exists>s'. forRange i xs body s = Return s' \<and> P (length xs) s'"
  using assms
proof (induction xs arbitrary: i s P)
  case Nil
  then show ?case by simp
next
  case (Cons x xs)
  from Cons.prems(2) [of 0 s] Cons.prems(1)
  obtain s1 where s1: "body i x s = Return s1" "P (Suc 0) s1" by auto
  have "\<exists>s'. forRange (Suc i) xs body s1 = Return s' \<and> (\<lambda>j. P (Suc j)) (length xs) s'"
  proof (rule Cons.IH)
    show "P (Suc 0) s1" by (rule s1(2))
  next
    fix j s assume "j < length xs" "P (Suc j) s"
    then show "\<exists>s'. body (Suc i + j) (xs ! j) s = Return s' \<and> P (Suc (Suc j)) s'"
      using Cons.prems(2) [of "Suc j" s] by simp
  qed
  then show ?case using s1(1) by simp
qed

lemma forRange_partial:
  assumes "forRange i xs body s = Return s'" and "P 0 s"
    and "\<And>j s s'. j < length xs \<Longrightarrow> P j s \<Longrightarrow> body (i + j) (xs ! j) s = Return s' \<Longrightarrow> P (Suc j) s'"
  shows "P (length xs) s'"
  using assms
proof (induction xs arbitrary: i s P)
  case Nil
  then show ?case by simp
next
  case (Cons x xs)
  from Cons.prems(1) obtain s1 where s1: "body i x s = Return s1"
    and rest: "forRange (Suc i) xs body s1 = Return s'"
    by (cases "body i x s") simp_all
  have p1: "P (Suc 0) s1" using Cons.prems(3) [of 0 s s1] Cons.prems(2) s1 by simp
  have "(\<lambda>j. P (Suc j)) (length xs) s'"
  proof (rule Cons.IH [OF rest])
    show "P (Suc 0) s1" by (rule p1)
  next
    fix j s s'' assume "j < length xs" "P (Suc j) s" "body (Suc i + j) (xs ! j) s = Return s''"
    then show "P (Suc (Suc j)) s''"
      using Cons.prems(3) [of "Suc j" s s''] by simp
  qed
  then show ?case by simp
qed

lemma forRange_collect:
  assumes "\<And>p. p \<in> set xs \<Longrightarrow> f p = Return (h p)"
  shows "forRange i xs (\<lambda>_ p results. obind (f p) (\<lambda>r. Return (results @ [g r]))) acc
         = Return (acc @ map (\<lambda>p. g (h p)) xs)"
  using assms by (induction xs arbitrary: i acc) simp_all

lemma obind_Return_iff: "obind m f = Return y \<longleftrightarrow> (\<exists>x. m = Return x \<and> f x = Return y)"
  by (cases m) simp_all

section \<open>Properties of the evaluator\<close>

text \<open>
  C8.  A Func expression without arguments evaluates to the empty list, whatever its
  target, and so does a Func expression whose target is none of the case labels of
  \<^verbatim>\<open>evalExpr\<close>, whatever its arguments.  In both cases the evaluation returns (it
  is \<open>Return []\<close>, not \<open>Panic\<close>) and the list holds no series.
\<close>

theorem C8_empty_results:
  "evalExpr ext iS (Expr tg etFunc v vs [] astr) from until values = Return []
   \<and> (tg \<notin> set knownFunctions \<longrightarrow>
        evalExpr ext iS (Expr tg etFunc v vs as astr) from until values = Return [])"
  by (simp add: evalExpr.simps knownFunctions_def Let_def)

theorem C8_empty_results_witness:
  "''frobnicate'' \<notin> set knownFunctions
   \<and> evalExpr noExt hourInterval (funcE ''frobnicate'' [nameE ''A''] ''A'') 0 300
        (oneMetric ''A'' [Some (mkSeries ''A'' [Fin 1] [False])]) = Return []
   \<and> evalExpr noExt hourInterval (funcE ''sumSeries'' [] []) 0 300
        (oneMetric ''A'' [Some (mkSeries ''A'' [Fin 1] [False])]) = Return []"
  using C8_empty_results [of noExt hourInterval "''frobnicate''" "Fin 0" "[]" "''A''" 0 300
      "oneMetric ''A'' [Some (mkSeries ''A'' [Fin 1] [False])]" "[nameE ''A'']"]
    C8_empty_results [of noExt hourInterval "''sumSeries''" "Fin 0" "[]" "[]" 0 300
      "oneMetric ''A'' [Some (mkSeries ''A'' [Fin 1] [False])]" "[nameE ''A'']"]
  by (simp add: knownFunctions_def otherFunctions_def funcE_def)

lemma forRange_collect_ex:
  assumes "\<And>p. p \<in> set xs \<Longrightarrow> \<exists>r. f p = Return r \<and> Q p r"
  shows "\<exists>rs. forRange i xs (\<lambda>_ p results. obind (f p) (\<lambda>r. Return (results @ [g r]))) acc
              = Return (acc @ map g rs) \<and> list_all2 Q xs rs"
  using assms
proof (induction xs arbitrary: i acc)
  case Nil
  then show ?case by simp
next
  case (Cons x xs)
  from Cons.prems [of x] obtain r where r: "f x = Return r" "Q x r" by auto
  from Cons.IH [of "Suc i" "acc @ [g r]"] Cons.prems
  obtain rs where rs: "forRange (Suc i) xs (\<lambda>_ p results. obind (f p) (\<lambda>r. Return (results @ [g r]))) (acc @ [g r])
              = Return ((acc @ [g r]) @ map g rs)" "list_all2 Q xs rs" by auto
  show ?case
    by (rule exI [of _ "r # rs"]) (simp add: r rs)
qed

lemma Push_total:
  assumes "head w < length (data w)"
  shows "\<exists>w'. Push w x = Return w' \<and> length (data w') = length (data w) \<and> head w' < length (data w')"
  using assms by (auto simp: Push_def elemAt_def Let_def)

lemma movingAverageSeries_total:
  assumes n: "0 < n" and nmax: "n \<le> maxSliceLen"
    and wf: "length (Values a) \<le> length (IsAbsent a)"
  shows "\<exists>r. movingAverageSeries from until n (Some a) = Return r
           \<and> length (Values r) = length (Values a) \<and> length (IsAbsent r) = length (Values a)
           \<and> (\<forall>i<length (Values a). int i < n \<longrightarrow> IsAbsent r ! i \<and> Values r ! i = Fin 0)"
proof -
  define N where "N = length (Values a)"
  define P where "P = (\<lambda>j (rw :: metricData \<times> Windowed).
      length (Values (fst rw)) = N \<and> length (IsAbsent (fst rw)) = N
      \<and> length (data (snd rw)) = nat n \<and> head (snd rw) < nat n
      \<and> (\<forall>i<j. int i < n \<longrightarrow> IsAbsent (fst rw) ! i \<and> Values (fst rw) ! i = Fin 0))"
  define body where "body = (\<lambda>i v (rw :: metricData \<times> Windowed). case rw of (r, w) \<Rightarrow>
      obind (elemAt (IsAbsent a) i) (\<lambda>ab.
        let v = (if ab then NaN else v);
            r = r\<lparr>Values := (Values r)[i := Mean w]\<rparr>
        in obind (Push w v) (\<lambda>w.
             if int i < n \<or> isNaN (Values r ! i)
             then Return (r\<lparr>Values := (Values r)[i := Fin 0],
                            IsAbsent := (IsAbsent r)[i := True]\<rparr>, w)
             else Return (r, w))))"
  define r0 where "r0 = a\<lparr>Name := Some (''movingAverage('' @ GetName a @ '','' @ showInt n @ '')''),
                  Values := replicate (length (Values a)) (Fin 0),
                  IsAbsent := replicate (length (Values a)) False,
                  StartTime := Some from,
                  StopTime := Some until\<rparr>"
  define w0 where "w0 = \<lparr>data = replicate (nat n) (Fin 0), head = 0, length' = 0, sum' = Fin 0,
                         sumsq = Fin 0, nans = 0\<rparr>"
  have init: "P 0 (r0, w0)" using n by (simp add: P_def r0_def w0_def N_def)
  have step: "\<exists>s'. body (0 + j) (Values a ! j) s = Return s' \<and> P (Suc j) s'"
    if j: "j < length (Values a)" and p: "P j s" for j s
  proof -
    obtain r w where s: "s = (r, w)" by (cases s)
    from p have inv: "length (Values r) = N" "length (IsAbsent r) = N" "length (data w) = nat n"
      "head w < nat n" "\<forall>i<j. int i < n \<longrightarrow> IsAbsent r ! i \<and> Values r ! i = Fin 0"
      by (simp_all add: P_def s)
    have ab: "elemAt (IsAbsent a) j = Return (IsAbsent a ! j)" using j wf by (simp add: elemAt_def)
    have "head w < length (data w)" using inv(3,4) by simp
    from Push_total [OF this, of "if IsAbsent a ! j then NaN else Values a ! j"]
    obtain w' where w': "Push w (if IsAbsent a ! j then NaN else Values a ! j) = Return w'"
      "length (data w') = length (data w)" "head w' < length (data w')"
      by blast
    have jN: "j < N" using j by (simp add: N_def)
    show ?thesis
      using inv w' jN
      by (auto simp: body_def s ab Let_def P_def less_Suc_eq nth_list_update)
  qed
  from forRange_total [of P "(r0, w0)" "Values a" body 0, OF init step]
  obtain s' where s': "forRange 0 (Values a) body (r0, w0) = Return s'" "P (length (Values a)) s'"
    by auto
  obtain r w where rw: "s' = (r, w)" by (cases s')
  have "movingAverageSeries from until n (Some a) = Return r"
    using n nmax s'(1) unfolding movingAverageSeries_def makeSlice_def deref_def body_def r0_def w0_def rw
    by (simp add: Let_def split_def)
  moreover have "length (Values r) = N \<and> length (IsAbsent r) = N
      \<and> (\<forall>i<length (Values a). int i < n \<longrightarrow> IsAbsent r ! i \<and> Values r ! i = Fin 0)"
    using s'(2) by (simp add: P_def rw)
  ultimately show ?thesis by (auto simp: N_def)
qed


lemmas run_simps = evalExpr.simps nameE_def constE_def funcE_def oneMetric_def mkSeries_def
  lookup_def getSeriesArg_def orNil_def elemAt_def deref_def GetName_def Let_def

lemmas float_simps = isNaN_iff fadd_def fsub_def fmul_def fdiv_def float64_of_int_def
  round64_Ints signedZero_def signedInf_def

text \<open>
  C7.  \<open>movingAverage(A, 3)\<close> over the one series \<open>A\<close> with values \<open>1, 2, 3, 4, 5\<close>,
  none absent, returns one series whose first three samples are absent and whose fourth
  and fifth values are \<open>2\<close> and \<open>3\<close>.  In general, let the window be given as a
  constant (its integer part is the sample count \<open>w\<close>) or as an interval string (the
  parsed seconds divided by the step time of the first input series, which must not be
  \<open>0\<close>, is \<open>w\<close>), let \<open>w\<close> be positive and within what \<^verbatim>\<open>make\<close> allocates, and let the
  input series be not nil with an absence flag for every value.  Then the evaluation
  returns one series per input series, of the same length, in which every sample at an
  index below \<open>w\<close> is absent: nothing is emitted before the window is full.
\<close>

theorem C7_movingAverage:
  "evalExpr noExt hourInterval (funcE ''movingAverage'' [nameE ''A'', constE (Fin 3)] ''A,3'') 0 300
      (oneMetric ''A'' [Some (mkSeries ''A'' [Fin 1, Fin 2, Fin 3, Fin 4, Fin 5]
                                         [False, False, False, False, False])])
     = Return [Some \<lparr>Name = Some ''movingAverage(A,3)'', StartTime = Some 0, StopTime = Some 300,
                      StepTime = Some 60, Values = [Fin 0, Fin 0, Fin 0, Fin 2, Fin 3],
                      IsAbsent = [True, True, True, False, False], color = [], dashed = False,
                      drawAsInfinite = False, secondYAxis = False\<rparr>]
   \<and> ((etype x = etName \<or> etype x = etFunc)
        \<and> evalExpr ext iS x from until values = Return arg
        \<and> (\<forall>p\<in>set arg. \<exists>a. p = Some a \<and> length (Values a) \<le> length (IsAbsent a))
        \<and> ((etype c = etConst \<and> w = int_of_float64 (val c))
             \<or> (etype c = etString \<and> iS (valStr c) 1 = Inr n32
                 \<and> (arg = [] \<or> (\<exists>rest. arg = Some a0 # rest) \<and> sint (GetStepTime a0) \<noteq> 0
                        \<and> w = quo (sint n32) (sint (GetStepTime a0)))))
        \<and> 0 < w \<and> w \<le> maxSliceLen
       \<longrightarrow> (\<exists>res. evalExpr ext iS (Expr ''movingAverage'' etFunc v vs [x, c] astr) from until values
                     = Return res
                 \<and> list_all2 (\<lambda>p q. \<exists>a r. p = Some a \<and> q = Some r
                        \<and> length (Values r) = length (Values a)
                        \<and> length (IsAbsent r) = length (Values a)
                        \<and> (\<forall>i<length (Values a). int i < w \<longrightarrow> IsAbsent r ! i))
                      arg res))"
proof (intro conjI impI)
  show "evalExpr noExt hourInterval (funcE ''movingAverage'' [nameE ''A'', constE (Fin 3)] ''A,3'') 0 300
      (oneMetric ''A'' [Some (mkSeries ''A'' [Fin 1, Fin 2, Fin 3, Fin 4, Fin 5]
                                         [False, False, False, False, False])])
     = Return [Some \<lparr>Name = Some ''movingAverage(A,3)'', StartTime = Some 0, StopTime = Some 300,
                      StepTime = Some 60, Values = [Fin 0, Fin 0, Fin 0, Fin 2, Fin 3],
                      IsAbsent = [True, True, True, False, False], color = [], dashed = False,
                      drawAsInfinite = False, secondYAxis = False\<rparr>]"
    by (simp add: run_simps float_simps windowArg_def getIntArg_def int_of_float64_def
        movingAverage_def movingAverageSeries_def makeSlice_def maxSliceLen_def showInt_def
        showNat.simps Mean_def Push_def Len_def)
next
  define Q where "Q = (\<lambda>(p :: series) (r :: metricData). \<exists>a. p = Some a
                        \<and> length (Values r) = length (Values a)
                        \<and> length (IsAbsent r) = length (Values a)
                        \<and> (\<forall>i<length (Values a). int i < w \<longrightarrow> IsAbsent r ! i))"
  assume h: "(etype x = etName \<or> etype x = etFunc)
        \<and> evalExpr ext iS x from until values = Return arg
        \<and> (\<forall>p\<in>set arg. \<exists>a. p = Some a \<and> length (Values a) \<le> length (IsAbsent a))
        \<and> ((etype c = etConst \<and> w = int_of_float64 (val c))
             \<or> (etype c = etString \<and> iS (valStr c) 1 = Inr n32
                 \<and> (arg = [] \<or> (\<exists>rest. arg = Some a0 # rest) \<and> sint (GetStepTime a0) \<noteq> 0
                        \<and> w = quo (sint n32) (sint (GetStepTime a0)))))
        \<and> 0 < w \<and> w \<le> maxSliceLen"
  from h have ty: "etype x = etName \<or> etype x = etFunc" by (elim conjE)
  from h have ev: "evalExpr ext iS x from until values = Return arg" by (elim conjE)
  from h have wf: "\<forall>p\<in>set arg. \<exists>a. p = Some a \<and> length (Values a) \<le> length (IsAbsent a)"
    by (elim conjE)
  from h have win: "(etype c = etConst \<and> w = int_of_float64 (val c))
             \<or> (etype c = etString \<and> iS (valStr c) 1 = Inr n32
                 \<and> (arg = [] \<or> (\<exists>rest. arg = Some a0 # rest) \<and> sint (GetStepTime a0) \<noteq> 0
                        \<and> w = quo (sint n32) (sint (GetStepTime a0))))"
    by (elim conjE)
  from h have w0: "0 < w" by (elim conjE)
  from h have w1: "w \<le> maxSliceLen" by (elim conjE)
  note w = w0 w1
  have each: "\<exists>r. movingAverageSeries from until w p = Return r \<and> Q p r" if "p \<in> set arg" for p
  proof -
    from wf that obtain a where a: "p = Some a" "length (Values a) \<le> length (IsAbsent a)" by blast
    from movingAverageSeries_total [OF w a(2), of "from" until] show ?thesis
      unfolding Q_def a(1) by blast
  qed
  from forRange_collect_ex [of arg "movingAverageSeries from until w" Q 0 Some "[]", OF each]
  obtain rs where rs: "forRange 0 arg
       (\<lambda>_ p results. obind (movingAverageSeries from until w p) (\<lambda>r. Return (results @ [Some r]))) []
       = Return (map Some rs)" "list_all2 Q arg rs"
    by auto
  have ga: "getSeriesArg (\<lambda>a. evalExpr ext iS a from until values) x
      = (if arg = [] then Return (Inl ErrMissingTimeseries) else Return (Inr arg))"
    using ty ev by (auto simp: getSeriesArg_def)
  have unf: "evalExpr ext iS (Expr ''movingAverage'' etFunc v vs [x, c] astr) from until values
      = obind (windowArg iS (Expr ''movingAverage'' etFunc v vs [x, c] astr)) (\<lambda>res.
          orNil res (\<lambda>(n, scaleByStep).
            obind (getSeriesArg (\<lambda>a. evalExpr ext iS a from until values) x) (\<lambda>res.
              orNil res (\<lambda>arg. movingAverage from until n scaleByStep arg))))"
    by (simp add: evalExpr.simps [of ext iS "''movingAverage''"] Let_def)
  from win consider (const) "etype c = etConst" "w = int_of_float64 (val c)"
    | (empty) "etype c = etString" "iS (valStr c) 1 = Inr n32" "arg = []"
    | (scaled) rest where "etype c = etString" "iS (valStr c) 1 = Inr n32"
        "arg = Some a0 # rest" "sint (GetStepTime a0) \<noteq> 0"
        "w = quo (sint n32) (sint (GetStepTime a0))"
    by blast
  then have res: "evalExpr ext iS (Expr ''movingAverage'' etFunc v vs [x, c] astr) from until values
      = (if arg = [] then Return [] else Return (map Some rs))"
  proof cases
    case const
    have wa: "windowArg iS (Expr ''movingAverage'' etFunc v vs [x, c] astr) = Return (Inr (w, False))"
      using const by (simp add: windowArg_def elemAt_def getIntArg_def)
    show ?thesis
      unfolding unf wa using rs(1) by (simp add: orNil_def ga movingAverage_def)
  next
    case empty
    have wa: "windowArg iS (Expr ''movingAverage'' etFunc v vs [x, c] astr)
        = Return (Inr (sint n32, True))"
      using empty by (simp add: windowArg_def elemAt_def getIntervalArg_def)
    show ?thesis unfolding unf wa using empty(3) by (simp add: orNil_def ga)
  next
    case scaled
    have wa: "windowArg iS (Expr ''movingAverage'' etFunc v vs [x, c] astr)
        = Return (Inr (sint n32, True))"
      using scaled by (simp add: windowArg_def elemAt_def getIntervalArg_def)
    have "movingAverage from until (sint n32) True arg = Return (map Some rs)"
      using rs(1) scaled(4,5) by (simp add: movingAverage_def scaled(3) elemAt_def deref_def)
    then show ?thesis unfolding unf wa using scaled(3) by (simp add: orNil_def ga)
  qed
  have l2: "list_all2 (\<lambda>p q. \<exists>a r. p = Some a \<and> q = Some r
                        \<and> length (Values r) = length (Values a)
                        \<and> length (IsAbsent r) = length (Values a)
                        \<and> (\<forall>i<length (Values a). int i < w \<longrightarrow> IsAbsent r ! i))
                      arg (map Some rs)"
    using rs(2) by (auto simp: list_all2_conv_all_nth Q_def)
  show "\<exists>res. evalExpr ext iS (Expr ''movingAverage'' etFunc v vs [x, c] astr) from until values
                     = Return res
                 \<and> list_all2 (\<lambda>p q. \<exists>a r. p = Some a \<and> q = Some r
                        \<and> length (Values r) = length (Values a)
                        \<and> length (IsAbsent r) = length (Values a)
                        \<and> (\<forall>i<length (Values a). int i < w \<longrightarrow> IsAbsent r ! i))
                      arg res"
  proof (cases "arg = []")
    case True
    then show ?thesis using res by simp
  next
    case False
    then show ?thesis using res l2 by auto
  qed
qed

theorem C7_movingAverage_witness:
  "(etype (nameE ''A'') = etName \<or> etype (nameE ''A'') = etFunc)
   \<and> evalExpr noExt hourInterval (nameE ''A'') 0 300 (oneMetric ''A'' [Some (mkSeries ''A'' [Fin 1, Fin 2] [False, False])])
       = Return [Some (mkSeries ''A'' [Fin 1, Fin 2] [False, False])]
   \<and> length (Values (mkSeries ''A'' [Fin 1, Fin 2] [False, False])) \<le> length (IsAbsent (mkSeries ''A'' [Fin 1, Fin 2] [False, False]))
   \<and> etype (stringE ''1h'') = etString
   \<and> hourInterval (valStr (stringE ''1h'')) 1 = Inr 3600
   \<and> sint (GetStepTime (mkSeries ''A'' [Fin 1, Fin 2] [False, False])) \<noteq> 0
   \<and> quo (sint (3600 :: int32)) (sint (GetStepTime (mkSeries ''A'' [Fin 1, Fin 2] [False, False]))) = 60
   \<and> (0 :: int) < 60 \<and> 60 \<le> maxSliceLen
   \<and> (\<exists>res. evalExpr noExt hourInterval
               (Expr ''movingAverage'' etFunc (Fin 0) [] [nameE ''A'', stringE ''1h''] ''A,1h'') 0 300
               (oneMetric ''A'' [Some (mkSeries ''A'' [Fin 1, Fin 2] [False, False])])
             = Return res
          \<and> list_all2 (\<lambda>p q. \<exists>a r. p = Some a \<and> q = Some r
                 \<and> length (Values r) = length (Values a)
                 \<and> length (IsAbsent r) = length (Values a)
                 \<and> (\<forall>i<length (Values a). int i < 60 \<longrightarrow> IsAbsent r ! i))
               [Some (mkSeries ''A'' [Fin 1, Fin 2] [False, False])] res)"
proof -
  have 1: "etype (nameE ''A'') = etName \<or> etype (nameE ''A'') = etFunc" by (simp add: nameE_def)
  have 2: "evalExpr noExt hourInterval (nameE ''A'') 0 300 (oneMetric ''A'' [Some (mkSeries ''A'' [Fin 1, Fin 2] [False, False])])
       = Return [Some (mkSeries ''A'' [Fin 1, Fin 2] [False, False])]"
    by (simp add: evalExpr.simps nameE_def oneMetric_def lookup_def)
  have 3: "length (Values (mkSeries ''A'' [Fin 1, Fin 2] [False, False])) \<le> length (IsAbsent (mkSeries ''A'' [Fin 1, Fin 2] [False, False]))"
    by (simp add: mkSeries_def)
  have 4: "etype (stringE ''1h'') = etString" by (simp add: stringE_def)
  have 5: "hourInterval (valStr (stringE ''1h'')) 1 = Inr 3600"
    by (simp add: hourInterval_def stringE_def)
  have 6: "sint (GetStepTime (mkSeries ''A'' [Fin 1, Fin 2] [False, False])) = 60"
    by (simp add: GetStepTime_def mkSeries_def)
  have 7: "quo (sint (3600 :: int32)) (sint (GetStepTime (mkSeries ''A'' [Fin 1, Fin 2] [False, False]))) = 60"
    unfolding 6 by (simp add: quo_def)
  have 8: "(0 :: int) < 60" "60 \<le> maxSliceLen" by (simp_all add: maxSliceLen_def)
  have wf: "\<forall>p\<in>set [Some (mkSeries ''A'' [Fin 1, Fin 2] [False, False])]. \<exists>a. p = Some a \<and> length (Values a) \<le> length (IsAbsent a)"
    using 3 by simp
  from C7_movingAverage [of "nameE ''A''" noExt hourInterval 0 300
      "oneMetric ''A'' [Some (mkSeries ''A'' [Fin 1, Fin 2] [False, False])]"
      "[Some (mkSeries ''A'' [Fin 1, Fin 2] [False, False])]" "stringE ''1h''" 60 3600 "mkSeries ''A'' [Fin 1, Fin 2] [False, False]" "Fin 0" "[]" "''A,1h''"]
    1 2 wf 4 5 6 7 8
  have "\<exists>res. evalExpr noExt hourInterval
               (Expr ''movingAverage'' etFunc (Fin 0) [] [nameE ''A'', stringE ''1h''] ''A,1h'') 0 300
               (oneMetric ''A'' [Some (mkSeries ''A'' [Fin 1, Fin 2] [False, False])])
             = Return res
          \<and> list_all2 (\<lambda>p q. \<exists>a r. p = Some a \<and> q = Some r
                 \<and> length (Values r) = length (Values a)
                 \<and> length (IsAbsent r) = length (Values a)
                 \<and> (\<forall>i<length (Values a). int i < 60 \<longrightarrow> IsAbsent r ! i))
               [Some (mkSeries ''A'' [Fin 1, Fin 2] [False, False])] res"
    by simp
  with 1 2 3 4 5 6 7 8 show ?thesis by simp
qed

definition divAbsent :: "metricData \<Rightarrow> metricData \<Rightarrow> nat \<Rightarrow> bool" where
  "divAbsent num den i \<longleftrightarrow> IsAbsent num ! i \<or> IsAbsent den ! i \<or> feq (Values den ! i) (Fin 0)"

lemma divideSeries_loop:
  fixes num den r0 :: metricData
  assumes len: "length (Values num) = length (Values den)"
    and wfn: "length (Values num) \<le> length (IsAbsent num)"
    and wfd: "length (Values den) \<le> length (IsAbsent den)"
    and r0: "Values r0 = replicate (length (Values num)) (Fin 0)"
            "IsAbsent r0 = replicate (length (Values num)) False"
  shows "\<exists>r. forRange 0 (Values num)
             (\<lambda>i v r.
                obind (elemAt (IsAbsent num) i) (\<lambda>nab.
                  if nab then Return (r\<lparr>IsAbsent := (IsAbsent r)[i := True]\<rparr>)
                  else obind (elemAt (IsAbsent den) i) (\<lambda>dab.
                    if dab then Return (r\<lparr>IsAbsent := (IsAbsent r)[i := True]\<rparr>)
                    else obind (elemAt (Values den) i) (\<lambda>dv.
                      if feq dv (Fin 0)
                      then Return (r\<lparr>IsAbsent := (IsAbsent r)[i := True]\<rparr>)
                      else Return (r\<lparr>Values := (Values r)[i := fdiv v dv]\<rparr>)))))
             r0 = Return r
          \<and> length (Values r) = length (Values num) \<and> length (IsAbsent r) = length (Values num)
          \<and> (\<forall>i<length (Values num).
                (IsAbsent r ! i \<longleftrightarrow> divAbsent num den i)
                \<and> (\<not> divAbsent num den i \<longrightarrow> Values r ! i = fdiv (Values num ! i) (Values den ! i)))"
    (is "\<exists>r. forRange 0 _ ?body r0 = Return r \<and> ?post r")
proof -
  define N where "N = length (Values num)"
  define P where "P = (\<lambda>j (r :: metricData).
      length (Values r) = N \<and> length (IsAbsent r) = N
      \<and> (\<forall>i<j. (IsAbsent r ! i \<longleftrightarrow> divAbsent num den i)
                \<and> (\<not> divAbsent num den i \<longrightarrow> Values r ! i = fdiv (Values num ! i) (Values den ! i)))
      \<and> (\<forall>i. j \<le> i \<and> i < N \<longrightarrow> \<not> IsAbsent r ! i))"
  have init: "P 0 r0" by (simp add: P_def r0 N_def)
  have step: "\<exists>s'. ?body (0 + j) (Values num ! j) s = Return s' \<and> P (Suc j) s'"
    if j: "j < length (Values num)" and p: "P j s" for j s
  proof -
    have e: "elemAt (IsAbsent num) j = Return (IsAbsent num ! j)"
      "elemAt (IsAbsent den) j = Return (IsAbsent den ! j)"
      "elemAt (Values den) j = Return (Values den ! j)"
      using j len wfn wfd by (simp_all add: elemAt_def)
    have jN: "j < N" using j by (simp add: N_def)
    from p jN show ?thesis
      by (auto simp: e P_def divAbsent_def less_Suc_eq nth_list_update)
  qed
  from forRange_total [of P r0 "Values num" ?body 0, OF init step]
  obtain r where "forRange 0 (Values num) ?body r0 = Return r" "P (length (Values num)) r"
    by auto
  then show ?thesis by (intro exI [of _ r]) (simp add: P_def N_def)
qed


lemmas eval_arg_simps = evalExpr.simps getSeriesArg_def orNil_def elemAt_def deref_def Let_def

text \<open>
  C3.  \<open>divideSeries\<close> returns the empty list when it does not have exactly two
  arguments, when either argument evaluates to a list that is not of length one, and
  when the two series differ in step time or in the number of values.  When both
  arguments are names or calls that evaluate to one series each, with equal step time
  and equally many values (and an absence flag for every value), it returns one series
  of that length in which index \<open>i\<close> is absent exactly when the numerator is absent
  at \<open>i\<close>, the denominator is absent at \<open>i\<close> or the denominator's value at \<open>i\<close>
  equals \<open>0\<close>, and otherwise holds the numerator's value divided by the
  denominator's value.
\<close>

theorem C3_divideSeries:
  "(length as \<noteq> 2 \<longrightarrow>
      evalExpr ext iS (Expr ''divideSeries'' etFunc v vs as astr) from until values = Return [])
   \<and> (evalExpr ext iS x0 from until values = Return numerator
       \<and> evalExpr ext iS x1 from until values = Return denominator
       \<and> (length numerator \<noteq> 1 \<or> length denominator \<noteq> 1) \<longrightarrow>
      evalExpr ext iS (Expr ''divideSeries'' etFunc v vs [x0, x1] astr) from until values = Return [])
   \<and> (evalExpr ext iS x0 from until values = Return [Some num]
       \<and> evalExpr ext iS x1 from until values = Return [Some den]
       \<and> (GetStepTime num \<noteq> GetStepTime den \<or> length (Values num) \<noteq> length (Values den)) \<longrightarrow>
      evalExpr ext iS (Expr ''divideSeries'' etFunc v vs [x0, x1] astr) from until values = Return [])
   \<and> (evalExpr ext iS x0 from until values = Return [Some num]
       \<and> evalExpr ext iS x1 from until values = Return [Some den]
       \<and> (etype x0 = etName \<or> etype x0 = etFunc) \<and> (etype x1 = etName \<or> etype x1 = etFunc)
       \<and> GetStepTime num = GetStepTime den \<and> length (Values num) = length (Values den)
       \<and> length (Values num) \<le> length (IsAbsent num)
       \<and> length (Values den) \<le> length (IsAbsent den) \<longrightarrow>
      (\<exists>r. evalExpr ext iS (Expr ''divideSeries'' etFunc v vs [x0, x1] astr) from until values
              = Return [Some r]
          \<and> length (Values r) = length (Values num) \<and> length (IsAbsent r) = length (Values num)
          \<and> (\<forall>i<length (Values num).
                (IsAbsent r ! i \<longleftrightarrow>
                   IsAbsent num ! i \<or> IsAbsent den ! i \<or> feq (Values den ! i) (Fin 0))
                \<and> (\<not> IsAbsent r ! i \<longrightarrow>
                     Values r ! i = fdiv (Values num ! i) (Values den ! i)))))"
proof (intro conjI impI)
  assume "length as \<noteq> 2"
  then show "evalExpr ext iS (Expr ''divideSeries'' etFunc v vs as astr) from until values = Return []"
    by (simp add: evalExpr.simps Let_def)
next
  assume "evalExpr ext iS x0 from until values = Return numerator
       \<and> evalExpr ext iS x1 from until values = Return denominator
       \<and> (length numerator \<noteq> 1 \<or> length denominator \<noteq> 1)"
  then show "evalExpr ext iS (Expr ''divideSeries'' etFunc v vs [x0, x1] astr) from until values = Return []"
    by (auto simp: eval_arg_simps divideSeries_def)
next
  assume "evalExpr ext iS x0 from until values = Return [Some num]
       \<and> evalExpr ext iS x1 from until values = Return [Some den]
       \<and> (GetStepTime num \<noteq> GetStepTime den \<or> length (Values num) \<noteq> length (Values den))"
  then show "evalExpr ext iS (Expr ''divideSeries'' etFunc v vs [x0, x1] astr) from until values = Return []"
    by (auto simp: eval_arg_simps divideSeries_def)
next
  assume h: "evalExpr ext iS x0 from until values = Return [Some num]
       \<and> evalExpr ext iS x1 from until values = Return [Some den]
       \<and> (etype x0 = etName \<or> etype x0 = etFunc) \<and> (etype x1 = etName \<or> etype x1 = etFunc)
       \<and> GetStepTime num = GetStepTime den \<and> length (Values num) = length (Values den)
       \<and> length (Values num) \<le> length (IsAbsent num)
       \<and> length (Values den) \<le> length (IsAbsent den)"
  define r0 where "r0 = num\<lparr>Name := Some (''divideSeries('' @ astr @ '')''),
                           Values := replicate (length (Values num)) (Fin 0),
                           IsAbsent := replicate (length (Values num)) False\<rparr>"
  have "Values r0 = replicate (length (Values num)) (Fin 0)"
    "IsAbsent r0 = replicate (length (Values num)) False"
    by (simp_all add: r0_def)
  from divideSeries_loop [of num den r0, OF _ _ _ this] h
  obtain r where r: "forRange 0 (Values num)
             (\<lambda>i v r.
                obind (elemAt (IsAbsent num) i) (\<lambda>nab.
                  if nab then Return (r\<lparr>IsAbsent := (IsAbsent r)[i := True]\<rparr>)
                  else obind (elemAt (IsAbsent den) i) (\<lambda>dab.
                    if dab then Return (r\<lparr>IsAbsent := (IsAbsent r)[i := True]\<rparr>)
                    else obind (elemAt (Values den) i) (\<lambda>dv.
                      if feq dv (Fin 0)
                      then Return (r\<lparr>IsAbsent := (IsAbsent r)[i := True]\<rparr>)
                      else Return (r\<lparr>Values := (Values r)[i := fdiv v dv]\<rparr>)))))
             r0 = Return r"
      and post: "length (Values r) = length (Values num)" "length (IsAbsent r) = length (Values num)"
        "\<forall>i<length (Values num).
                (IsAbsent r ! i \<longleftrightarrow> divAbsent num den i)
                \<and> (\<not> divAbsent num den i \<longrightarrow> Values r ! i = fdiv (Values num ! i) (Values den ! i))"
    by blast
  have "divideSeries (Expr ''divideSeries'' etFunc v vs [x0, x1] astr) [Some num] [Some den]
          = Return [Some r]"
    using h r by (simp add: divideSeries_def elemAt_def deref_def Let_def r0_def)
  then have "evalExpr ext iS (Expr ''divideSeries'' etFunc v vs [x0, x1] astr) from until values
              = Return [Some r]"
    using h by (auto simp: eval_arg_simps)
  with post show "\<exists>r. evalExpr ext iS (Expr ''divideSeries'' etFunc v vs [x0, x1] astr) from until values
              = Return [Some r]
          \<and> length (Values r) = length (Values num) \<and> length (IsAbsent r) = length (Values num)
          \<and> (\<forall>i<length (Values num).
                (IsAbsent r ! i \<longleftrightarrow>
                   IsAbsent num ! i \<or> IsAbsent den ! i \<or> feq (Values den ! i) (Fin 0))
                \<and> (\<not> IsAbsent r ! i \<longrightarrow>
                     Values r ! i = fdiv (Values num ! i) (Values den ! i)))"
    by (intro exI [of _ r]) (simp add: divAbsent_def)
qed


theorem C3_divideSeries_witness:
  "length [nameE ''A''] \<noteq> 2
   \<and> evalExpr noExt hourInterval (Expr ''divideSeries'' etFunc (Fin 0) [] [nameE ''A''] ''A'')
        0 300 exampleValues = Return []
   \<and> evalExpr noExt hourInterval (nameE ''C'') 0 300 exampleValues
        = Return [Some (mkSeries ''C1'' [Fin 1] [False]), Some (mkSeries ''C2'' [Fin 2] [False])]
   \<and> evalExpr noExt hourInterval (Expr ''divideSeries'' etFunc (Fin 0) [] [nameE ''C'', nameE ''B''] ''C,B'')
        0 300 exampleValues = Return []
   \<and> evalExpr noExt hourInterval (nameE ''D'') 0 300 exampleValues
        = Return [Some (mkSeries ''D'' [Fin 1, Fin 2] [False, False])]
   \<and> evalExpr noExt hourInterval (Expr ''divideSeries'' etFunc (Fin 0) [] [nameE ''A'', nameE ''D''] ''A,D'')
        0 300 exampleValues = Return []
   \<and> evalExpr noExt hourInterval (nameE ''A'') 0 300 exampleValues
        = Return [Some (mkSeries ''A'' [Fin 4, Fin 6, Fin 1, Fin 5] [False, False, False, True])]
   \<and> evalExpr noExt hourInterval (nameE ''B'') 0 300 exampleValues
        = Return [Some (mkSeries ''B'' [Fin 2, Fin 0, Fin 3, Fin 1] [False, False, True, False])]
   \<and> (\<exists>r. evalExpr noExt hourInterval
              (Expr ''divideSeries'' etFunc (Fin 0) [] [nameE ''A'', nameE ''B''] ''A,B'')
              0 300 exampleValues = Return [Some r]
          \<and> length (Values r) = 4 \<and> length (IsAbsent r) = 4
          \<and> \<not> IsAbsent r ! 0 \<and> Values r ! 0 = fdiv (Fin 4) (Fin 2)
          \<and> IsAbsent r ! 1 \<and> IsAbsent r ! 2 \<and> IsAbsent r ! 3)"
proof -
  let ?A = "mkSeries ''A'' [Fin 4, Fin 6, Fin 1, Fin 5] [False, False, False, True]"
  let ?B = "mkSeries ''B'' [Fin 2, Fin 0, Fin 3, Fin 1] [False, False, True, False]"
  let ?C = "[Some (mkSeries ''C1'' [Fin 1] [False]), Some (mkSeries ''C2'' [Fin 2] [False])]"
  let ?D = "mkSeries ''D'' [Fin 1, Fin 2] [False, False]"
  have ev: "evalExpr noExt hourInterval (nameE ''A'') 0 300 exampleValues = Return [Some ?A]"
    "evalExpr noExt hourInterval (nameE ''B'') 0 300 exampleValues = Return [Some ?B]"
    "evalExpr noExt hourInterval (nameE ''C'') 0 300 exampleValues = Return ?C"
    "evalExpr noExt hourInterval (nameE ''D'') 0 300 exampleValues = Return [Some ?D]"
    by (simp_all add: evalExpr.simps nameE_def exampleValues_def namedMetrics_def lookup_def)
  have ty: "etype (nameE s) = etName" for s by (simp add: nameE_def)
  note a = C3_divideSeries [of "[nameE ''A'']" noExt hourInterval "Fin 0" "[]" "''A''" 0 300
      exampleValues "nameE ''A''" "[Some ?A]" "nameE ''A''" "[Some ?A]" ?A ?A]
  note b = C3_divideSeries [of "[nameE ''A'']" noExt hourInterval "Fin 0" "[]" "''C,B''" 0 300
      exampleValues "nameE ''C''" ?C "nameE ''B''" "[Some ?B]" ?A ?A]
  note c = C3_divideSeries [of "[nameE ''A'']" noExt hourInterval "Fin 0" "[]" "''A,D''" 0 300
      exampleValues "nameE ''A''" "[Some ?A]" "nameE ''D''" "[Some ?D]" ?A ?D]
  note d = C3_divideSeries [of "[nameE ''A'']" noExt hourInterval "Fin 0" "[]" "''A,B''" 0 300
      exampleValues "nameE ''A''" "[Some ?A]" "nameE ''B''" "[Some ?B]" ?A ?B]
  have 1: "evalExpr noExt hourInterval (Expr ''divideSeries'' etFunc (Fin 0) [] [nameE ''A''] ''A'')
        0 300 exampleValues = Return []"
    using a by simp
  have 2: "evalExpr noExt hourInterval (Expr ''divideSeries'' etFunc (Fin 0) [] [nameE ''C'', nameE ''B''] ''C,B'')
        0 300 exampleValues = Return []"
    using b ev by simp
  have 3: "evalExpr noExt hourInterval (Expr ''divideSeries'' etFunc (Fin 0) [] [nameE ''A'', nameE ''D''] ''A,D'')
        0 300 exampleValues = Return []"
    using c ev by (simp add: mkSeries_def)
  have 4: "\<exists>r. evalExpr noExt hourInterval
              (Expr ''divideSeries'' etFunc (Fin 0) [] [nameE ''A'', nameE ''B''] ''A,B'')
              0 300 exampleValues = Return [Some r]
          \<and> length (Values r) = 4 \<and> length (IsAbsent r) = 4
          \<and> \<not> IsAbsent r ! 0 \<and> Values r ! 0 = fdiv (Fin 4) (Fin 2)
          \<and> IsAbsent r ! 1 \<and> IsAbsent r ! 2 \<and> IsAbsent r ! 3"
  proof -
    from d ev ty obtain r where r: "evalExpr noExt hourInterval
              (Expr ''divideSeries'' etFunc (Fin 0) [] [nameE ''A'', nameE ''B''] ''A,B'')
              0 300 exampleValues = Return [Some r]"
      "length (Values r) = 4" "length (IsAbsent r) = 4"
      "\<forall>i<4. (IsAbsent r ! i \<longleftrightarrow>
                   IsAbsent ?A ! i \<or> IsAbsent ?B ! i \<or> feq (Values ?B ! i) (Fin 0))
                \<and> (\<not> IsAbsent r ! i \<longrightarrow> Values r ! i = fdiv (Values ?A ! i) (Values ?B ! i))"
      by (auto simp: mkSeries_def GetStepTime_def)
    from r(4) [rule_format, of 0] r(4) [rule_format, of 1] r(4) [rule_format, of 2]
      r(4) [rule_format, of 3]
    have "\<not> IsAbsent r ! 0 \<and> Values r ! 0 = fdiv (Fin 4) (Fin 2)
          \<and> IsAbsent r ! 1 \<and> IsAbsent r ! 2 \<and> IsAbsent r ! 3"
      by (simp add: mkSeries_def feq_def)
    with r(1-3) show ?thesis by blast
  qed
  from 1 2 3 4 ev show ?thesis by simp
qed

text \<open>The values at index \<open>i\<close> of the series that are not absent at \<open>i\<close>, in order.\<close>

definition presentAt :: "metricData list \<Rightarrow> nat \<Rightarrow> float64 list" where
  "presentAt ss i = map (\<lambda>a. Values a ! i) (filter (\<lambda>a. \<not> IsAbsent a ! i) ss)"

definition reducerOf :: "string \<Rightarrow> float64 list \<Rightarrow> float64" where
  "reducerOf tg =
     (if tg = ''sum'' \<or> tg = ''sumSeries'' then sumReducer
      else if tg = ''avg'' \<or> tg = ''averageSeries'' then avgReducer
      else if tg = ''maxSeries'' then maxReducer
      else minReducer)"

lemma presentAt_Nil_iff: "presentAt ss i = [] \<longleftrightarrow> (\<forall>a\<in>set ss. IsAbsent a ! i)"
  by (auto simp: presentAt_def filter_empty_conv)

lemma collect_present:
  assumes "\<forall>a\<in>set ss. i < length (IsAbsent a) \<and> i < length (Values a)"
  shows "forRange k (map Some ss)
           (\<lambda>_ p values. obind (deref p) (\<lambda>arg.
              obind (elemAt (IsAbsent arg) i) (\<lambda>ab.
                if \<not> ab then obind (elemAt (Values arg) i) (\<lambda>x. Return (values @ [x]))
                else Return values)))
           acc
         = Return (acc @ presentAt ss i)"
  using assms
  by (induction ss arbitrary: k acc) (simp_all add: presentAt_def deref_def elemAt_def)

lemma aggregateSeries_total:
  fixes ss :: "metricData list"
  assumes ne: "ss \<noteq> []"
    and wf: "\<forall>a\<in>set ss. length (Values a) = N \<and> length (IsAbsent a) = N"
  shows "\<exists>r. aggregateSeries e (map Some ss) function = Return [Some r]
           \<and> length (Values r) = N \<and> length (IsAbsent r) = N
           \<and> (\<forall>i<N. Values r ! i = (if presentAt ss i = [] then NaN else function (presentAt ss i))
                    \<and> IsAbsent r ! i = isNaN (Values r ! i))"
proof -
  obtain a0 rest where ss: "ss = a0 # rest" using ne by (cases ss) auto
  have N: "length (Values a0) = N" using wf ss by simp
  define r0 where "r0 = a0\<lparr>Name := Some (target e @ ''('' @ argString e @ '')''),
                  Values := replicate (length (Values a0)) (Fin 0),
                  IsAbsent := replicate (length (Values a0)) False\<rparr>"
  define body where "body = (\<lambda>i (_ :: float64) (r :: metricData).
                      obind (forRange 0 (map Some ss)
                               (\<lambda>_ p values. obind (deref p) (\<lambda>arg.
                                  obind (elemAt (IsAbsent arg) i) (\<lambda>ab.
                                    if \<not> ab then obind (elemAt (Values arg) i) (\<lambda>x. Return (values @ [x]))
                                    else Return values)))
                               [])
                        (\<lambda>values.
                           let r = r\<lparr>Values := (Values r)[i := NaN]\<rparr>;
                               r = (if length values > 0
                                    then r\<lparr>Values := (Values r)[i := function values]\<rparr> else r);
                               r = r\<lparr>IsAbsent := (IsAbsent r)[i := isNaN (Values r ! i)]\<rparr>
                           in Return r))"
  define P where "P = (\<lambda>j (r :: metricData).
      length (Values r) = N \<and> length (IsAbsent r) = N
      \<and> (\<forall>i<j. Values r ! i = (if presentAt ss i = [] then NaN else function (presentAt ss i))
                    \<and> IsAbsent r ! i = isNaN (Values r ! i)))"
  have init: "P 0 r0" by (simp add: P_def r0_def N)
  have step: "\<exists>s'. body (0 + j) (Values a0 ! j) s = Return s' \<and> P (Suc j) s'"
    if j: "j < length (Values a0)" and p: "P j s" for j s
  proof -
    have "\<forall>a\<in>set ss. j < length (IsAbsent a) \<and> j < length (Values a)" using wf j N by simp
    from collect_present [OF this, of 0 "[]"] p j N show ?thesis
      by (auto simp: body_def P_def Let_def less_Suc_eq nth_list_update)
  qed
  from forRange_total [of P r0 "Values a0" body 0, OF init step]
  obtain r where r: "forRange 0 (Values a0) body r0 = Return r" "P (length (Values a0)) r"
    by auto
  have "aggregateSeries e (map Some ss) function = Return [Some r]"
    using r(1) unfolding aggregateSeries_def body_def r0_def
    by (simp add: ss elemAt_def deref_def Let_def)
  with r(2) show ?thesis by (intro exI [of _ r]) (simp add: P_def N)
qed

lemma maxReducer_not_NaN: "\<not> isNaN (maxReducer xs)"
proof -
  have "acc \<noteq> NaN \<Longrightarrow> foldl (\<lambda>max value. if fgt value max then value else max) acc xs \<noteq> NaN"
    for acc
    by (induction xs arbitrary: acc) (auto simp: fgt_def flt_def)
  then show ?thesis by (simp add: maxReducer_def isNaN_iff)
qed

lemma minReducer_not_NaN: "\<not> isNaN (minReducer xs)"
proof -
  have "acc \<noteq> NaN \<Longrightarrow> foldl (\<lambda>min value. if flt value min then value else min) acc xs \<noteq> NaN"
    for acc
    by (induction xs arbitrary: acc) (auto simp: flt_def)
  then show ?thesis by (simp add: minReducer_def isNaN_iff)
qed


lemma getSeriesArgs_Nil: "getSeriesArgs ev [] = Return (Inl ErrMissingTimeseries)"
  by (simp add: getSeriesArgs_def)

lemma getSeriesArgs_nonempty: "getSeriesArgs ev as = Return (Inr xs) \<Longrightarrow> xs \<noteq> []"
proof (cases "getSeriesArgs_loop ev as []")
  case Panic
  assume "getSeriesArgs ev as = Return (Inr xs)"
  with Panic show ?thesis by (simp add: getSeriesArgs_def)
next
  case (Return res)
  assume a: "getSeriesArgs ev as = Return (Inr xs)"
  show ?thesis
  proof (cases res)
    case (Inl err)
    with a Return show ?thesis by (simp add: getSeriesArgs_def)
  next
    case (Inr ys)
    with a Return show ?thesis by (cases "ys = []") (auto simp: getSeriesArgs_def)
  qed
qed

text \<open>
  C2 (amended).  For \<open>sum\<close>/\<open>sumSeries\<close>, \<open>avg\<close>/\<open>averageSeries\<close>, \<open>maxSeries\<close> and
  \<open>minSeries\<close> over input series that all have \<open>N\<close> values and \<open>N\<close> absence flags,
  the result is one series of length \<open>N\<close>.  At every index \<open>i\<close> at which some input
  is present, its value is the reducer applied to exactly the values of the inputs that
  are not absent at \<open>i\<close>, in input order.  It is absent at \<open>i\<close> if and only if every
  input is absent at \<open>i\<close> or the reducer's result there is NaN; \<open>maxSeries\<close> and
  \<open>minSeries\<close> never yield NaN, so for them the output is absent exactly where every
  input is.
\<close>

theorem C2_aggregate_amended:
  "(tg = ''sum'' \<or> tg = ''sumSeries'' \<or> tg = ''avg'' \<or> tg = ''averageSeries''
    \<or> tg = ''maxSeries'' \<or> tg = ''minSeries'')
   \<and> getSeriesArgs (\<lambda>a. evalExpr ext iS a from until values) as = Return (Inr (map Some ss))
   \<and> (\<forall>a\<in>set ss. length (Values a) = N \<and> length (IsAbsent a) = N)
   \<longrightarrow> (\<exists>r. evalExpr ext iS (Expr tg etFunc v vs as astr) from until values = Return [Some r]
          \<and> length (Values r) = N \<and> length (IsAbsent r) = N
          \<and> (\<forall>i<N. (presentAt ss i \<noteq> [] \<longrightarrow> Values r ! i = reducerOf tg (presentAt ss i))
                 \<and> (IsAbsent r ! i \<longleftrightarrow>
                      (\<forall>a\<in>set ss. IsAbsent a ! i) \<or> isNaN (reducerOf tg (presentAt ss i)))
                 \<and> (tg = ''maxSeries'' \<or> tg = ''minSeries'' \<longrightarrow>
                      (IsAbsent r ! i \<longleftrightarrow> (\<forall>a\<in>set ss. IsAbsent a ! i)))))"
proof
  assume h: "(tg = ''sum'' \<or> tg = ''sumSeries'' \<or> tg = ''avg'' \<or> tg = ''averageSeries''
    \<or> tg = ''maxSeries'' \<or> tg = ''minSeries'')
   \<and> getSeriesArgs (\<lambda>a. evalExpr ext iS a from until values) as = Return (Inr (map Some ss))
   \<and> (\<forall>a\<in>set ss. length (Values a) = N \<and> length (IsAbsent a) = N)"
  have ga: "getSeriesArgs (\<lambda>a. evalExpr ext iS a from until values) as = Return (Inr (map Some ss))"
    using h by (elim conjE)
  have wf: "\<forall>a\<in>set ss. length (Values a) = N \<and> length (IsAbsent a) = N"
    using h by (elim conjE)
  have as: "as \<noteq> []" using ga getSeriesArgs_Nil [of "\<lambda>a. evalExpr ext iS a from until values"] by auto
  have ss: "ss \<noteq> []" using getSeriesArgs_nonempty [OF ga] by simp
  define e' where "e' = Expr (if tg = ''sum'' then ''sumSeries'' else if tg = ''avg'' then ''averageSeries'' else tg)
                          etFunc v vs as astr"
  from aggregateSeries_total [OF ss wf, of e' "reducerOf tg"]
  obtain r where r: "aggregateSeries e' (map Some ss) (reducerOf tg) = Return [Some r]"
    "length (Values r) = N" "length (IsAbsent r) = N"
    "\<forall>i<N. Values r ! i = (if presentAt ss i = [] then NaN else reducerOf tg (presentAt ss i))
                    \<and> IsAbsent r ! i = isNaN (Values r ! i)"
    by blast
  have asl: "length as \<noteq> 0" using as by simp
  from h have "tg = ''sum'' \<or> tg = ''sumSeries'' \<or> tg = ''avg'' \<or> tg = ''averageSeries''
    \<or> tg = ''maxSeries'' \<or> tg = ''minSeries''" by (rule conjunct1)
  then have ev: "evalExpr ext iS (Expr tg etFunc v vs as astr) from until values = Return [Some r]"
  proof (elim disjE)
    assume "tg = ''sum''"
    with r(1) show ?thesis
      by (simp add: evalExpr.simps [of ext iS "''sum''"] Let_def orNil_def reducerOf_def e'_def ga as)
  next
    assume "tg = ''sumSeries''"
    with r(1) show ?thesis
      by (simp add: evalExpr.simps [of ext iS "''sumSeries''"] Let_def orNil_def reducerOf_def e'_def ga as)
  next
    assume "tg = ''avg''"
    with r(1) show ?thesis
      by (simp add: evalExpr.simps [of ext iS "''avg''"] Let_def orNil_def reducerOf_def e'_def ga as)
  next
    assume "tg = ''averageSeries''"
    with r(1) show ?thesis
      by (simp add: evalExpr.simps [of ext iS "''averageSeries''"] Let_def orNil_def reducerOf_def e'_def ga as)
  next
    assume "tg = ''maxSeries''"
    with r(1) show ?thesis
      by (simp add: evalExpr.simps [of ext iS "''maxSeries''"] Let_def orNil_def reducerOf_def e'_def ga as)
  next
    assume "tg = ''minSeries''"
    with r(1) show ?thesis
      by (simp add: evalExpr.simps [of ext iS "''minSeries''"] Let_def orNil_def reducerOf_def e'_def ga as)
  qed
  have nn: "tg = ''maxSeries'' \<or> tg = ''minSeries'' \<Longrightarrow> \<not> isNaN (reducerOf tg xs)" for xs
    by (auto simp: reducerOf_def maxReducer_not_NaN minReducer_not_NaN)
  have "\<forall>i<N. (presentAt ss i \<noteq> [] \<longrightarrow> Values r ! i = reducerOf tg (presentAt ss i))
                 \<and> (IsAbsent r ! i \<longleftrightarrow>
                      (\<forall>a\<in>set ss. IsAbsent a ! i) \<or> isNaN (reducerOf tg (presentAt ss i)))
                 \<and> (tg = ''maxSeries'' \<or> tg = ''minSeries'' \<longrightarrow>
                      (IsAbsent r ! i \<longleftrightarrow> (\<forall>a\<in>set ss. IsAbsent a ! i)))"
    using r(4) nn by (auto simp: presentAt_Nil_iff isNaN_iff)
  with ev r(2,3) show "\<exists>r. evalExpr ext iS (Expr tg etFunc v vs as astr) from until values = Return [Some r]
          \<and> length (Values r) = N \<and> length (IsAbsent r) = N
          \<and> (\<forall>i<N. (presentAt ss i \<noteq> [] \<longrightarrow> Values r ! i = reducerOf tg (presentAt ss i))
                 \<and> (IsAbsent r ! i \<longleftrightarrow>
                      (\<forall>a\<in>set ss. IsAbsent a ! i) \<or> isNaN (reducerOf tg (presentAt ss i)))
                 \<and> (tg = ''maxSeries'' \<or> tg = ''minSeries'' \<longrightarrow>
                      (IsAbsent r ! i \<longleftrightarrow> (\<forall>a\<in>set ss. IsAbsent a ! i))))"
    by (intro exI [of _ r] conjI)
qed


theorem C2_aggregate_amended_witness:
  "(''sumSeries'' = ''sum'' \<or> ''sumSeries'' = ''sumSeries'' \<or> ''sumSeries'' = ''avg'' \<or> ''sumSeries'' = ''averageSeries''
    \<or> ''sumSeries'' = ''maxSeries'' \<or> ''sumSeries'' = ''minSeries'')
   \<and> getSeriesArgs (\<lambda>a. evalExpr noExt hourInterval a 0 300 exampleValues) [nameE ''A'', nameE ''B'']
       = Return (Inr (map Some
       [mkSeries ''A'' [Fin 4, Fin 6, Fin 1, Fin 5] [False, False, False, True],
        mkSeries ''B'' [Fin 2, Fin 0, Fin 3, Fin 1] [False, False, True, False]]))
   \<and> length (Values (mkSeries ''A'' [Fin 4, Fin 6, Fin 1, Fin 5] [False, False, False, True])) = 4
   \<and> length (IsAbsent (mkSeries ''A'' [Fin 4, Fin 6, Fin 1, Fin 5] [False, False, False, True])) = 4
   \<and> length (Values (mkSeries ''B'' [Fin 2, Fin 0, Fin 3, Fin 1] [False, False, True, False])) = 4
   \<and> length (IsAbsent (mkSeries ''B'' [Fin 2, Fin 0, Fin 3, Fin 1] [False, False, True, False])) = 4
   \<and> (\<exists>r. evalExpr noExt hourInterval (Expr ''sumSeries'' etFunc (Fin 0) [] [nameE ''A'', nameE ''B''] ''A,B'')
              0 300 exampleValues = Return [Some r]
          \<and> length (Values r) = 4 \<and> length (IsAbsent r) = 4
          \<and> (\<forall>i<4. (presentAt [mkSeries ''A'' [Fin 4, Fin 6, Fin 1, Fin 5] [False, False, False, True],
        mkSeries ''B'' [Fin 2, Fin 0, Fin 3, Fin 1] [False, False, True, False]] i \<noteq> [] \<longrightarrow>
                      Values r ! i = reducerOf ''sumSeries'' (presentAt [mkSeries ''A'' [Fin 4, Fin 6, Fin 1, Fin 5] [False, False, False, True],
        mkSeries ''B'' [Fin 2, Fin 0, Fin 3, Fin 1] [False, False, True, False]] i))
                 \<and> (IsAbsent r ! i \<longleftrightarrow>
                      (\<forall>a\<in>set [mkSeries ''A'' [Fin 4, Fin 6, Fin 1, Fin 5] [False, False, False, True],
        mkSeries ''B'' [Fin 2, Fin 0, Fin 3, Fin 1] [False, False, True, False]]. IsAbsent a ! i)
                      \<or> isNaN (reducerOf ''sumSeries'' (presentAt [mkSeries ''A'' [Fin 4, Fin 6, Fin 1, Fin 5] [False, False, False, True],
        mkSeries ''B'' [Fin 2, Fin 0, Fin 3, Fin 1] [False, False, True, False]] i)))
                 \<and> (''sumSeries'' = ''maxSeries'' \<or> ''sumSeries'' = ''minSeries'' \<longrightarrow>
                      (IsAbsent r ! i \<longleftrightarrow> (\<forall>a\<in>set [mkSeries ''A'' [Fin 4, Fin 6, Fin 1, Fin 5] [False, False, False, True],
        mkSeries ''B'' [Fin 2, Fin 0, Fin 3, Fin 1] [False, False, True, False]]. IsAbsent a ! i)))))"
proof -
  have 1: "(''sumSeries'' = ''sum'' \<or> ''sumSeries'' = ''sumSeries'' \<or> ''sumSeries'' = ''avg'' \<or> ''sumSeries'' = ''averageSeries''
    \<or> ''sumSeries'' = ''maxSeries'' \<or> ''sumSeries'' = ''minSeries'')"
    by simp
  have 2: "getSeriesArgs (\<lambda>a. evalExpr noExt hourInterval a 0 300 exampleValues) [nameE ''A'', nameE ''B'']
       = Return (Inr (map Some
       [mkSeries ''A'' [Fin 4, Fin 6, Fin 1, Fin 5] [False, False, False, True],
        mkSeries ''B'' [Fin 2, Fin 0, Fin 3, Fin 1] [False, False, True, False]]))"
    by (simp add: getSeriesArgs_def getSeriesArg_def evalExpr.simps nameE_def exampleValues_def
        namedMetrics_def lookup_def)
  have 3: "(\<forall>a\<in>set [mkSeries ''A'' [Fin 4, Fin 6, Fin 1, Fin 5] [False, False, False, True],
        mkSeries ''B'' [Fin 2, Fin 0, Fin 3, Fin 1] [False, False, True, False]].
         length (Values a) = 4 \<and> length (IsAbsent a) = 4)"
    by (simp add: mkSeries_def)
  from C2_aggregate_amended [of "''sumSeries''" noExt hourInterval 0 300 exampleValues
      "[nameE ''A'', nameE ''B'']" "[mkSeries ''A'' [Fin 4, Fin 6, Fin 1, Fin 5] [False, False, False, True],
        mkSeries ''B'' [Fin 2, Fin 0, Fin 3, Fin 1] [False, False, True, False]]" 4 "Fin 0" "[]" "''A,B''"] 1 2 3
  have "(\<exists>r. evalExpr noExt hourInterval (Expr ''sumSeries'' etFunc (Fin 0) [] [nameE ''A'', nameE ''B''] ''A,B'')
              0 300 exampleValues = Return [Some r]
          \<and> length (Values r) = 4 \<and> length (IsAbsent r) = 4
          \<and> (\<forall>i<4. (presentAt [mkSeries ''A'' [Fin 4, Fin 6, Fin 1, Fin 5] [False, False, False, True],
        mkSeries ''B'' [Fin 2, Fin 0, Fin 3, Fin 1] [False, False, True, False]] i \<noteq> [] \<longrightarrow>
                      Values r ! i = reducerOf ''sumSeries'' (presentAt [mkSeries ''A'' [Fin 4, Fin 6, Fin 1, Fin 5] [False, False, False, True],
        mkSeries ''B'' [Fin 2, Fin 0, Fin 3, Fin 1] [False, False, True, False]] i))
                 \<and> (IsAbsent r ! i \<longleftrightarrow>
                      (\<forall>a\<in>set [mkSeries ''A'' [Fin 4, Fin 6, Fin 1, Fin 5] [False, False, False, True],
        mkSeries ''B'' [Fin 2, Fin 0, Fin 3, Fin 1] [False, False, True, False]]. IsAbsent a ! i)
                      \<or> isNaN (reducerOf ''sumSeries'' (presentAt [mkSeries ''A'' [Fin 4, Fin 6, Fin 1, Fin 5] [False, False, False, True],
        mkSeries ''B'' [Fin 2, Fin 0, Fin 3, Fin 1] [False, False, True, False]] i)))
                 \<and> (''sumSeries'' = ''maxSeries'' \<or> ''sumSeries'' = ''minSeries'' \<longrightarrow>
                      (IsAbsent r ! i \<longleftrightarrow> (\<forall>a\<in>set [mkSeries ''A'' [Fin 4, Fin 6, Fin 1, Fin 5] [False, False, False, True],
        mkSeries ''B'' [Fin 2, Fin 0, Fin 3, Fin 1] [False, False, True, False]]. IsAbsent a ! i)))))"
    by blast
  moreover have "length (Values (mkSeries ''A'' [Fin 4, Fin 6, Fin 1, Fin 5] [False, False, False, True])) = 4
   \<and> length (IsAbsent (mkSeries ''A'' [Fin 4, Fin 6, Fin 1, Fin 5] [False, False, False, True])) = 4
   \<and> length (Values (mkSeries ''B'' [Fin 2, Fin 0, Fin 3, Fin 1] [False, False, True, False])) = 4
   \<and> length (IsAbsent (mkSeries ''B'' [Fin 2, Fin 0, Fin 3, Fin 1] [False, False, True, False])) = 4"
    by (simp add: mkSeries_def)
  ultimately show ?thesis using 1 2 by blast
qed

text \<open>
  C2, as stated, fails: \<open>sumSeries\<close> over two series of length one, neither absent at
  index \<open>0\<close>, with values \<open>+Inf\<close> and \<open>-Inf\<close>, sums to NaN and marks the output
  absent at index \<open>0\<close> although no input is absent there.
\<close>

theorem C2_aggregate_counterexample:
  "evalExpr noExt hourInterval (nameE ''P'') 0 300 infValues
     = Return [Some (mkSeries ''P'' [PInf] [False])]
   \<and> evalExpr noExt hourInterval (nameE ''Q'') 0 300 infValues
     = Return [Some (mkSeries ''Q'' [NInf] [False])]
   \<and> evalExpr noExt hourInterval (funcE ''sumSeries'' [nameE ''P'', nameE ''Q''] ''P,Q'') 0 300 infValues
     = Return [Some (mkSeries ''sumSeries(P,Q)'' [NaN] [True])]"
  by (simp add: run_simps infValues_def namedMetrics_def getSeriesArgs_def aggregateSeries_def
      sumReducer_def fadd_def isNaN_iff)

text \<open>The values of a series that are not absent, in order.\<close>

definition present :: "float64 list \<Rightarrow> bool list \<Rightarrow> float64 list" where
  "present vs ab = map fst (filter (\<lambda>(v, a). \<not> a) (zip vs ab))"

text \<open>The four reducers of the value filters, over the present values.\<close>

definition avgOf :: "float64 list \<Rightarrow> float64" where
  "avgOf ps = fdiv (foldl fadd (Fin 0) ps) (float64_of_int (int (length ps)))"

definition currentOf :: "float64 list \<Rightarrow> float64" where
  "currentOf ps = (if ps = [] then NaN else last ps)"

definition maxOf :: "float64 list \<Rightarrow> float64" where
  "maxOf ps = foldl (\<lambda>m v. if fgt v m then v else m) NInf ps"

definition minOf :: "float64 list \<Rightarrow> float64" where
  "minOf ps = foldl (\<lambda>m v. if flt v m then v else m) PInf ps"

lemma present_Cons:
  "present (v # vs) (a # ab) = (if a then present vs ab else v # present vs ab)"
  by (simp add: present_def)

lemma forRange_present:
  assumes "i + length xs \<le> length absent"
  shows "forRange i xs (\<lambda>i v s. obind (elemAt absent i) (\<lambda>ab. if ab then Return s else Return (f s v))) s
         = Return (foldl f s (present xs (drop i absent)))"
  using assms
proof (induction xs arbitrary: i s)
  case Nil
  then show ?case by (simp add: present_def)
next
  case (Cons x xs)
  then have i: "i < length absent" by simp
  then have d: "drop i absent = absent ! i # drop (Suc i) absent"
    by (simp add: Cons_nth_drop_Suc)
  have ih: "forRange (Suc i) xs (\<lambda>i v s. obind (elemAt absent i) (\<lambda>ab. if ab then Return s else Return (f s v))) s'
         = Return (foldl f s' (present xs (drop (Suc i) absent)))" for s'
    using Cons.IH [of "Suc i" s'] Cons.prems by simp
  have e: "elemAt absent i = Return (absent ! i)" using i by (simp add: elemAt_def)
  show ?case by (simp add: e d present_Cons ih)
qed

lemma maxValue_eq:
  "length f64s \<le> length absent \<Longrightarrow> maxValue f64s absent = Return (maxOf (present f64s absent))"
proof -
  assume a: "length f64s \<le> length absent"
  have b: "(\<lambda>i v m. obind (elemAt absent i) (\<lambda>ab.
          if ab then Return m else if fgt v m then Return v else Return m))
    = (\<lambda>i v m. obind (elemAt absent i) (\<lambda>ab.
          if ab then Return m else Return (if fgt v m then v else m)))"
    by (intro ext arg_cong2 [where f = obind] refl) simp
  show ?thesis
    unfolding maxValue_def b maxOf_def
    using forRange_present [of 0 f64s absent "\<lambda>m v. if fgt v m then v else m" NInf] a by simp
qed

lemma minValue_eq:
  "length f64s \<le> length absent \<Longrightarrow> minValue f64s absent = Return (minOf (present f64s absent))"
proof -
  assume a: "length f64s \<le> length absent"
  have b: "(\<lambda>i v m. obind (elemAt absent i) (\<lambda>ab.
          if ab then Return m else if flt v m then Return v else Return m))
    = (\<lambda>i v m. obind (elemAt absent i) (\<lambda>ab.
          if ab then Return m else Return (if flt v m then v else m)))"
    by (intro ext arg_cong2 [where f = obind] refl) simp
  show ?thesis
    unfolding minValue_def b minOf_def
    using forRange_present [of 0 f64s absent "\<lambda>m v. if flt v m then v else m" PInf] a by simp
qed

lemma foldl_avg_pair:
  "foldl (\<lambda>(t, elts) v. (fadd t v, elts + 1)) (t0, n0) ps
   = (foldl fadd t0 ps, n0 + int (length ps))"
  by (induction ps arbitrary: t0 n0) simp_all

lemma avgValue_eq:
  "length f64s \<le> length absent \<Longrightarrow> avgValue f64s absent = Return (avgOf (present f64s absent))"
proof -
  assume a: "length f64s \<le> length absent"
  have b: "(\<lambda>i v (t, elts). obind (elemAt absent i) (\<lambda>ab.
                 if ab then Return (t, elts)
                 else Return (fadd t v, elts + 1)))
    = (\<lambda>i v s. obind (elemAt absent i) (\<lambda>ab.
          if ab then Return s else Return ((\<lambda>(t, elts) v. (fadd t v, elts + 1)) s v)))"
    apply (intro ext)
    subgoal for i v s by (cases s) (simp cong: if_cong)
    done
  have fr: "forRange 0 f64s (\<lambda>i v s. obind (elemAt absent i) (\<lambda>ab.
          if ab then Return s else Return ((\<lambda>(t, elts) v. (fadd t v, elts + 1)) s v))) (Fin 0, 0)
      = Return (foldl (\<lambda>(t, elts) v. (fadd t v, elts + 1)) (Fin 0, 0) (present f64s (drop 0 absent)))"
    by (rule forRange_present) (simp add: a)
  show ?thesis
    unfolding avgValue_def b fr by (simp add: foldl_avg_pair avgOf_def)
qed

lemma present_take_Suc:
  assumes "n < length vs" "n < length ab"
  shows "present (take (Suc n) vs) (take (Suc n) ab)
         = present (take n vs) (take n ab) @ (if ab ! n then [] else [vs ! n])"
  using assms by (simp add: present_def take_Suc_conv_app_nth)

lemma currentValue_loop_eq:
  "n \<le> length f64s \<Longrightarrow> n \<le> length absent \<Longrightarrow>
   currentValue_loop f64s absent n = Return (currentOf (present (take n f64s) (take n absent)))"
proof (induction n)
  case 0
  then show ?case by (simp add: currentOf_def present_def)
next
  case (Suc n)
  then show ?case
    by (simp add: elemAt_def present_take_Suc currentOf_def)
qed

lemma zip_take_right: "zip xs (take (length xs) ys) = zip xs ys"
proof (induction xs arbitrary: ys)
  case Nil
  show ?case by simp
next
  case (Cons x xs)
  show ?case by (cases ys) (simp_all add: Cons.IH)
qed

lemma present_take_length:
  "present (take (length vs) vs) (take (length vs) ab) = present vs ab"
  by (simp add: present_def zip_take_right)

lemma currentValue_eq:
  "length f64s \<le> length absent \<Longrightarrow> currentValue f64s absent = Return (currentOf (present f64s absent))"
  using currentValue_loop_eq [of "length f64s" f64s absent]
  by (simp add: currentValue_def present_def zip_take_right)


text \<open>
  The comparison each filter makes between the reduced value and the threshold, as the
  specification words it: inclusive above for the average and the current value, strict
  above for the maximum and the minimum, inclusive below for all four.
\<close>

definition keeps :: "string \<Rightarrow> float64 list \<Rightarrow> float64 \<Rightarrow> bool" where
  "keeps tg ps n =
     (if tg = ''averageAbove'' then fge (avgOf ps) n
      else if tg = ''averageBelow'' then fle (avgOf ps) n
      else if tg = ''currentAbove'' then fge (currentOf ps) n
      else if tg = ''currentBelow'' then fle (currentOf ps) n
      else if tg = ''maximumAbove'' then fgt (maxOf ps) n
      else if tg = ''maximumBelow'' then fle (maxOf ps) n
      else if tg = ''minimumAbove'' then fgt (minOf ps) n
      else fle (minOf ps) n)"

lemma deref_Some: "deref (Some x) = Return x"
  by (simp add: deref_def)

lemma forRange_filter:
  assumes "\<And>a. a \<in> set ss \<Longrightarrow> f a = Return (h a)"
  shows "forRange i (map Some ss)
           (\<lambda>_ p results. obind (deref p) (\<lambda>a. obind (f a) (\<lambda>value.
              if c value then Return (results @ [p]) else Return results)))
           acc
         = Return (acc @ map Some (filter (\<lambda>a. c (h a)) ss))"
  using assms by (induction ss arbitrary: i acc) (simp_all add: deref_Some)

lemma filterByValue_eq:
  fixes ss :: "metricData list"
  assumes wf: "\<forall>a\<in>set ss. length (Values a) \<le> length (IsAbsent a)"
    and tg: "tg = ''averageAbove'' \<or> tg = ''averageBelow'' \<or> tg = ''currentAbove''
      \<or> tg = ''currentBelow'' \<or> tg = ''maximumAbove'' \<or> tg = ''maximumBelow''
      \<or> tg = ''minimumAbove'' \<or> tg = ''minimumBelow''"
  shows "filterByValue tg n (map Some ss)
         = Return (map Some (filter (\<lambda>a. keeps tg (present (Values a) (IsAbsent a)) n) ss))"
proof -
  have A: "\<And>a. a \<in> set ss \<Longrightarrow> avgValue (Values a) (IsAbsent a) = Return (avgOf (present (Values a) (IsAbsent a)))"
    using wf avgValue_eq by simp
  have C: "\<And>a. a \<in> set ss \<Longrightarrow> currentValue (Values a) (IsAbsent a) = Return (currentOf (present (Values a) (IsAbsent a)))"
    using wf currentValue_eq by simp
  have X: "\<And>a. a \<in> set ss \<Longrightarrow> maxValue (Values a) (IsAbsent a) = Return (maxOf (present (Values a) (IsAbsent a)))"
    using wf maxValue_eq by simp
  have N: "\<And>a. a \<in> set ss \<Longrightarrow> minValue (Values a) (IsAbsent a) = Return (minOf (present (Values a) (IsAbsent a)))"
    using wf minValue_eq by simp
  from tg show ?thesis
  proof (elim disjE)
    assume t1: "tg = ''averageAbove''"
    show ?thesis unfolding t1
      by (simp add: filterByValue_def keeps_def deref_Some
          forRange_filter [where ss = ss and f = "\<lambda>a. avgValue (Values a) (IsAbsent a)" and c = "\<lambda>value. fge value n", OF A])
  next
    assume t2: "tg = ''averageBelow''"
    show ?thesis unfolding t2
      by (simp add: filterByValue_def keeps_def deref_Some
          forRange_filter [where ss = ss and f = "\<lambda>a. avgValue (Values a) (IsAbsent a)" and c = "\<lambda>value. fle value n", OF A])
  next
    assume t3: "tg = ''currentAbove''"
    show ?thesis unfolding t3
      by (simp add: filterByValue_def keeps_def deref_Some
          forRange_filter [where ss = ss and f = "\<lambda>a. currentValue (Values a) (IsAbsent a)" and c = "\<lambda>value. fge value n", OF C])
  next
    assume t4: "tg = ''currentBelow''"
    show ?thesis unfolding t4
      by (simp add: filterByValue_def keeps_def deref_Some
          forRange_filter [where ss = ss and f = "\<lambda>a. currentValue (Values a) (IsAbsent a)" and c = "\<lambda>value. fle value n", OF C])
  next
    assume t5: "tg = ''maximumAbove''"
    show ?thesis unfolding t5
      by (simp add: filterByValue_def keeps_def deref_Some
          forRange_filter [where ss = ss and f = "\<lambda>a. maxValue (Values a) (IsAbsent a)" and c = "\<lambda>value. fgt value n", OF X])
  next
    assume t6: "tg = ''maximumBelow''"
    show ?thesis unfolding t6
      by (simp add: filterByValue_def keeps_def deref_Some
          forRange_filter [where ss = ss and f = "\<lambda>a. maxValue (Values a) (IsAbsent a)" and c = "\<lambda>value. fle value n", OF X])
  next
    assume t7: "tg = ''minimumAbove''"
    show ?thesis unfolding t7
      by (simp add: filterByValue_def keeps_def deref_Some
          forRange_filter [where ss = ss and f = "\<lambda>a. minValue (Values a) (IsAbsent a)" and c = "\<lambda>value. fgt value n", OF N])
  next
    assume t8: "tg = ''minimumBelow''"
    show ?thesis unfolding t8
      by (simp add: filterByValue_def keeps_def deref_Some
          forRange_filter [where ss = ss and f = "\<lambda>a. minValue (Values a) (IsAbsent a)" and c = "\<lambda>value. fle value n", OF N])
  qed
qed


lemma evalExpr_filter_unfold:
  assumes tg: "tg = ''averageAbove'' \<or> tg = ''averageBelow'' \<or> tg = ''currentAbove''
      \<or> tg = ''currentBelow'' \<or> tg = ''maximumAbove'' \<or> tg = ''maximumBelow''
      \<or> tg = ''minimumAbove'' \<or> tg = ''minimumBelow''"
    and as: "as \<noteq> []"
  shows "evalExpr ext iS (Expr tg etFunc v vs as astr) from until values
         = obind (getSeriesArg (\<lambda>a. evalExpr ext iS a from until values) (as ! 0)) (\<lambda>res.
             orNil res (\<lambda>args'. orNil (getFloatArg (Expr tg etFunc v vs as astr) 1)
               (\<lambda>n. filterByValue tg n args')))"
proof -
  have l: "length as \<noteq> 0" using as by simp
  from tg show ?thesis
  proof (elim disjE)
    assume t: "tg = ''averageAbove''"
    show ?thesis unfolding t by (simp add: evalExpr.simps [of ext iS "''averageAbove''"] Let_def as)
  next
    assume t: "tg = ''averageBelow''"
    show ?thesis unfolding t by (simp add: evalExpr.simps [of ext iS "''averageBelow''"] Let_def as)
  next
    assume t: "tg = ''currentAbove''"
    show ?thesis unfolding t by (simp add: evalExpr.simps [of ext iS "''currentAbove''"] Let_def as)
  next
    assume t: "tg = ''currentBelow''"
    show ?thesis unfolding t by (simp add: evalExpr.simps [of ext iS "''currentBelow''"] Let_def as)
  next
    assume t: "tg = ''maximumAbove''"
    show ?thesis unfolding t by (simp add: evalExpr.simps [of ext iS "''maximumAbove''"] Let_def as)
  next
    assume t: "tg = ''maximumBelow''"
    show ?thesis unfolding t by (simp add: evalExpr.simps [of ext iS "''maximumBelow''"] Let_def as)
  next
    assume t: "tg = ''minimumAbove''"
    show ?thesis unfolding t by (simp add: evalExpr.simps [of ext iS "''minimumAbove''"] Let_def as)
  next
    assume t: "tg = ''minimumBelow''"
    show ?thesis unfolding t by (simp add: evalExpr.simps [of ext iS "''minimumBelow''"] Let_def as)
  qed
qed

text \<open>
  C4.  Each of \<open>averageAbove\<close>, \<open>averageBelow\<close>, \<open>currentAbove\<close>, \<open>currentBelow\<close>,
  \<open>maximumAbove\<close>, \<open>maximumBelow\<close>, \<open>minimumAbove\<close> and \<open>minimumBelow\<close>, applied to the
  series of a name or call (none nil, each with an absence flag for every value) and a
  constant threshold \<open>n\<close>, returns exactly the input series, in input order, whose
  reducer over the non-absent samples passes the comparison with \<open>n\<close>: \<open>\<ge> n\<close> for
  \<open>averageAbove\<close> and \<open>currentAbove\<close>, \<open>> n\<close> for \<open>maximumAbove\<close> and \<open>minimumAbove\<close>,
  and \<open>\<le> n\<close> for all four \<open>*Below\<close>.
\<close>

theorem C4_value_filters:
  "(tg = ''averageAbove'' \<or> tg = ''averageBelow'' \<or> tg = ''currentAbove''
      \<or> tg = ''currentBelow'' \<or> tg = ''maximumAbove'' \<or> tg = ''maximumBelow''
      \<or> tg = ''minimumAbove'' \<or> tg = ''minimumBelow'')
   \<and> (etype x = etName \<or> etype x = etFunc) \<and> etype c = etConst
   \<and> evalExpr ext iS x from until values = Return (map Some ss)
   \<and> (\<forall>a\<in>set ss. length (Values a) \<le> length (IsAbsent a))
   \<longrightarrow> evalExpr ext iS (Expr tg etFunc v vs [x, c] astr) from until values
        = Return (map Some (filter (\<lambda>a. keeps tg (present (Values a) (IsAbsent a)) (val c)) ss))"
proof
  assume h: "(tg = ''averageAbove'' \<or> tg = ''averageBelow'' \<or> tg = ''currentAbove''
      \<or> tg = ''currentBelow'' \<or> tg = ''maximumAbove'' \<or> tg = ''maximumBelow''
      \<or> tg = ''minimumAbove'' \<or> tg = ''minimumBelow'')
   \<and> (etype x = etName \<or> etype x = etFunc) \<and> etype c = etConst
   \<and> evalExpr ext iS x from until values = Return (map Some ss)
   \<and> (\<forall>a\<in>set ss. length (Values a) \<le> length (IsAbsent a))"
  from h have tg: "tg = ''averageAbove'' \<or> tg = ''averageBelow'' \<or> tg = ''currentAbove''
      \<or> tg = ''currentBelow'' \<or> tg = ''maximumAbove'' \<or> tg = ''maximumBelow''
      \<or> tg = ''minimumAbove'' \<or> tg = ''minimumBelow''"
    by (elim conjE)
  from h have ty: "etype x = etName \<or> etype x = etFunc" by (elim conjE)
  from h have c: "etype c = etConst" by (elim conjE)
  from h have ev: "evalExpr ext iS x from until values = Return (map Some ss)" by (elim conjE)
  from h have wf: "\<forall>a\<in>set ss. length (Values a) \<le> length (IsAbsent a)" by (elim conjE)
  have ga: "getSeriesArg (\<lambda>a. evalExpr ext iS a from until values) x
      = (if ss = [] then Return (Inl ErrMissingTimeseries) else Return (Inr (map Some ss)))"
    using ty ev by (auto simp: getSeriesArg_def)
  have fa: "getFloatArg (Expr tg etFunc v vs [x, c] astr) (Suc 0) = Inr (val c)"
    using c by (simp add: getFloatArg_def)
  show "evalExpr ext iS (Expr tg etFunc v vs [x, c] astr) from until values
        = Return (map Some (filter (\<lambda>a. keeps tg (present (Values a) (IsAbsent a)) (val c)) ss))"
    unfolding evalExpr_filter_unfold [OF tg, of "[x, c]", simplified]
    by (simp add: ga fa orNil_def filterByValue_eq [OF wf tg])
qed


theorem C4_value_filters_witness:
  "(etype (nameE ''Z'') = etName \<or> etype (nameE ''Z'') = etFunc)
   \<and> etype (constE (Fin 2)) = etConst
   \<and> evalExpr noExt hourInterval (nameE ''Z'') 0 300 filterValues
       = Return (map Some
        [mkSeries ''Z1'' [Fin 2] [False], mkSeries ''Z2'' [Fin 1] [True],
         mkSeries ''Z3'' [Fin 3] [False]])
   \<and> length (Values (mkSeries ''Z1'' [Fin 2] [False])) \<le> length (IsAbsent (mkSeries ''Z1'' [Fin 2] [False]))
   \<and> length (Values (mkSeries ''Z2'' [Fin 1] [True])) \<le> length (IsAbsent (mkSeries ''Z2'' [Fin 1] [True]))
   \<and> length (Values (mkSeries ''Z3'' [Fin 3] [False])) \<le> length (IsAbsent (mkSeries ''Z3'' [Fin 3] [False]))
   \<and> evalExpr noExt hourInterval
         (Expr ''maximumBelow'' etFunc (Fin 0) [] [nameE ''Z'', constE (Fin 2)] ''Z,2'') 0 300 filterValues
       = Return [Some (mkSeries ''Z1'' [Fin 2] [False]), Some (mkSeries ''Z2'' [Fin 1] [True])]
   \<and> evalExpr noExt hourInterval
         (Expr ''maximumAbove'' etFunc (Fin 0) [] [nameE ''Z'', constE (Fin 2)] ''Z,2'') 0 300 filterValues
       = Return [Some (mkSeries ''Z3'' [Fin 3] [False])]"
proof -
  have 1: "etype (nameE ''Z'') = etName \<or> etype (nameE ''Z'') = etFunc" by (simp add: nameE_def)
  have 2: "etype (constE (Fin 2)) = etConst" by (simp add: constE_def)
  have 3: "evalExpr noExt hourInterval (nameE ''Z'') 0 300 filterValues
       = Return (map Some
        [mkSeries ''Z1'' [Fin 2] [False], mkSeries ''Z2'' [Fin 1] [True],
         mkSeries ''Z3'' [Fin 3] [False]])"
    by (simp add: evalExpr.simps nameE_def filterValues_def namedMetrics_def lookup_def)
  have 4: "\<forall>a\<in>set [mkSeries ''Z1'' [Fin 2] [False], mkSeries ''Z2'' [Fin 1] [True],
         mkSeries ''Z3'' [Fin 3] [False]].
         length (Values a) \<le> length (IsAbsent a)"
    by (simp add: mkSeries_def)
  have k: "keeps ''maximumBelow'' (present [Fin 2] [False]) (Fin 2)"
    "keeps ''maximumBelow'' (present [Fin 1] [True]) (Fin 2)"
    "\<not> keeps ''maximumBelow'' (present [Fin 3] [False]) (Fin 2)"
    "\<not> keeps ''maximumAbove'' (present [Fin 2] [False]) (Fin 2)"
    "\<not> keeps ''maximumAbove'' (present [Fin 1] [True]) (Fin 2)"
    "keeps ''maximumAbove'' (present [Fin 3] [False]) (Fin 2)"
    by (simp_all add: keeps_def present_def maxOf_def fle_def flt_def feq_def fgt_def)
  have 5: "evalExpr noExt hourInterval
         (Expr ''maximumBelow'' etFunc (Fin 0) [] [nameE ''Z'', constE (Fin 2)] ''Z,2'') 0 300 filterValues
       = Return [Some (mkSeries ''Z1'' [Fin 2] [False]), Some (mkSeries ''Z2'' [Fin 1] [True])]"
    using C4_value_filters [of "''maximumBelow''" "nameE ''Z''" "constE (Fin 2)" noExt hourInterval
        0 300 filterValues "[mkSeries ''Z1'' [Fin 2] [False], mkSeries ''Z2'' [Fin 1] [True],
         mkSeries ''Z3'' [Fin 3] [False]]" "Fin 0" "[]" "''Z,2''"] 1 2 3 4 k
    by (simp add: mkSeries_def constE_def)
  have 6: "evalExpr noExt hourInterval
         (Expr ''maximumAbove'' etFunc (Fin 0) [] [nameE ''Z'', constE (Fin 2)] ''Z,2'') 0 300 filterValues
       = Return [Some (mkSeries ''Z3'' [Fin 3] [False])]"
    using C4_value_filters [of "''maximumAbove''" "nameE ''Z''" "constE (Fin 2)" noExt hourInterval
        0 300 filterValues "[mkSeries ''Z1'' [Fin 2] [False], mkSeries ''Z2'' [Fin 1] [True],
         mkSeries ''Z3'' [Fin 3] [False]]" "Fin 0" "[]" "''Z,2''"] 1 2 3 4 k
    by (simp add: mkSeries_def constE_def)
  have 7: "length (Values (mkSeries ''Z1'' [Fin 2] [False])) \<le> length (IsAbsent (mkSeries ''Z1'' [Fin 2] [False]))"
    "length (Values (mkSeries ''Z2'' [Fin 1] [True])) \<le> length (IsAbsent (mkSeries ''Z2'' [Fin 1] [True]))"
    "length (Values (mkSeries ''Z3'' [Fin 3] [False])) \<le> length (IsAbsent (mkSeries ''Z3'' [Fin 3] [False]))"
    by (simp_all add: mkSeries_def)
  from 1 2 3 5 6 7 show ?thesis by (intro conjI)
qed

text \<open>The copy \<^verbatim>\<open>forEachSeriesDo\<close> hands to the transform of a series.\<close>

definition freshCopy :: "string \<Rightarrow> metricData \<Rightarrow> metricData" where
  "freshCopy tg a = a\<lparr>Name := Some (tg @ ''('' @ GetName a @ '')''),
                      Values := replicate (length (Values a)) (Fin 0),
                      IsAbsent := replicate (length (Values a)) False\<rparr>"

lemma forEachSeriesDo_total:
  assumes ty: "etype (args e ! 0) = etName \<or> etype (args e ! 0) = etFunc"
    and ev: "ev (args e ! 0) = Return ys"
    and each: "\<And>p. p \<in> set ys \<Longrightarrow> \<exists>y. p = Some y \<and> function y (freshCopy (target e) y) = Return (g y)"
  shows "forEachSeriesDo ev e function = Return (map (map_option g) ys)"
proof -
  have loop: "forRange i ps
         (\<lambda>_ p results. obind (deref p) (\<lambda>a.
            let r = a\<lparr>Name := Some (target e @ ''('' @ GetName a @ '')''),
                      Values := replicate (length (Values a)) (Fin 0),
                      IsAbsent := replicate (length (Values a)) False\<rparr>
            in obind (function a r) (\<lambda>r'. Return (results @ [Some r']))))
         acc = Return (acc @ map (map_option g) ps)"
    if "set ps \<subseteq> set ys" for i ps acc
    using that
  proof (induction ps arbitrary: i acc)
    case Nil
    show ?case by simp
  next
    case (Cons p ps)
    from Cons.prems each [of p] obtain y where y: "p = Some y"
      "function y (freshCopy (target e) y) = Return (g y)" by auto
    show ?case using Cons.IH [of "Suc i" "acc @ [Some (g y)]"] Cons.prems y
      by (simp add: deref_def freshCopy_def Let_def)
  qed
  show ?thesis
    using ty ev loop [of ys 0 "[]"]
    by (auto simp: forEachSeriesDo_def getSeriesArg_def orNil_def)
qed

lemma forEachSeriesDo_partial:
  assumes r: "forEachSeriesDo ev e function = Return ys"
    and q: "\<And>a y. function a (freshCopy (target e) a) = Return y \<Longrightarrow> Q y"
  shows "\<forall>p\<in>set ys. \<exists>y. p = Some y \<and> Q y"
proof -
  define body where "body = (\<lambda>(_ :: nat) (p :: series) results. obind (deref p) (\<lambda>a.
            let r = a\<lparr>Name := Some (target e @ ''('' @ GetName a @ '')''),
                      Values := replicate (length (Values a)) (Fin 0),
                      IsAbsent := replicate (length (Values a)) False\<rparr>
            in obind (function a r) (\<lambda>r'. Return (results @ [Some r']))))"
  have step: "\<forall>p\<in>set s'. \<exists>y. p = Some y \<and> Q y"
    if "\<forall>p\<in>set s. \<exists>y. p = Some y \<and> Q y" and "body i x s = Return s'" for i x s s'
    using that q
    by (auto simp: body_def deref_def Let_def obind_Return_iff freshCopy_def split: option.splits)
  have inv: "\<forall>p\<in>set out. \<exists>y. p = Some y \<and> Q y"
    if "forRange 0 arg body [] = Return out" for arg out
    using forRange_partial [of 0 arg body "[]" out "\<lambda>_ s. \<forall>p\<in>set s. \<exists>y. p = Some y \<and> Q y"] that step
    by simp
  show ?thesis
  proof (cases "getSeriesArg ev (args e ! 0)")
    case Panic
    with r show ?thesis by (simp add: forEachSeriesDo_def)
  next
    case (Return res)
    show ?thesis
    proof (cases res)
      case (Inl err)
      with r Return show ?thesis by (simp add: forEachSeriesDo_def orNil_def)
    next
      case (Inr arg)
      with r Return have "forRange 0 arg body [] = Return ys"
        by (simp add: forEachSeriesDo_def orNil_def body_def)
      then show ?thesis by (rule inv)
    qed
  qed
qed


lemma take_Suc_replicate_upd:
  assumes "j < length xs"
  shows "(take j xs @ replicate (length xs - j) z)[j := xs ! j]
         = take (Suc j) xs @ replicate (length xs - Suc j) z"
proof -
  have "length xs - j = Suc (length xs - Suc j)" using assms by simp
  then have "(take j xs @ replicate (length xs - j) z)[j := xs ! j]
      = take j xs @ (z # replicate (length xs - Suc j) z)[0 := xs ! j]"
    using assms by (simp add: list_update_append)
  also have "\<dots> = take j xs @ [xs ! j] @ replicate (length xs - Suc j) z" by simp
  also have "\<dots> = take (Suc j) xs @ replicate (length xs - Suc j) z"
    using assms by (simp add: take_Suc_conv_app_nth)
  finally show ?thesis .
qed

lemma take_Suc_replicate_same:
  assumes "j < length xs" "xs ! j = z"
  shows "take j xs @ replicate (length xs - j) z
         = take (Suc j) xs @ replicate (length xs - Suc j) z"
proof -
  have "length xs - j = Suc (length xs - Suc j)" using assms by simp
  then show ?thesis using assms by (simp add: take_Suc_conv_app_nth)
qed

text \<open>What \<open>absolute\<close> guarantees of each series it returns.\<close>

definition absoluteShape :: "metricData \<Rightarrow> bool" where
  "absoluteShape y \<longleftrightarrow>
     length (IsAbsent y) = length (Values y)
     \<and> (\<forall>i<length (Values y).
           (IsAbsent y ! i \<longrightarrow> Values y ! i = Fin 0)
           \<and> (\<not> IsAbsent y ! i \<longrightarrow> fabs (Values y ! i) = Values y ! i))"

lemma fabs_idem: "fabs (fabs v) = fabs v"
  by (cases v) simp_all

lemma absolute_fn_shape:
  assumes "absolute_fn a (freshCopy tg a) = Return y"
  shows "absoluteShape y"
proof -
  define n where "n = length (Values a)"
  define P where "P = (\<lambda>j (r :: metricData).
      length (Values r) = n \<and> length (IsAbsent r) = n
      \<and> (\<forall>i<n. (IsAbsent r ! i \<longrightarrow> Values r ! i = Fin 0)
                 \<and> (\<not> IsAbsent r ! i \<longrightarrow> fabs (Values r ! i) = Values r ! i))
      \<and> (\<forall>i. j \<le> i \<and> i < n \<longrightarrow> \<not> IsAbsent r ! i))"
  have "P (length (Values a)) y"
  proof (rule forRange_partial [OF assms [unfolded absolute_fn_def], of P])
    show "P 0 (freshCopy tg a)" by (simp add: P_def freshCopy_def n_def)
  next
    fix j s s'
    assume j: "j < length (Values a)" and p: "P j s"
      and b: "obind (elemAt (IsAbsent a) (0 + j)) (\<lambda>ab.
          if ab then Return (s\<lparr>Values := (Values s)[0 + j := Fin 0], IsAbsent := (IsAbsent s)[0 + j := True]\<rparr>)
          else Return (s\<lparr>Values := (Values s)[0 + j := fabs (Values a ! j)]\<rparr>)) = Return s'"
    from b obtain ab where ab: "elemAt (IsAbsent a) j = Return ab"
      and s': "s' = (if ab then s\<lparr>Values := (Values s)[j := Fin 0], IsAbsent := (IsAbsent s)[j := True]\<rparr>
                     else s\<lparr>Values := (Values s)[j := fabs (Values a ! j)]\<rparr>)"
      by (auto simp: obind_Return_iff split: if_splits)
    from p j show "P (Suc j) s'"
      unfolding s' by (auto simp: P_def n_def nth_list_update fabs_idem)
  qed
  then show ?thesis by (simp add: P_def absoluteShape_def n_def)
qed

lemma absolute_fn_again:
  assumes sh: "absoluteShape y"
  shows "absolute_fn y (freshCopy tg y) = Return (y\<lparr>Name := Some (tg @ ''('' @ GetName y @ '')'')\<rparr>)"
proof -
  define n where "n = length (Values y)"
  define r0 where "r0 = freshCopy tg y"
  define P where "P = (\<lambda>j (r :: metricData).
      r = r0\<lparr>Values := take j (Values y) @ replicate (n - j) (Fin 0),
             IsAbsent := take j (IsAbsent y) @ replicate (n - j) False\<rparr>)"
  define body where "body = (\<lambda>i v (r :: metricData). obind (elemAt (IsAbsent y) i) (\<lambda>ab.
          if ab then Return (r\<lparr>Values := (Values r)[i := Fin 0], IsAbsent := (IsAbsent r)[i := True]\<rparr>)
          else Return (r\<lparr>Values := (Values r)[i := fabs v]\<rparr>)))"
  have la: "length (IsAbsent y) = n" using sh by (simp add: absoluteShape_def n_def)
  have init: "P 0 r0" by (simp add: P_def r0_def freshCopy_def n_def)
  have step: "\<exists>s'. body (0 + j) (Values y ! j) s = Return s' \<and> P (Suc j) s'"
    if j: "j < length (Values y)" and p: "P j s" for j s
  proof -
    have e: "elemAt (IsAbsent y) j = Return (IsAbsent y ! j)" using j la by (simp add: elemAt_def n_def)
    have jn: "j < n" using j by (simp add: n_def)
    show ?thesis
    proof (cases "IsAbsent y ! j")
      case True
      then have v0: "Values y ! j = Fin 0" using sh j by (simp add: absoluteShape_def)
      have 1: "(take j (Values y) @ replicate (n - j) (Fin 0))[j := Fin 0]
          = take (Suc j) (Values y) @ replicate (n - Suc j) (Fin 0)"
        using take_Suc_replicate_upd [OF j, of "Fin 0"] v0 by (simp add: n_def)
      have 2: "(take j (IsAbsent y) @ replicate (n - j) False)[j := True]
          = take (Suc j) (IsAbsent y) @ replicate (n - Suc j) False"
        using take_Suc_replicate_upd [of j "IsAbsent y" False] True jn la by simp
      show ?thesis using p True by (simp add: body_def e P_def 1 2)
    next
      case False
      then have v: "fabs (Values y ! j) = Values y ! j" using sh j by (simp add: absoluteShape_def)
      have 1: "(take j (Values y) @ replicate (n - j) (Fin 0))[j := Values y ! j]
          = take (Suc j) (Values y) @ replicate (n - Suc j) (Fin 0)"
        using take_Suc_replicate_upd [OF j, of "Fin 0"] by (simp add: n_def)
      have 2: "take j (IsAbsent y) @ replicate (n - j) False
          = take (Suc j) (IsAbsent y) @ replicate (n - Suc j) False"
        using take_Suc_replicate_same [of j "IsAbsent y" False] False jn la by simp
      show ?thesis using p False by (simp add: body_def e P_def v 1 2 [symmetric])
    qed
  qed
  from forRange_total [of P r0 "Values y" body 0, OF init step]
  have "forRange 0 (Values y) body r0 = Return (r0\<lparr>Values := Values y, IsAbsent := IsAbsent y\<rparr>)"
    using la by (auto simp: P_def n_def)
  moreover have "r0\<lparr>Values := Values y, IsAbsent := IsAbsent y\<rparr>
      = y\<lparr>Name := Some (tg @ ''('' @ GetName y @ '')'')\<rparr>"
    by (simp add: r0_def freshCopy_def)
  ultimately show ?thesis by (simp add: absolute_fn_def body_def r0_def)
qed


lemma isNonNull_fn_shape:
  assumes "isNonNull_fn a (freshCopy tg a) = Return y"
  shows "length (Values y) = length (Values a) \<and> IsAbsent y = replicate (length (Values a)) False"
proof -
  define n where "n = length (Values a)"
  define P where "P = (\<lambda>(j :: nat) (r :: metricData).
      length (Values r) = n \<and> IsAbsent r = replicate n False)"
  have "P (length (Values a)) y"
  proof (rule forRange_partial [OF assms [unfolded isNonNull_fn_def], of P])
    show "P 0 (freshCopy tg a)" by (simp add: P_def freshCopy_def n_def)
  next
    fix j s s'
    assume j: "j < length (Values a)" and p: "P j s"
      and b: "(let r = s\<lparr>IsAbsent := (IsAbsent s)[0 + j := False]\<rparr>
          in obind (elemAt (IsAbsent a) (0 + j)) (\<lambda>ab.
               if ab then Return (r\<lparr>Values := (Values r)[0 + j := Fin 0]\<rparr>)
               else Return (r\<lparr>Values := (Values r)[0 + j := Fin 1]\<rparr>))) = Return s'"
    have same: "(replicate n False)[j := False] = replicate n False"
      using j by (simp add: list_update_same_conv n_def)
    from b p show "P (Suc j) s'"
      by (auto simp: P_def Let_def obind_Return_iff same split: if_splits)
  qed
  then show ?thesis by (simp add: P_def n_def)
qed

lemma replicate_Suc_upd:
  assumes "j < n"
  shows "(replicate j (a :: 'a) @ replicate (n - j) z)[j := a] = replicate (Suc j) a @ replicate (n - Suc j) z"
proof -
  have "n - j = Suc (n - Suc j)" using assms by simp
  then show ?thesis by (simp add: list_update_append replicate_append_same)
qed

lemma isNonNull_fn_again:
  assumes sh: "IsAbsent y = replicate (length (Values y)) False"
  shows "isNonNull_fn y (freshCopy tg y)
         = Return (y\<lparr>Name := Some (tg @ ''('' @ GetName y @ '')''),
                      Values := replicate (length (Values y)) (Fin 1)\<rparr>)"
proof -
  define n where "n = length (Values y)"
  define r0 where "r0 = freshCopy tg y"
  define P where "P = (\<lambda>j (r :: metricData).
      r = r0\<lparr>Values := replicate j (Fin 1) @ replicate (n - j) (Fin 0)\<rparr>)"
  define body where "body = (\<lambda>i (_ :: float64) (r :: metricData).
          let r = r\<lparr>IsAbsent := (IsAbsent r)[i := False]\<rparr>
          in obind (elemAt (IsAbsent y) i) (\<lambda>ab.
               if ab then Return (r\<lparr>Values := (Values r)[i := Fin 0]\<rparr>)
               else Return (r\<lparr>Values := (Values r)[i := Fin 1]\<rparr>)))"
  have ia: "IsAbsent r0 = replicate n False" by (simp add: r0_def freshCopy_def n_def)
  have init: "P 0 r0" by (simp add: P_def r0_def freshCopy_def n_def)
  have step: "\<exists>s'. body (0 + j) (Values y ! j) s = Return s' \<and> P (Suc j) s'"
    if j: "j < length (Values y)" and p: "P j s" for j s
  proof -
    have jn: "j < n" using j by (simp add: n_def)
    have e: "elemAt (IsAbsent y) j = Return False" using j sh by (simp add: elemAt_def)
    have same: "(replicate n False)[j := False] = replicate n False"
      using jn by (simp add: list_update_same_conv)
    show ?thesis using p
      by (simp add: body_def e P_def Let_def ia same replicate_Suc_upd [OF jn])
  qed
  from forRange_total [of P r0 "Values y" body 0, OF init step]
  have "forRange 0 (Values y) body r0 = Return (r0\<lparr>Values := replicate n (Fin 1)\<rparr>)"
    by (auto simp: P_def n_def)
  moreover have "r0\<lparr>Values := replicate n (Fin 1)\<rparr>
      = y\<lparr>Name := Some (tg @ ''('' @ GetName y @ '')''), Values := replicate (length (Values y)) (Fin 1)\<rparr>"
    using sh by (simp add: r0_def freshCopy_def n_def)
  ultimately show ?thesis by (simp add: isNonNull_fn_def body_def r0_def)
qed


lemma applied_twice:
  fixes fn :: "metricData \<Rightarrow> metricData \<Rightarrow> metricData outcome"
  assumes e1: "ev e1 = forEachSeriesDo ev e1' fn"
    and ty: "etype e1 = etFunc" and a0: "args e2 ! 0 = e1"
    and shape: "\<And>a y. fn a (freshCopy (target e1') a) = Return y \<Longrightarrow> Q y"
    and again: "\<And>y. Q y \<Longrightarrow> fn y (freshCopy (target e2) y) = Return (g y)"
  shows "forEachSeriesDo ev e2 fn = obind (ev e1) (\<lambda>ys. Return (map (map_option g) ys))"
proof (cases "ev e1")
  case Panic
  then show ?thesis using ty a0 by (simp add: forEachSeriesDo_def getSeriesArg_def)
next
  case (Return ys)
  have "\<forall>p\<in>set ys. \<exists>y. p = Some y \<and> Q y"
    using forEachSeriesDo_partial [of ev e1' fn ys Q] e1 Return shape by simp
  then have each: "\<And>p. p \<in> set ys \<Longrightarrow> \<exists>y. p = Some y \<and> fn y (freshCopy (target e2) y) = Return (g y)"
    using again by blast
  have "forEachSeriesDo ev e2 fn = Return (map (map_option g) ys)"
    by (rule forEachSeriesDo_total) (use ty a0 Return each in simp_all)
  then show ?thesis using Return by simp
qed



lemma isNonNull_fn_shape':
  "isNonNull_fn a (freshCopy tg a) = Return y \<Longrightarrow> IsAbsent y = replicate (length (Values y)) False"
  using isNonNull_fn_shape [of a tg y] by simp

text \<open>
  C5 (amended).  \<open>alias\<close> is idempotent: \<open>alias(alias(x, "a"), "a")\<close> evaluates to
  exactly what \<open>alias(x, "a")\<close> evaluates to.  \<open>absolute\<close> is idempotent on values and
  absence flags only: \<open>absolute(absolute(x))\<close> returns the series of \<open>absolute(x)\<close> with
  every name wrapped once more in \<open>absolute(...)\<close>.  \<open>isNonNull(isNonNull(x))\<close> returns
  the series of \<open>isNonNull(x)\<close> with the same absence flags, every name wrapped once more
  in \<open>isNonNull(...)\<close> and every value \<open>1\<close>, which is the value of \<open>isNonNull(x)\<close> only
  where \<open>x\<close> is present.  A panic of the inner evaluation is a panic of the outer one.
\<close>

theorem C5_idempotence_amended:
  "(etype s1 = etString \<and> etype s2 = etString \<and> valStr s1 = valStr s2 \<longrightarrow>
      evalExpr ext iS (Expr ''alias'' etFunc v2 vs2 [Expr ''alias'' etFunc v1 vs1 [x, s1] astr1, s2] astr2)
        from until values
      = evalExpr ext iS (Expr ''alias'' etFunc v1 vs1 [x, s1] astr1) from until values)
   \<and> evalExpr ext iS (Expr ''absolute'' etFunc v2 vs2 [Expr ''absolute'' etFunc v1 vs1 [x] astr1] astr2)
        from until values
      = obind (evalExpr ext iS (Expr ''absolute'' etFunc v1 vs1 [x] astr1) from until values)
          (\<lambda>ys. Return (map (map_option
             (\<lambda>y. y\<lparr>Name := Some (''absolute('' @ GetName y @ '')'')\<rparr>)) ys))
   \<and> evalExpr ext iS (Expr ''isNonNull'' etFunc v2 vs2 [Expr ''isNonNull'' etFunc v1 vs1 [x] astr1] astr2)
        from until values
      = obind (evalExpr ext iS (Expr ''isNonNull'' etFunc v1 vs1 [x] astr1) from until values)
          (\<lambda>ys. Return (map (map_option
             (\<lambda>y. y\<lparr>Name := Some (''isNonNull('' @ GetName y @ '')''),
                      Values := replicate (length (Values y)) (Fin 1)\<rparr>)) ys))"
proof (intro conjI impI)
  let ?ev = "\<lambda>a. evalExpr ext iS a from until values"
  assume s: "etype s1 = etString \<and> etype s2 = etString \<and> valStr s1 = valStr s2"
  let ?e1 = "Expr ''alias'' etFunc v1 vs1 [x, s1] astr1"
  have in1: "?ev ?e1 = obind (getSeriesArg ?ev x) (\<lambda>res. orNil res (aliasSeries (valStr s1)))"
    using s by (simp add: evalExpr.simps [of ext iS "''alias''"] getStringArg_def orNil_def Let_def)
  have out: "evalExpr ext iS (Expr ''alias'' etFunc v2 vs2 [?e1, s2] astr2) from until values
      = obind (getSeriesArg ?ev ?e1) (\<lambda>res. orNil res (aliasSeries (valStr s1)))"
    using s by (simp add: evalExpr.simps [of ext iS "''alias''" _ _ _ "[?e1, s2]"] getStringArg_def
        orNil_def Let_def)
  have shape: "?ev ?e1 = Panic \<or> ?ev ?e1 = Return []
      \<or> (\<exists>r. ?ev ?e1 = Return [Some (r\<lparr>Name := Some (valStr s1)\<rparr>)])"
    unfolding in1
    by (cases "getSeriesArg ?ev x")
      (auto simp: orNil_def aliasSeries_def elemAt_def deref_def split: sum.splits option.splits)
  from shape show "evalExpr ext iS (Expr ''alias'' etFunc v2 vs2 [?e1, s2] astr2) from until values
      = ?ev ?e1"
    unfolding out
    by (auto simp: getSeriesArg_def orNil_def aliasSeries_def elemAt_def deref_def)
next
  let ?ev = "\<lambda>a. evalExpr ext iS a from until values"
  let ?e1 = "Expr ''absolute'' etFunc v1 vs1 [x] astr1"
  let ?e2 = "Expr ''absolute'' etFunc v2 vs2 [?e1] astr2"
  have 1: "?ev ?e1 = forEachSeriesDo ?ev ?e1 absolute_fn"
    by (simp add: evalExpr.simps [of ext iS "''absolute''"] Let_def)
  have 2: "?ev ?e2 = forEachSeriesDo ?ev ?e2 absolute_fn"
    by (simp add: evalExpr.simps [of ext iS "''absolute''" _ _ _ "[?e1]"] Let_def)
  show "?ev ?e2 = obind (?ev ?e1) (\<lambda>ys. Return (map (map_option
             (\<lambda>y. y\<lparr>Name := Some (''absolute('' @ GetName y @ '')'')\<rparr>)) ys))"
    unfolding 2
    by (rule applied_twice [where Q = absoluteShape and ?e1' = ?e1, OF 1, simplified])
      (simp_all add: absolute_fn_shape absolute_fn_again)
next
  let ?ev = "\<lambda>a. evalExpr ext iS a from until values"
  let ?e1 = "Expr ''isNonNull'' etFunc v1 vs1 [x] astr1"
  let ?e2 = "Expr ''isNonNull'' etFunc v2 vs2 [?e1] astr2"
  have 1: "?ev ?e1 = forEachSeriesDo ?ev ?e1 isNonNull_fn"
    by (simp add: evalExpr.simps [of ext iS "''isNonNull''"] Let_def)
  have 2: "?ev ?e2 = forEachSeriesDo ?ev ?e2 isNonNull_fn"
    by (simp add: evalExpr.simps [of ext iS "''isNonNull''" _ _ _ "[?e1]"] Let_def)
  show "?ev ?e2 = obind (?ev ?e1) (\<lambda>ys. Return (map (map_option
             (\<lambda>y. y\<lparr>Name := Some (''isNonNull('' @ GetName y @ '')''),
                      Values := replicate (length (Values y)) (Fin 1)\<rparr>)) ys))"
    unfolding 2
    by (rule applied_twice [where Q = "\<lambda>y. IsAbsent y = replicate (length (Values y)) False"
          and ?e1' = ?e1, OF 1, simplified])
      (simp_all add: isNonNull_fn_again isNonNull_fn_shape')
qed


theorem C5_idempotence_amended_witness:
  "etype (stringE ''a'') = etString \<and> valStr (stringE ''a'') = valStr (stringE ''a'')
   \<and> evalExpr noExt hourInterval
        (Expr ''alias'' etFunc (Fin 0) []
           [Expr ''alias'' etFunc (Fin 0) [] [nameE ''G'', stringE ''a''] ''G,a'', stringE ''a'']
           ''alias(G,a),a'') 0 300 gapValues
      = evalExpr noExt hourInterval
          (Expr ''alias'' etFunc (Fin 0) [] [nameE ''G'', stringE ''a''] ''G,a'') 0 300 gapValues
   \<and> evalExpr noExt hourInterval
          (Expr ''alias'' etFunc (Fin 0) [] [nameE ''G'', stringE ''a''] ''G,a'') 0 300 gapValues
      = Return [Some (mkSeries ''a'' [Fin 5, Fin (- 1)] [True, False])]"
proof -
  have 1: "etype (stringE ''a'') = etString" by (simp add: stringE_def)
  have 2: "evalExpr noExt hourInterval
          (Expr ''alias'' etFunc (Fin 0) [] [nameE ''G'', stringE ''a''] ''G,a'') 0 300 gapValues
      = Return [Some (mkSeries ''a'' [Fin 5, Fin (- 1)] [True, False])]"
    by (simp add: run_simps gapValues_def namedMetrics_def stringE_def getStringArg_def
        aliasSeries_def)
  from C5_idempotence_amended [of "stringE ''a''" "stringE ''a''" noExt hourInterval "Fin 0" "[]"
      "Fin 0" "[]" "nameE ''G''" "''G,a''" "''alias(G,a),a''" 0 300 gapValues] 1
  have "evalExpr noExt hourInterval
        (Expr ''alias'' etFunc (Fin 0) []
           [Expr ''alias'' etFunc (Fin 0) [] [nameE ''G'', stringE ''a''] ''G,a'', stringE ''a'']
           ''alias(G,a),a'') 0 300 gapValues
      = evalExpr noExt hourInterval
          (Expr ''alias'' etFunc (Fin 0) [] [nameE ''G'', stringE ''a''] ''G,a'') 0 300 gapValues"
    by simp
  with 1 2 show ?thesis by simp
qed

text \<open>
  C5, as stated, fails for \<open>isNonNull\<close> and for \<open>absolute\<close>.  On the series \<open>G\<close> whose
  first sample is absent, \<open>isNonNull(isNonNull(G))\<close> has the values \<open>1, 1\<close> where
  \<open>isNonNull(G)\<close> has \<open>0, 1\<close>, and both second applications wrap the name once more.
\<close>

theorem C5_idempotence_counterexample:
  "evalExpr noExt hourInterval (funcE ''isNonNull'' [nameE ''G''] ''G'') 0 300 gapValues
     = Return [Some (mkSeries ''isNonNull(G)'' [Fin 0, Fin 1] [False, False])]
   \<and> evalExpr noExt hourInterval
        (funcE ''isNonNull'' [funcE ''isNonNull'' [nameE ''G''] ''G''] ''isNonNull(G)'') 0 300 gapValues
     = Return [Some (mkSeries ''isNonNull(isNonNull(G))'' [Fin 1, Fin 1] [False, False])]
   \<and> evalExpr noExt hourInterval (funcE ''absolute'' [nameE ''G''] ''G'') 0 300 gapValues
     = Return [Some (mkSeries ''absolute(G)'' [Fin 0, Fin 1] [True, False])]
   \<and> evalExpr noExt hourInterval
        (funcE ''absolute'' [funcE ''absolute'' [nameE ''G''] ''G''] ''absolute(G)'') 0 300 gapValues
     = Return [Some (mkSeries ''absolute(absolute(G))'' [Fin 0, Fin 1] [True, False])]
   \<and> evalExpr noExt hourInterval
        (funcE ''isNonNull'' [funcE ''isNonNull'' [nameE ''G''] ''G''] ''isNonNull(G)'') 0 300 gapValues
     \<noteq> evalExpr noExt hourInterval (funcE ''isNonNull'' [nameE ''G''] ''G'') 0 300 gapValues
   \<and> evalExpr noExt hourInterval
        (funcE ''absolute'' [funcE ''absolute'' [nameE ''G''] ''G''] ''absolute(G)'') 0 300 gapValues
     \<noteq> evalExpr noExt hourInterval (funcE ''absolute'' [nameE ''G''] ''G'') 0 300 gapValues"
proof -
  have e: "evalExpr noExt hourInterval (funcE ''isNonNull'' [nameE ''G''] ''G'') 0 300 gapValues
     = Return [Some (mkSeries ''isNonNull(G)'' [Fin 0, Fin 1] [False, False])]"
    "evalExpr noExt hourInterval
        (funcE ''isNonNull'' [funcE ''isNonNull'' [nameE ''G''] ''G''] ''isNonNull(G)'') 0 300 gapValues
     = Return [Some (mkSeries ''isNonNull(isNonNull(G))'' [Fin 1, Fin 1] [False, False])]"
    "evalExpr noExt hourInterval (funcE ''absolute'' [nameE ''G''] ''G'') 0 300 gapValues
     = Return [Some (mkSeries ''absolute(G)'' [Fin 0, Fin 1] [True, False])]"
    "evalExpr noExt hourInterval
        (funcE ''absolute'' [funcE ''absolute'' [nameE ''G''] ''G''] ''absolute(G)'') 0 300 gapValues
     = Return [Some (mkSeries ''absolute(absolute(G))'' [Fin 0, Fin 1] [True, False])]"
    by (simp_all add: run_simps gapValues_def namedMetrics_def forEachSeriesDo_def isNonNull_fn_def
        absolute_fn_def)
  show ?thesis unfolding e by (simp add: mkSeries_def)
qed

text \<open>
  The float sum, from \<open>0.0\<close> and in index order, of the samples before index \<open>i\<close> that
  are not absent: the variable \<^verbatim>\<open>current\<close> of \<open>integral\<close> on entry to iteration \<open>i\<close>.
\<close>

definition runningSum :: "float64 list \<Rightarrow> bool list \<Rightarrow> nat \<Rightarrow> float64" where
  "runningSum vs ab i = foldl fadd (Fin 0) (present (take i vs) (take i ab))"

text \<open>The variable \<^verbatim>\<open>prev\<close> of \<open>derivative\<close> on entry to iteration \<open>i\<close>.\<close>

primrec derivPrev :: "float64 list \<Rightarrow> bool list \<Rightarrow> nat \<Rightarrow> float64" where
  "derivPrev vs ab 0 = vs ! 0"
| "derivPrev vs ab (Suc j) = (if j = 0 \<or> ab ! j then derivPrev vs ab j else vs ! j)"

lemma runningSum_0: "runningSum vs ab 0 = Fin 0"
  by (simp add: runningSum_def present_def)

lemma runningSum_Suc:
  assumes "j < length vs" "j < length ab"
  shows "runningSum vs ab (Suc j)
         = (if ab ! j then runningSum vs ab j else fadd (runningSum vs ab j) (vs ! j))"
  using assms by (simp add: runningSum_def present_take_Suc)

lemma integral_fn_total:
  fixes a :: metricData
  assumes wf: "length (Values a) \<le> length (IsAbsent a)"
  shows "\<exists>y. integral_fn a (freshCopy tg a) = Return y
           \<and> length (Values y) = length (Values a) \<and> length (IsAbsent y) = length (Values a)
           \<and> (\<forall>i<length (Values a).
                 IsAbsent y ! i = IsAbsent a ! i
                 \<and> Values y ! i = (if IsAbsent a ! i then Fin 0
                                    else runningSum (Values a) (IsAbsent a) (Suc i)))"
proof -
  define n where "n = length (Values a)"
  define P where "P = (\<lambda>j (rc :: metricData \<times> float64).
      length (Values (fst rc)) = n \<and> length (IsAbsent (fst rc)) = n
      \<and> snd rc = runningSum (Values a) (IsAbsent a) j
      \<and> (\<forall>i<j. IsAbsent (fst rc) ! i = IsAbsent a ! i
                 \<and> Values (fst rc) ! i = (if IsAbsent a ! i then Fin 0
                                    else runningSum (Values a) (IsAbsent a) (Suc i)))
      \<and> (\<forall>i. j \<le> i \<and> i < n \<longrightarrow> \<not> IsAbsent (fst rc) ! i))"
  define body where "body = (\<lambda>i v (rc :: metricData \<times> float64). case rc of (r, current) \<Rightarrow>
        obind (elemAt (IsAbsent a) i) (\<lambda>ab.
                 if ab then Return (r\<lparr>Values := (Values r)[i := Fin 0],
                                      IsAbsent := (IsAbsent r)[i := True]\<rparr>, current)
                 else let current = fadd current v
                      in Return (r\<lparr>Values := (Values r)[i := current]\<rparr>, current)))"
  have init: "P 0 (freshCopy tg a, Fin 0)"
    by (simp add: P_def freshCopy_def n_def runningSum_0)
  have step: "\<exists>s'. body (0 + j) (Values a ! j) s = Return s' \<and> P (Suc j) s'"
    if j: "j < length (Values a)" and p: "P j s" for j s
  proof -
    obtain r c where s: "s = (r, c)" by (cases s)
    have e: "elemAt (IsAbsent a) j = Return (IsAbsent a ! j)" using j wf by (simp add: elemAt_def)
    have rs: "runningSum (Values a) (IsAbsent a) (Suc j)
         = (if IsAbsent a ! j then runningSum (Values a) (IsAbsent a) j
            else fadd (runningSum (Values a) (IsAbsent a) j) (Values a ! j))"
      using j wf by (intro runningSum_Suc) simp_all
    have jn: "j < n" using j by (simp add: n_def)
    from p jn show ?thesis
      by (auto simp: body_def s e P_def Let_def rs less_Suc_eq nth_list_update)
  qed
  from forRange_total [of P "(freshCopy tg a, Fin 0)" "Values a" body 0, OF init step]
  obtain s' where s': "forRange 0 (Values a) body (freshCopy tg a, Fin 0) = Return s'"
    "P (length (Values a)) s'" by auto
  obtain y c where yc: "s' = (y, c)" by (cases s')
  have "integral_fn a (freshCopy tg a) = Return y"
    using s'(1) unfolding integral_fn_def body_def yc by (simp add: split_def)
  with s'(2) show ?thesis by (intro exI [of _ y]) (simp add: P_def yc n_def)
qed

lemma derivative_fn_total:
  fixes b :: metricData
  assumes wf: "length (Values b) \<le> length (IsAbsent b)" and ne: "Values b \<noteq> []"
  shows "\<exists>r. derivative_fn b (freshCopy tg b) = Return r
           \<and> length (Values r) = length (Values b) \<and> length (IsAbsent r) = length (Values b)
           \<and> (\<forall>i<length (Values b).
                 (IsAbsent r ! i \<longleftrightarrow> i = 0 \<or> IsAbsent b ! i)
                 \<and> (\<not> IsAbsent r ! i \<longrightarrow>
                      Values r ! i = fsub (Values b ! i) (derivPrev (Values b) (IsAbsent b) i)))"
proof -
  define n where "n = length (Values b)"
  define P where "P = (\<lambda>j (rp :: metricData \<times> float64).
      length (Values (fst rp)) = n \<and> length (IsAbsent (fst rp)) = n
      \<and> snd rp = derivPrev (Values b) (IsAbsent b) j
      \<and> (\<forall>i<j. (IsAbsent (fst rp) ! i \<longleftrightarrow> i = 0 \<or> IsAbsent b ! i)
                 \<and> (\<not> IsAbsent (fst rp) ! i \<longrightarrow>
                      Values (fst rp) ! i = fsub (Values b ! i) (derivPrev (Values b) (IsAbsent b) i)))
      \<and> (\<forall>i. j \<le> i \<and> i < n \<longrightarrow> \<not> IsAbsent (fst rp) ! i))"
  define body where "body = (\<lambda>i v (rp :: metricData \<times> float64). case rp of (r, prev) \<Rightarrow>
                   if i = 0 then Return (r\<lparr>IsAbsent := (IsAbsent r)[i := True]\<rparr>, prev)
                   else obind (elemAt (IsAbsent b) i) (\<lambda>ab.
                     if ab then Return (r\<lparr>IsAbsent := (IsAbsent r)[i := True]\<rparr>, prev)
                     else Return (r\<lparr>Values := (Values r)[i := fsub v prev]\<rparr>, v)))"
  have init: "P 0 (freshCopy tg b, Values b ! 0)"
    by (simp add: P_def freshCopy_def n_def)
  have step: "\<exists>s'. body (0 + j) (Values b ! j) s = Return s' \<and> P (Suc j) s'"
    if j: "j < length (Values b)" and p: "P j s" for j s
  proof -
    obtain r c where s: "s = (r, c)" by (cases s)
    have e: "elemAt (IsAbsent b) j = Return (IsAbsent b ! j)" using j wf by (simp add: elemAt_def)
    have jn: "j < n" using j by (simp add: n_def)
    from p jn show ?thesis
      by (auto simp: body_def s e P_def less_Suc_eq nth_list_update)
  qed
  from forRange_total [of P "(freshCopy tg b, Values b ! 0)" "Values b" body 0, OF init step]
  obtain s' where s': "forRange 0 (Values b) body (freshCopy tg b, Values b ! 0) = Return s'"
    "P (length (Values b)) s'" by auto
  obtain r c where rc: "s' = (r, c)" by (cases s')
  have "derivative_fn b (freshCopy tg b) = Return r"
    using s'(1) ne unfolding derivative_fn_def body_def rc by (simp add: split_def elemAt_def)
  with s'(2) show ?thesis by (intro exI [of _ r]) (simp add: P_def rc n_def)
qed


lemma derivPrev_runningSum:
  fixes y :: metricData
  assumes sh: "\<forall>i<n. IsAbsent y ! i = ab ! i
                 \<and> Values y ! i = (if ab ! i then Fin 0 else runningSum vs ab (Suc i))"
    and n: "n = length vs" "n \<le> length ab"
  shows "i < n \<Longrightarrow> derivPrev (Values y) (IsAbsent y) (Suc i) = runningSum vs ab (Suc i)"
proof (induction i)
  case 0
  then have l: "0 < length vs" "0 < length ab" using n by linarith+
  have rs: "runningSum vs ab (Suc 0) = (if ab ! 0 then Fin 0 else fadd (Fin 0) (vs ! 0))"
    using runningSum_Suc [OF l] by (simp add: runningSum_0)
  have y0: "Values y ! 0 = (if ab ! 0 then Fin 0 else runningSum vs ab (Suc 0))"
    using sh 0 by simp
  show ?case by (simp add: y0 rs)
next
  case (Suc i)
  then have i: "i < n" "Suc i < n" by simp_all
  have rs: "runningSum vs ab (Suc (Suc i))
      = (if ab ! Suc i then runningSum vs ab (Suc i) else fadd (runningSum vs ab (Suc i)) (vs ! Suc i))"
    using i n by (intro runningSum_Suc) simp_all
  show ?case using Suc.IH [OF i(1)] sh [rule_format, OF i(2)] by (simp add: rs)
qed

lemma sum_roundtrip:
  assumes "isFinite c" "isFinite x"
    and "round64 (fval c + fval x) = Fin (fval c + fval x)"
    and "round64 (fval x) = Fin (fval x)"
  shows "feq (fsub (fadd c x) c) x"
proof -
  have neg: "fval (fneg c) = - fval c" "fneg c \<noteq> NaN" "\<not> isInf (fneg c)"
    using assms(1) by (cases c; simp)+
  show ?thesis
  proof (cases "c = NegZero \<and> x = NegZero")
    case True
    then show ?thesis by (simp add: fadd_def fsub_def feq_def round64_def)
  next
    case False
    have "fadd c x = Fin (fval c + fval x)"
      using assms(1,2,3) False by (cases c; cases x; simp add: fadd_def)
    then have "fsub (fadd c x) c = Fin (fval x)"
      using neg assms(4) by (simp add: fsub_def fadd_def)
    then show ?thesis using assms(2) by (cases x; simp add: feq_def)
  qed
qed

text \<open>
  C6, amended.  Let \<open>x\<close> be a name or a call that evaluates to one series \<open>a\<close> with at
  least one value (and an absence flag for every value).  Then
  \<open>derivative(integral(x))\<close> returns one series of the same length, and at every index
  \<open>i \<ge> 1\<close> where \<open>a\<close> is not absent the result is not absent and its value is the
  float expression \<open>(c + a[i]) - c\<close>, where \<open>c\<close> is the running float sum of the samples
  of \<open>a\<close> before \<open>i\<close> that are not absent.  Where \<open>c\<close> and \<open>a[i]\<close> are finite doubles and
  the sum \<open>c + a[i]\<close> is a double (the addition does not round), that value equals
  \<open>a[i]\<close>.
\<close>

theorem C6_derivative_integral_amended:
  "(etype x = etName \<or> etype x = etFunc)
   \<and> evalExpr ext iS x from until values = Return [Some a]
   \<and> Values a \<noteq> [] \<and> length (Values a) \<le> length (IsAbsent a)
   \<longrightarrow> (\<exists>r. evalExpr ext iS
            (Expr ''derivative'' etFunc v2 vs2 [Expr ''integral'' etFunc v1 vs1 [x] astr1] astr2)
            from until values = Return [Some r]
          \<and> length (Values r) = length (Values a) \<and> length (IsAbsent r) = length (Values a)
          \<and> (\<forall>i<length (Values a). 1 \<le> i \<and> \<not> IsAbsent a ! i \<longrightarrow>
                \<not> IsAbsent r ! i
                \<and> Values r ! i
                    = fsub (fadd (runningSum (Values a) (IsAbsent a) i) (Values a ! i))
                           (runningSum (Values a) (IsAbsent a) i)
                \<and> (isFinite (runningSum (Values a) (IsAbsent a) i) \<and> isFinite (Values a ! i)
                     \<and> round64 (fval (runningSum (Values a) (IsAbsent a) i) + fval (Values a ! i))
                         = Fin (fval (runningSum (Values a) (IsAbsent a) i) + fval (Values a ! i))
                     \<and> round64 (fval (Values a ! i)) = Fin (fval (Values a ! i))
                     \<longrightarrow> feq (Values r ! i) (Values a ! i))))"
proof
  let ?ev = "\<lambda>a. evalExpr ext iS a from until values"
  let ?e1 = "Expr ''integral'' etFunc v1 vs1 [x] astr1"
  let ?e2 = "Expr ''derivative'' etFunc v2 vs2 [?e1] astr2"
  let ?vs = "Values a" and ?ab = "IsAbsent a"
  assume h: "(etype x = etName \<or> etype x = etFunc)
   \<and> evalExpr ext iS x from until values = Return [Some a]
   \<and> Values a \<noteq> [] \<and> length (Values a) \<le> length (IsAbsent a)"
  from h have ty: "etype x = etName \<or> etype x = etFunc" by (elim conjE)
  from h have ev: "evalExpr ext iS x from until values = Return [Some a]" by (elim conjE)
  from h have ne: "Values a \<noteq> []" by (elim conjE)
  from h have wf: "length (Values a) \<le> length (IsAbsent a)" by (elim conjE)
  from integral_fn_total [OF wf, of "''integral''"]
  obtain y where y: "integral_fn a (freshCopy ''integral'' a) = Return y"
    "length (Values y) = length ?vs" "length (IsAbsent y) = length ?vs"
    "\<forall>i<length ?vs. IsAbsent y ! i = ?ab ! i
         \<and> Values y ! i = (if ?ab ! i then Fin 0 else runningSum ?vs ?ab (Suc i))"
    by blast
  have ney: "Values y \<noteq> []" using y(2) ne by auto
  from derivative_fn_total [of y "''derivative''"] y(2,3) ney
  obtain r where r: "derivative_fn y (freshCopy ''derivative'' y) = Return r"
    "length (Values r) = length ?vs" "length (IsAbsent r) = length ?vs"
    "\<forall>i<length ?vs. (IsAbsent r ! i \<longleftrightarrow> i = 0 \<or> IsAbsent y ! i)
         \<and> (\<not> IsAbsent r ! i \<longrightarrow>
               Values r ! i = fsub (Values y ! i) (derivPrev (Values y) (IsAbsent y) i))"
    by auto
  have 1: "?ev ?e1 = Return [Some y]"
  proof -
    have "?ev ?e1 = forEachSeriesDo ?ev ?e1 integral_fn"
      by (simp add: evalExpr.simps [of ext iS "''integral''"] Let_def)
    also have "\<dots> = Return (map (map_option (\<lambda>_. y)) [Some a])"
      by (rule forEachSeriesDo_total) (use ty ev y(1) in simp_all)
    finally show ?thesis by simp
  qed
  have 2: "?ev ?e2 = Return [Some r]"
  proof -
    have "?ev ?e2 = forEachSeriesDo ?ev ?e2 derivative_fn"
      by (simp add: evalExpr.simps [of ext iS "''derivative''"] Let_def)
    also have "\<dots> = Return (map (map_option (\<lambda>_. r)) [Some y])"
      by (rule forEachSeriesDo_total) (use 1 r(1) in simp_all)
    finally show ?thesis by simp
  qed
  have pt: "\<not> IsAbsent r ! i
       \<and> Values r ! i = fsub (fadd (runningSum ?vs ?ab i) (?vs ! i)) (runningSum ?vs ?ab i)"
    if i: "i < length ?vs" "1 \<le> i" "\<not> ?ab ! i" for i
  proof -
    obtain j where j: "i = Suc j" using i(2) by (cases i) auto
    have jl: "j < length ?vs" using i(1) j by simp
    have p: "derivPrev (Values y) (IsAbsent y) i = runningSum ?vs ?ab i"
      unfolding j by (rule derivPrev_runningSum [OF y(4) refl wf jl])
    have yi: "IsAbsent y ! i = ?ab ! i" "Values y ! i = runningSum ?vs ?ab (Suc i)"
      using y(4) i by simp_all
    have rs: "runningSum ?vs ?ab (Suc i) = fadd (runningSum ?vs ?ab i) (?vs ! i)"
      using runningSum_Suc [of i ?vs ?ab] i wf by simp
    from r(4) [rule_format, OF i(1)] i(2,3) show ?thesis
      by (simp add: yi p rs)
  qed
  have "\<forall>i<length ?vs. 1 \<le> i \<and> \<not> ?ab ! i \<longrightarrow>
                \<not> IsAbsent r ! i
                \<and> Values r ! i = fsub (fadd (runningSum ?vs ?ab i) (?vs ! i)) (runningSum ?vs ?ab i)
                \<and> (isFinite (runningSum ?vs ?ab i) \<and> isFinite (?vs ! i)
                     \<and> round64 (fval (runningSum ?vs ?ab i) + fval (?vs ! i))
                         = Fin (fval (runningSum ?vs ?ab i) + fval (?vs ! i))
                     \<and> round64 (fval (?vs ! i)) = Fin (fval (?vs ! i))
                     \<longrightarrow> feq (Values r ! i) (?vs ! i))"
    using pt sum_roundtrip by auto
  with 2 r(2,3) show "\<exists>r. evalExpr ext iS
            (Expr ''derivative'' etFunc v2 vs2 [Expr ''integral'' etFunc v1 vs1 [x] astr1] astr2)
            from until values = Return [Some r]
          \<and> length (Values r) = length (Values a) \<and> length (IsAbsent r) = length (Values a)
          \<and> (\<forall>i<length (Values a). 1 \<le> i \<and> \<not> IsAbsent a ! i \<longrightarrow>
                \<not> IsAbsent r ! i
                \<and> Values r ! i
                    = fsub (fadd (runningSum (Values a) (IsAbsent a) i) (Values a ! i))
                           (runningSum (Values a) (IsAbsent a) i)
                \<and> (isFinite (runningSum (Values a) (IsAbsent a) i) \<and> isFinite (Values a ! i)
                     \<and> round64 (fval (runningSum (Values a) (IsAbsent a) i) + fval (Values a ! i))
                         = Fin (fval (runningSum (Values a) (IsAbsent a) i) + fval (Values a ! i))
                     \<and> round64 (fval (Values a ! i)) = Fin (fval (Values a ! i))
                     \<longrightarrow> feq (Values r ! i) (Values a ! i)))"
    by (intro exI [of _ r] conjI)
qed


theorem C6_derivative_integral_amended_witness:
  "((etype (nameE ''A'') = etName \<or> etype (nameE ''A'') = etFunc)
   \<and> evalExpr noExt hourInterval (nameE ''A'') 0 300 exampleValues
       = Return [Some (mkSeries ''A'' [Fin 4, Fin 6, Fin 1, Fin 5] [False, False, False, True])]
   \<and> Values (mkSeries ''A'' [Fin 4, Fin 6, Fin 1, Fin 5] [False, False, False, True]) \<noteq> []
   \<and> length (Values (mkSeries ''A'' [Fin 4, Fin 6, Fin 1, Fin 5] [False, False, False, True]))
       \<le> length (IsAbsent (mkSeries ''A'' [Fin 4, Fin 6, Fin 1, Fin 5] [False, False, False, True])))
   \<and> (\<exists>r. evalExpr noExt hourInterval
            (Expr ''derivative'' etFunc (Fin 0) []
               [Expr ''integral'' etFunc (Fin 0) [] [nameE ''A''] ''A''] ''integral(A)'')
            0 300 exampleValues = Return [Some r]
          \<and> length (Values r) = length (Values (mkSeries ''A'' [Fin 4, Fin 6, Fin 1, Fin 5] [False, False, False, True])) \<and> length (IsAbsent r) = length (Values (mkSeries ''A'' [Fin 4, Fin 6, Fin 1, Fin 5] [False, False, False, True]))
          \<and> (\<forall>i<length (Values (mkSeries ''A'' [Fin 4, Fin 6, Fin 1, Fin 5] [False, False, False, True])). 1 \<le> i \<and> \<not> IsAbsent (mkSeries ''A'' [Fin 4, Fin 6, Fin 1, Fin 5] [False, False, False, True]) ! i \<longrightarrow>
                \<not> IsAbsent r ! i
                \<and> Values r ! i
                    = fsub (fadd (runningSum (Values (mkSeries ''A'' [Fin 4, Fin 6, Fin 1, Fin 5] [False, False, False, True])) (IsAbsent (mkSeries ''A'' [Fin 4, Fin 6, Fin 1, Fin 5] [False, False, False, True])) i) (Values (mkSeries ''A'' [Fin 4, Fin 6, Fin 1, Fin 5] [False, False, False, True]) ! i))
                           (runningSum (Values (mkSeries ''A'' [Fin 4, Fin 6, Fin 1, Fin 5] [False, False, False, True])) (IsAbsent (mkSeries ''A'' [Fin 4, Fin 6, Fin 1, Fin 5] [False, False, False, True])) i)
                \<and> (isFinite (runningSum (Values (mkSeries ''A'' [Fin 4, Fin 6, Fin 1, Fin 5] [False, False, False, True])) (IsAbsent (mkSeries ''A'' [Fin 4, Fin 6, Fin 1, Fin 5] [False, False, False, True])) i) \<and> isFinite (Values (mkSeries ''A'' [Fin 4, Fin 6, Fin 1, Fin 5] [False, False, False, True]) ! i)
                     \<and> round64 (fval (runningSum (Values (mkSeries ''A'' [Fin 4, Fin 6, Fin 1, Fin 5] [False, False, False, True])) (IsAbsent (mkSeries ''A'' [Fin 4, Fin 6, Fin 1, Fin 5] [False, False, False, True])) i) + fval (Values (mkSeries ''A'' [Fin 4, Fin 6, Fin 1, Fin 5] [False, False, False, True]) ! i))
                         = Fin (fval (runningSum (Values (mkSeries ''A'' [Fin 4, Fin 6, Fin 1, Fin 5] [False, False, False, True])) (IsAbsent (mkSeries ''A'' [Fin 4, Fin 6, Fin 1, Fin 5] [False, False, False, True])) i) + fval (Values (mkSeries ''A'' [Fin 4, Fin 6, Fin 1, Fin 5] [False, False, False, True]) ! i))
                     \<and> round64 (fval (Values (mkSeries ''A'' [Fin 4, Fin 6, Fin 1, Fin 5] [False, False, False, True]) ! i)) = Fin (fval (Values (mkSeries ''A'' [Fin 4, Fin 6, Fin 1, Fin 5] [False, False, False, True]) ! i))
                     \<longrightarrow> feq (Values r ! i) (Values (mkSeries ''A'' [Fin 4, Fin 6, Fin 1, Fin 5] [False, False, False, True]) ! i))))"
proof -
  have h: "(etype (nameE ''A'') = etName \<or> etype (nameE ''A'') = etFunc)
   \<and> evalExpr noExt hourInterval (nameE ''A'') 0 300 exampleValues
       = Return [Some (mkSeries ''A'' [Fin 4, Fin 6, Fin 1, Fin 5] [False, False, False, True])]
   \<and> Values (mkSeries ''A'' [Fin 4, Fin 6, Fin 1, Fin 5] [False, False, False, True]) \<noteq> []
   \<and> length (Values (mkSeries ''A'' [Fin 4, Fin 6, Fin 1, Fin 5] [False, False, False, True]))
       \<le> length (IsAbsent (mkSeries ''A'' [Fin 4, Fin 6, Fin 1, Fin 5] [False, False, False, True]))"
    by (simp add: run_simps exampleValues_def namedMetrics_def)
  show ?thesis
    by (rule conjI [OF h mp [OF C6_derivative_integral_amended
          [of "nameE ''A''" noExt hourInterval 0 300 exampleValues
              "(mkSeries ''A'' [Fin 4, Fin 6, Fin 1, Fin 5] [False, False, False, True])"
              "Fin 0" "[]" "Fin 0" "[]" "''A''" "''integral(A)''"] h]])
qed

lemma round64_big: "round64 10000000000000000 = Fin 10000000000000000"
  by code_simp

lemma round64_big_succ: "round64 10000000000000001 = Fin 10000000000000000"
  by code_simp

text \<open>
  C6, as stated, fails where the running sum rounds.  On the series \<open>W\<close> with the two
  samples \<open>10\<^sup>1\<^sup>6\<close> and \<open>1\<close>, neither absent, \<open>integral(W)\<close> has the values
  \<open>10\<^sup>1\<^sup>6, 10\<^sup>1\<^sup>6\<close> (the sum \<open>10\<^sup>1\<^sup>6 + 1\<close> is halfway between two doubles and
  rounds to the even one), so \<open>derivative(integral(W))\<close> has the value \<open>0\<close>, not \<open>1\<close>, at
  index \<open>1\<close>.
\<close>

theorem C6_derivative_integral_counterexample:
  "evalExpr noExt hourInterval (nameE ''W'') 0 300 bigValues
     = Return [Some (mkSeries ''W'' [Fin 10000000000000000, Fin 1] [False, False])]
   \<and> evalExpr noExt hourInterval (funcE ''integral'' [nameE ''W''] ''W'') 0 300 bigValues
     = Return [Some (mkSeries ''integral(W)'' [Fin 10000000000000000, Fin 10000000000000000]
                       [False, False])]
   \<and> evalExpr noExt hourInterval
        (funcE ''derivative'' [funcE ''integral'' [nameE ''W''] ''W''] ''integral(W)'') 0 300 bigValues
     = Return [Some (mkSeries ''derivative(integral(W))'' [Fin 0, Fin 0] [True, False])]
   \<and> \<not> IsAbsent (mkSeries ''W'' [Fin 10000000000000000, Fin 1] [False, False]) ! 0
   \<and> \<not> IsAbsent (mkSeries ''W'' [Fin 10000000000000000, Fin 1] [False, False]) ! 1
   \<and> \<not> IsAbsent (mkSeries ''derivative(integral(W))'' [Fin 0, Fin 0] [True, False]) ! 1
   \<and> \<not> feq (Values (mkSeries ''derivative(integral(W))'' [Fin 0, Fin 0] [True, False]) ! 1)
            (Values (mkSeries ''W'' [Fin 10000000000000000, Fin 1] [False, False]) ! 1)"
  by (simp add: run_simps bigValues_def namedMetrics_def forEachSeriesDo_def integral_fn_def
      derivative_fn_def float_simps round64_big round64_big_succ feq_def)





















end
